(* ===== verification/RR_Prelude.thy ===== *)
theory RR_Prelude
  imports Main "HOL-Library.Word"
begin

text \<open>
  Shared vocabulary of the rabbitrender development: the C integer types, status codes, the
  binary search that \<^verbatim>\<open>Tokenizer::_indexOrderOf\<close> and
  \<^verbatim>\<open>SortedVectorImpl::_indexOrderOf\<close> both spell out, insertion and removal by position in
  a list, and the collections of lemmas the component theories share.

  Conventions. Unsigned C integers are words (\<^typ>\<open>8 word\<close>, \<^typ>\<open>16 word\<close>,
  \<^typ>\<open>32 word\<close>). Signed C integers are \<^typ>\<open>int\<close> with the wrap-around of a 32-bit
  two's complement register written out by \<open>s32\<close>; the platform is the LP64 Linux build of
  \<^verbatim>\<open>CMakeLists.txt\<close> (\<^verbatim>\<open>ssize_t\<close>, \<^verbatim>\<open>long\<close> and
  \<^verbatim>\<open>size_t\<close> are 64 bits wide). An arithmetic shift to the right by \<open>k\<close> is
  \<open>x div 2 ^ k\<close>.
\<close>

unbundle bit_operations_syntax

named_theorems fixed_defs \<open>definitions of the fixed-point helpers\<close>
named_theorems ctx_defs \<open>definitions of the context operations\<close>

type_synonym u8 = "8 word"
type_synonym u16 = "16 word"
type_synonym u32 = "32 word"

subsection \<open>Signed 32-bit integers\<close>

definition s32 :: "int \<Rightarrow> int" where
  "s32 x = (x + 2 ^ 31) mod 2 ^ 32 - 2 ^ 31"

definition in_s32 :: "int \<Rightarrow> bool" where
  "in_s32 x \<longleftrightarrow> - (2 ^ 31) \<le> x \<and> x < 2 ^ 31"

lemma in_s32_s32 [simp, intro]: "in_s32 (s32 x)"
  by (auto simp: in_s32_def s32_def)

lemma s32_id: "in_s32 x \<Longrightarrow> s32 x = x"
  by (simp add: in_s32_def s32_def mod_pos_pos_trivial)

lemma s32_id': "- 2147483648 \<le> x \<Longrightarrow> x < 2147483648 \<Longrightarrow> s32 x = x"
  by (simp add: s32_def)

lemma s32_s32 [simp]: "s32 (s32 x) = s32 x"
  by (rule s32_id) simp

lemma s32_bounds: "- 2147483648 \<le> s32 x" "s32 x < 2147483648"
  using in_s32_s32 [of x] by (simp_all add: in_s32_def)

lemma s32_sint: "s32 (sint (w :: 32 word)) = sint w"
  using sint_greater_eq [of w] sint_lt [of w] by (intro s32_id') simp_all

lemma in_s32_sint [simp]: "in_s32 (sint (w :: 32 word))"
  using sint_greater_eq [of w] sint_lt [of w] by (simp add: in_s32_def)

lemma s32_cong_add: "s32 (s32 x + y) = s32 (x + y)"
proof -
  have "((x + 2 ^ 31) mod 2 ^ 32 - 2 ^ 31 + y + 2 ^ 31) mod (2 ^ 32 :: int) = (x + y + 2 ^ 31) mod 2 ^ 32"
    by (simp add: mod_simps algebra_simps)
  then show ?thesis by (simp add: s32_def)
qed

lemma s32_cong_diff: "s32 (s32 x - y) = s32 (x - y)"
  using s32_cong_add [of x "- y"] by simp

subsection \<open>Bit fields\<close>

lemma int_div_less_iff: "0 < c \<Longrightarrow> a div c < b \<longleftrightarrow> a < b * (c :: int)"
proof -
  assume c: "0 < c"
  have e: "a = a div c * c + a mod c" "0 \<le> a mod c" "a mod c < c" using c by simp_all
  show ?thesis
  proof
    assume "a div c < b"
    then have "(a div c + 1) * c \<le> b * c" using c by (intro mult_right_mono) auto
    then show "a < b * c" using e by (simp only: distrib_right)
  next
    assume "a < b * c"
    then have "a div c * c < b * c" using e by linarith
    then show "a div c < b" using c by simp
  qed
qed

lemma and_field: "x AND (mask b * 2 ^ a) = (x div 2 ^ a mod 2 ^ b) * (2 ^ a :: int)"
proof -
  have "x AND (mask b * 2 ^ a) = push_bit a (take_bit b (drop_bit a x))"
  proof (rule bit_eqI)
    fix n
    show "bit (x AND (mask b * 2 ^ a)) n = bit (push_bit a (take_bit b (drop_bit a x))) n"
      by (auto simp: bit_and_iff bit_push_bit_iff bit_take_bit_iff bit_drop_bit_eq bit_mask_iff
          simp flip: push_bit_eq_mult)
  qed
  then show ?thesis by (simp add: push_bit_eq_mult take_bit_eq_mod drop_bit_eq_div)
qed

lemma and_field_zero: "x AND (mask b * 2 ^ a) = 0 \<longleftrightarrow> x div 2 ^ a mod (2 ^ b :: int) = 0"
  by (simp add: and_field)

lemma or_add: "x mod 2 ^ k = 0 \<Longrightarrow> 0 \<le> y \<Longrightarrow> y < 2 ^ k \<Longrightarrow> x OR y = x + (y :: int)"
proof -
  assume x: "x mod 2 ^ k = 0" and y: "0 \<le> y" "y < 2 ^ k"
  have tx: "take_bit k x = 0" using x by (simp add: take_bit_eq_mod)
  have ty: "take_bit k y = y" using y by (simp add: take_bit_eq_mod)
  have "x AND y = take_bit k x AND y"
    by (subst (1 2) ty [symmetric]) (auto simp: bit_eq_iff bit_simps)
  then show ?thesis using tx by (simp add: disjunctive_add_eq_or)
qed

subsection \<open>Status codes of \<^verbatim>\<open>Errors.h\<close>\<close>

abbreviation (input) NO_ERROR :: int where "NO_ERROR \<equiv> 0"
abbreviation (input) NAME_NOT_FOUND :: int where "NAME_NOT_FOUND \<equiv> - 2"
abbreviation (input) NO_MEMORY :: int where "NO_MEMORY \<equiv> - 12"
abbreviation (input) NO_INIT :: int where "NO_INIT \<equiv> - 19"
abbreviation (input) BAD_VALUE :: int where "BAD_VALUE \<equiv> - 22"
abbreviation (input) BAD_INDEX :: int where "BAD_INDEX \<equiv> - 75"

subsection \<open>Enumerants of \<^verbatim>\<open>GLES/gl.h\<close>\<close>

abbreviation (input) GL_NO_ERROR :: nat where "GL_NO_ERROR \<equiv> 0"
abbreviation (input) GL_INVALID_ENUM :: nat where "GL_INVALID_ENUM \<equiv> 0x0500"
abbreviation (input) GL_INVALID_VALUE :: nat where "GL_INVALID_VALUE \<equiv> 0x0501"
abbreviation (input) GL_INVALID_OPERATION :: nat where "GL_INVALID_OPERATION \<equiv> 0x0502"
abbreviation (input) GL_OUT_OF_MEMORY :: nat where "GL_OUT_OF_MEMORY \<equiv> 0x0505"
abbreviation (input) GL_BYTE :: nat where "GL_BYTE \<equiv> 0x1400"
abbreviation (input) GL_UNSIGNED_BYTE :: nat where "GL_UNSIGNED_BYTE \<equiv> 0x1401"
abbreviation (input) GL_SHORT :: nat where "GL_SHORT \<equiv> 0x1402"
abbreviation (input) GL_UNSIGNED_SHORT :: nat where "GL_UNSIGNED_SHORT \<equiv> 0x1403"
abbreviation (input) GL_FLOAT :: nat where "GL_FLOAT \<equiv> 0x1406"
abbreviation (input) GL_FIXED :: nat where "GL_FIXED \<equiv> 0x140C"
abbreviation (input) GL_VERTEX_ARRAY :: nat where "GL_VERTEX_ARRAY \<equiv> 0x8074"
abbreviation (input) GL_NORMAL_ARRAY :: nat where "GL_NORMAL_ARRAY \<equiv> 0x8075"
abbreviation (input) GL_COLOR_ARRAY :: nat where "GL_COLOR_ARRAY \<equiv> 0x8076"
abbreviation (input) GL_TEXTURE_COORD_ARRAY :: nat where "GL_TEXTURE_COORD_ARRAY \<equiv> 0x8078"
abbreviation (input) GL_TEXTURE0 :: nat where "GL_TEXTURE0 \<equiv> 0x84C0"
abbreviation (input) GL_ARRAY_BUFFER :: nat where "GL_ARRAY_BUFFER \<equiv> 0x8892"
abbreviation (input) GL_ELEMENT_ARRAY_BUFFER :: nat where "GL_ELEMENT_ARRAY_BUFFER \<equiv> 0x8893"
abbreviation (input) GL_STATIC_DRAW :: nat where "GL_STATIC_DRAW \<equiv> 0x88E4"
abbreviation (input) GL_DYNAMIC_DRAW :: nat where "GL_DYNAMIC_DRAW \<equiv> 0x88E8"

subsection \<open>Binary search\<close>

text \<open>
  The loop of both \<^verbatim>\<open>_indexOrderOf\<close> functions: \<open>cmp\<close> is the sign of the comparison of the
  element at an index with the key; the result is the value of \<^verbatim>\<open>err\<close> and of
  \<^verbatim>\<open>*order\<close>.
\<close>

function bsearch :: "(nat \<Rightarrow> int) \<Rightarrow> int \<Rightarrow> int \<Rightarrow> int \<times> int" where
  "bsearch cmp l h =
     (if l \<le> h then
        let mid = l + (h - l) div 2; c = cmp (nat mid) in
        if c = 0 then (mid, mid)
        else if c < 0 then bsearch cmp (mid + 1) h
        else bsearch cmp l (mid - 1)
      else (NAME_NOT_FOUND, l))"
  by pat_completeness auto
termination
proof (relation "measure (\<lambda>(cmp, l, h). nat (h - l + 1))", goal_cases)
  case 1
  show ?case by simp
next
  case (2 cmp l h x xa)
  then show ?case by (auto simp: nat_less_iff)
next
  case (3 cmp l h x xa)
  then have "(h - l) div 2 \<ge> 0" "(h - l) div 2 \<le> h - l" by auto
  with 3 show ?case by (auto simp: nat_less_iff)
qed

declare bsearch.simps [simp del]

text \<open>A comparison that orders the indices below \<open>n\<close>: negative, then at most one zero, then positive.\<close>

definition ordered_cmp :: "(nat \<Rightarrow> int) \<Rightarrow> nat \<Rightarrow> bool" where
  "ordered_cmp cmp n \<longleftrightarrow> (\<forall>i j. i < j \<and> j < n \<longrightarrow> cmp i < 0 \<or> 0 < cmp j)
     \<and> (\<forall>i j. i < j \<and> j < n \<longrightarrow> cmp j \<le> 0 \<longrightarrow> cmp i < 0)
     \<and> (\<forall>i j. i < j \<and> j < n \<longrightarrow> 0 \<le> cmp i \<longrightarrow> 0 < cmp j)"

lemma bsearch_range:
  assumes "0 \<le> l" "l \<le> h + 1" "h < int n"
    and "\<forall>i < nat l. cmp i < 0" "\<forall>i < n. nat (h + 1) \<le> i \<longrightarrow> 0 < cmp i" "ordered_cmp cmp n"
  shows "(\<exists>k < n. cmp k = 0 \<and> bsearch cmp l h = (int k, int k)) \<or>
         (\<exists>k \<le> n. (\<forall>i < k. cmp i < 0) \<and> (\<forall>i < n. k \<le> i \<longrightarrow> 0 < cmp i) \<and>
            bsearch cmp l h = (NAME_NOT_FOUND, int k))"
  using assms
proof (induction cmp l h rule: bsearch.induct)
  case (1 cmp l h)
  show ?case
  proof (cases "l \<le> h")
    case False
    then have "h + 1 = l" using "1.prems" by simp
    then show ?thesis using False "1.prems"
      by (intro disjI2 exI [of _ "nat l"]) (auto simp: bsearch.simps [of cmp l h])
  next
    case True
    define mid where "mid = l + (h - l) div 2"
    have mid: "l \<le> mid" "mid \<le> h" "0 \<le> mid" "nat mid < n"
      using True "1.prems" by (auto simp: mid_def)
    consider "cmp (nat mid) = 0" | "cmp (nat mid) < 0" | "0 < cmp (nat mid)" by linarith
    then show ?thesis
    proof cases
      case 1
      then show ?thesis using True mid
        by (intro disjI1 exI [of _ "nat mid"])
           (auto simp: bsearch.simps [of cmp l h] Let_def simp flip: mid_def)
    next
      case 2
      have lt: "\<forall>i < nat (mid + 1). cmp i < 0"
      proof (intro allI impI)
        fix i assume "i < nat (mid + 1)"
        then have "i < nat mid \<or> i = nat mid" using mid by auto
        then show "cmp i < 0"
          using 2 mid "1.prems"(6) unfolding ordered_cmp_def by (metis less_imp_le)
      qed
      have "bsearch cmp l h = bsearch cmp (mid + 1) h"
        using True 2 by (simp add: bsearch.simps [of cmp l h] Let_def flip: mid_def)
      then show ?thesis
        using "1.IH"(1) [OF True mid_def refl] 2 lt mid "1.prems" by simp
    next
      case 3
      have gt: "\<forall>i < n. nat (mid - 1 + 1) \<le> i \<longrightarrow> 0 < cmp i"
      proof (intro allI impI)
        fix i assume "i < n" "nat (mid - 1 + 1) \<le> i"
        then have "nat mid < i \<or> i = nat mid" by auto
        then show "0 < cmp i"
          using 3 \<open>i < n\<close> "1.prems"(6) unfolding ordered_cmp_def by (metis less_imp_le)
      qed
      have "bsearch cmp l h = bsearch cmp l (mid - 1)"
        using True 3 by (simp add: bsearch.simps [of cmp l h] Let_def flip: mid_def)
      then show ?thesis
        using "1.IH"(2) [OF True mid_def refl] 3 gt mid "1.prems" by simp
    qed
  qed
qed

text \<open>The whole search: it finds the element that compares equal, or the place where it belongs.\<close>

lemma bsearch_cases:
  assumes "ordered_cmp cmp n"
  obtains (found) k where "k < n" "cmp k = 0" "bsearch cmp 0 (int n - 1) = (int k, int k)"
  | (absent) k where "k \<le> n" "\<forall>i < k. cmp i < 0" "\<forall>i < n. k \<le> i \<longrightarrow> 0 < cmp i"
      "bsearch cmp 0 (int n - 1) = (NAME_NOT_FOUND, int k)"
  using bsearch_range [of 0 "int n - 1" n cmp] assms by fastforce

subsection \<open>Lists edited by position\<close>

definition insert_at :: "nat \<Rightarrow> 'a list \<Rightarrow> 'a list \<Rightarrow> 'a list" where
  "insert_at i ys xs = take i xs @ ys @ drop i xs"

definition remove_at :: "nat \<Rightarrow> nat \<Rightarrow> 'a list \<Rightarrow> 'a list" where
  "remove_at i n xs = take i xs @ drop (i + n) xs"

lemma length_insert_at [simp]: "length (insert_at i ys xs) = length xs + length ys"
  by (simp add: insert_at_def)

lemma length_remove_at [simp]: "i + n \<le> length xs \<Longrightarrow> length (remove_at i n xs) = length xs - n"
  by (simp add: remove_at_def)

lemma remove_insert_at [simp]: "i \<le> length xs \<Longrightarrow> remove_at i (length ys) (insert_at i ys xs) = xs"
  by (simp add: remove_at_def insert_at_def)

lemma insert_at_end [simp]: "insert_at (length xs) ys xs = xs @ ys"
  by (simp add: insert_at_def)

lemma set_insert_at: "set (insert_at i ys xs) = set xs \<union> set ys"
proof -
  have "set xs = set (take i xs) \<union> set (drop i xs)"
    by (metis append_take_drop_id set_append)
  then show ?thesis by (auto simp: insert_at_def)
qed

lemma id_take_nth_drop': "i < length xs \<Longrightarrow> xs = take i xs @ xs ! i # drop (Suc i) xs"
  by (rule id_take_nth_drop)

end
