(* ===== verification/Tokens.thy ===== *)
theory Tokens
  imports RR_Prelude
begin

text \<open>
  The name allocator of the GL object managers: \<^verbatim>\<open>swrender/Tokenizer.cpp\<close> (a sorted vector of
  runs of tokens) and \<^verbatim>\<open>swrender/TokenManager.cpp\<close> (names handed to the application, name 0
  reserved). The abstraction of a tokenizer is the set of acquired tokens; the locale
  \<open>token_allocator\<close> states what \<^verbatim>\<open>TokenManager\<close> relies on, its lemmas are the properties of
  \<^verbatim>\<open>getToken\<close> and \<^verbatim>\<open>recycleTokens\<close>, and it is interpreted on the tokenizer's
  own operations.
\<close>

subsection \<open>Tokenizer\<close>

record run_t =
  run_first :: u32
  run_length :: u32

type_synonym tokenizer = "run_t list"

definition mk_run :: "u32 \<Rightarrow> u32 \<Rightarrow> run_t" where
  "mk_run f l = \<lparr>run_first = f, run_length = l\<rparr>"

definition run_cmp :: "u32 \<Rightarrow> run_t \<Rightarrow> int" where
  "run_cmp token cur =
     (if token < run_first cur then 1
      else if token \<ge> run_first cur + run_length cur then - 1
      else 0)"

definition tok_indexOrderOf :: "tokenizer \<Rightarrow> u32 \<Rightarrow> int \<times> int" where
  "tok_indexOrderOf a token =
     bsearch (\<lambda>mid. run_cmp token (a ! mid)) 0 (int (length a) - 1)"

definition tok_insertTokenAt :: "tokenizer \<Rightarrow> u32 \<Rightarrow> nat \<Rightarrow> int \<times> tokenizer" where
  "tok_insertTokenAt rs token index =
     (let c = length rs; p = rs ! (index - 1); n = rs ! index in
      if index \<ge> 1 \<and> run_first p + run_length p = token then
        if index < c \<and> token + 1 = run_first n then
          (int index, remove_at index 1
             (rs[index - 1 := p\<lparr>run_length := run_length p + 1 + run_length n\<rparr>]))
        else (int index, rs[index - 1 := p\<lparr>run_length := run_length p + 1\<rparr>])
      else if index < c \<and> token + 1 = run_first n then
        (int index, rs[index := n\<lparr>run_first := run_first n - 1, run_length := run_length n + 1\<rparr>])
      else if index > c then (BAD_INDEX, rs)
      else (int index, insert_at index [mk_run token 1] rs))"

definition tok_acquire :: "tokenizer \<Rightarrow> u32 \<times> tokenizer" where
  "tok_acquire rs =
     (if rs = [] \<or> run_first (rs ! 0) \<noteq> 0 then (0, snd (tok_insertTokenAt rs 0 0))
      else let run = rs ! 0; token = run_first run + run_length run in
        (token, snd (tok_insertTokenAt rs token 1)))"

definition tok_isAcquired :: "tokenizer \<Rightarrow> u32 \<Rightarrow> bool" where
  "tok_isAcquired rs token = (fst (tok_indexOrderOf rs token) \<ge> 0)"

definition tok_reserve :: "tokenizer \<Rightarrow> u32 \<Rightarrow> int \<times> tokenizer" where
  "tok_reserve rs token =
     (let (i, o') = tok_indexOrderOf rs token in
      if i \<ge> 0 then (BAD_VALUE, rs)
      else let (err, rs') = tok_insertTokenAt rs token (nat o') in
        (if err < 0 then err else NO_ERROR, rs'))"

definition tok_release :: "tokenizer \<Rightarrow> u32 \<Rightarrow> int \<times> tokenizer" where
  "tok_release rs token =
     (let i = fst (tok_indexOrderOf rs token) in
      if i \<ge> 0 then
        let k = nat i; run = rs ! k in
        if token \<ge> run_first run \<and> token < run_first run + run_length run then
          if token = run_first run \<or> token = run_first run + run_length run - 1 then
            let first' = (if token = run_first run then run_first run + 1 else run_first run);
                run' = \<lparr>run_first = first', run_length = run_length run - 1\<rparr> in
            (NO_ERROR, if run_length run' = 0 then remove_at k 1 rs else rs[k := run'])
          else
            let new_run = mk_run (token + 1) (run_first run + run_length run - (token + 1)) in
            (NO_ERROR, insert_at (k + 1) [new_run] (rs[k := run\<lparr>run_length := token - run_first run\<rparr>]))
        else (NAME_NOT_FOUND, rs)
      else (NAME_NOT_FOUND, rs))"

subsection \<open>TokenManager\<close>

fun acquire_n :: "('s \<Rightarrow> u32 \<times> 's) \<Rightarrow> nat \<Rightarrow> 's \<Rightarrow> u32 list \<times> 's" where
  "acquire_n acq 0 s = ([], s)"
| "acquire_n acq (Suc n) s =
     (let (t, s1) = acq s; (ts, s2) = acquire_n acq n s1 in (t # ts, s2))"

fun release_nonzero :: "('s \<Rightarrow> u32 \<Rightarrow> int \<times> 's) \<Rightarrow> u32 list \<Rightarrow> 's \<Rightarrow> 's" where
  "release_nonzero rel [] s = s"
| "release_nonzero rel (t # ts) s =
     release_nonzero rel ts (if t \<noteq> 0 then snd (rel s t) else s)"

definition TokenManager_init :: tokenizer where
  "TokenManager_init = snd (tok_reserve [] 0)"

definition getToken :: "tokenizer \<Rightarrow> int \<Rightarrow> u32 list \<times> tokenizer" where
  "getToken m n = acquire_n tok_acquire (nat n) m"

definition recycleTokens :: "tokenizer \<Rightarrow> int \<Rightarrow> u32 list \<Rightarrow> tokenizer" where
  "recycleTokens m n tokens = release_nonzero tok_release (take (nat n) tokens) m"

definition isTokenValid :: "tokenizer \<Rightarrow> u32 \<Rightarrow> bool" where
  "isTokenValid m token = tok_isAcquired m token"

subsection \<open>Abstraction and invariant\<close>

definition rlo :: "run_t \<Rightarrow> nat" where "rlo r = unat (run_first r)"
definition rhi :: "run_t \<Rightarrow> nat" where "rhi r = unat (run_first r) + unat (run_length r)"

definition run_ok :: "run_t \<Rightarrow> bool" where
  "run_ok r \<longleftrightarrow> rlo r < rhi r \<and> rhi r < 2 ^ 32"

text \<open>Runs are non-empty, in increasing order, and never adjacent: a run is maximal.\<close>

definition runs_ok :: "tokenizer \<Rightarrow> bool" where
  "runs_ok rs \<longleftrightarrow> sorted_wrt (\<lambda>r s. rhi r < rlo s) rs \<and> (\<forall>r \<in> set rs. run_ok r)"

definition tokens :: "tokenizer \<Rightarrow> u32 set" where
  "tokens rs = {t. \<exists>r \<in> set rs. rlo r \<le> unat t \<and> unat t < rhi r}"

lemma runs_ok_Nil [simp]: "runs_ok []"
  by (simp add: runs_ok_def)

lemma runs_ok_Cons: "runs_ok (r # rs) \<longleftrightarrow> run_ok r \<and> (\<forall>s \<in> set rs. rhi r < rlo s) \<and> runs_ok rs"
  by (auto simp: runs_ok_def)

lemma runs_ok_append:
  "runs_ok (rs @ ss) \<longleftrightarrow> runs_ok rs \<and> runs_ok ss \<and> (\<forall>r \<in> set rs. \<forall>s \<in> set ss. rhi r < rlo s)"
  by (auto simp: runs_ok_def sorted_wrt_append)

lemma tokens_append: "tokens (rs @ ss) = tokens rs \<union> tokens ss"
  by (auto simp: tokens_def)

lemma tokens_Cons: "tokens (r # rs) = {t. rlo r \<le> unat t \<and> unat t < rhi r} \<union> tokens rs"
  by (auto simp: tokens_def)

lemma tokens_Nil [simp]: "tokens [] = {}"
  by (simp add: tokens_def)

lemma finite_tokens [simp]: "finite (tokens rs)"
  by simp

lemmas run_simps = runs_ok_Cons runs_ok_append tokens_append tokens_Cons run_ok_def

lemma unat_run_end: "run_ok r \<Longrightarrow> unat (run_first r + run_length r) = rhi r"
  by (simp add: run_ok_def rhi_def unat_word_ariths)

lemma run_cmp_simps:
  assumes "run_ok r"
  shows "run_cmp t r = (if unat t < rlo r then 1 else if rhi r \<le> unat t then - 1 else 0)"
  using unat_run_end [OF assms] by (simp add: run_cmp_def rlo_def word_less_nat_alt word_le_nat_alt)

lemma run_cmp_zero: "run_ok r \<Longrightarrow> run_cmp t r = 0 \<longleftrightarrow> rlo r \<le> unat t \<and> unat t < rhi r"
  by (simp add: run_cmp_simps)

lemma runs_ok_nth: "runs_ok rs \<Longrightarrow> i < length rs \<Longrightarrow> run_ok (rs ! i)"
  by (simp add: runs_ok_def)

lemma runs_ok_nth_less:
  "runs_ok rs \<Longrightarrow> i < j \<Longrightarrow> j < length rs \<Longrightarrow> rhi (rs ! i) < rlo (rs ! j)"
  by (simp add: runs_ok_def sorted_wrt_iff_nth_less)

lemma ordered_run_cmp:
  assumes "runs_ok rs"
  shows "ordered_cmp (\<lambda>i. run_cmp t (rs ! i)) (length rs)"
  unfolding ordered_cmp_def
proof (intro conjI allI impI)
  fix i j assume ij: "i < j \<and> j < length rs"
  then have "run_ok (rs ! i)" "run_ok (rs ! j)" "rhi (rs ! i) < rlo (rs ! j)"
    using runs_ok_nth [OF assms] runs_ok_nth_less [OF assms] by simp_all
  then show "run_cmp t (rs ! i) < 0 \<or> 0 < run_cmp t (rs ! j)"
    and "run_cmp t (rs ! j) \<le> 0 \<Longrightarrow> run_cmp t (rs ! i) < 0"
    and "0 \<le> run_cmp t (rs ! i) \<Longrightarrow> 0 < run_cmp t (rs ! j)"
    by (auto simp: run_cmp_simps run_ok_def split: if_splits)
qed

text \<open>The search of a well-formed tokenizer finds the run of the token, or where it belongs.\<close>

lemma indexOrderOf_cases:
  assumes "runs_ok rs"
  obtains (found) k where "k < length rs" "rlo (rs ! k) \<le> unat t" "unat t < rhi (rs ! k)"
      "t \<in> tokens rs" "tok_indexOrderOf rs t = (int k, int k)"
  | (absent) xs ys where "rs = xs @ ys" "\<forall>x \<in> set xs. rhi x \<le> unat t"
      "\<forall>y \<in> set ys. unat t < rlo y" "t \<notin> tokens rs"
      "tok_indexOrderOf rs t = (NAME_NOT_FOUND, int (length xs))"
proof (cases rule: bsearch_cases [OF ordered_run_cmp [OF assms, of t]])
  case (1 k)
  note found = 1
  then have "rlo (rs ! k) \<le> unat t" "unat t < rhi (rs ! k)"
    using run_cmp_zero runs_ok_nth [OF assms] by blast+
  with found show ?thesis
    by (intro that(1)) (auto simp: tok_indexOrderOf_def tokens_def)
next
  case (2 k)
  note absent = 2
  have lo: "rhi x \<le> unat t" if x: "x \<in> set (take k rs)" for x
  proof -
    from x obtain i where "i < k" "i < length rs" "x = rs ! i"
      by (auto simp: in_set_conv_nth)
    with absent(2) show ?thesis
      using runs_ok_nth [OF assms, of i] by (auto simp: run_cmp_simps split: if_splits)
  qed
  have hi: "unat t < rlo x" if x: "x \<in> set (drop k rs)" for x
  proof -
    from x obtain i where "i < length rs - k" "x = rs ! (k + i)"
      using absent(1) by (auto simp: in_set_conv_nth)
    then have "k + i < length rs" "x = rs ! (k + i)" by simp_all
    with absent(3) show ?thesis
      using runs_ok_nth [OF assms, of "k + i"] by (auto simp: run_cmp_simps split: if_splits)
  qed
  have "t \<notin> tokens (take k rs @ drop k rs)"
    unfolding tokens_append using lo hi by (fastforce simp: tokens_def)
  then have "t \<notin> tokens rs" by simp
  then show ?thesis using lo hi absent(1,4)
    by (intro that(2) [of "take k rs" "drop k rs"]) (auto simp: tok_indexOrderOf_def)
qed


subsection \<open>Insertion, reservation, acquisition\<close>

lemma rlo_mk_run [simp]: "rlo (mk_run t l) = unat t"
  by (simp add: rlo_def mk_run_def)

lemma rhi_mk_run [simp]: "rhi (mk_run t l) = unat t + unat l"
  by (simp add: rhi_def mk_run_def)

lemma unat_Suc_word: "unat (t :: u32) + 1 < 2 ^ 32 \<Longrightarrow> unat (t + 1) = unat t + 1"
  by (simp add: unat_word_ariths)

lemma rlo_upd [simp]: "rlo (r\<lparr>run_length := l\<rparr>) = rlo r"
  by (simp add: rlo_def)

lemma rhi_upd: "rhi (r\<lparr>run_length := l\<rparr>) = rlo r + unat l"
  by (simp add: rhi_def rlo_def)

text \<open>The three ways a token joins the runs around it, on a vector split at its place.\<close>

lemma insertTokenAt_split:
  "tok_insertTokenAt (xs @ ys) t (length xs) = (int (length xs),
     if xs \<noteq> [] \<and> run_first (last xs) + run_length (last xs) = t then
       butlast xs @
         (if ys \<noteq> [] \<and> t + 1 = run_first (hd ys)
          then (last xs)\<lparr>run_length := run_length (last xs) + 1 + run_length (hd ys)\<rparr> # tl ys
          else (last xs)\<lparr>run_length := run_length (last xs) + 1\<rparr> # ys)
     else if ys \<noteq> [] \<and> t + 1 = run_first (hd ys)
       then xs @ (hd ys)\<lparr>run_first := run_first (hd ys) - 1, run_length := run_length (hd ys) + 1\<rparr> # tl ys
     else xs @ mk_run t 1 # ys)"
  by (cases xs rule: rev_cases; cases ys)
     (auto simp: tok_insertTokenAt_def Let_def nth_append list_update_append remove_at_def insert_at_def)

lemma unat_add_bounded: "unat a + unat b < 2 ^ 32 \<Longrightarrow> unat (a + b :: u32) = unat a + unat b"
  by (simp add: unat_word_ariths)

text \<open>A token that closes the gap between two runs, extends the run before it, extends the run after
  it, or becomes a run of its own.\<close>

lemma join_both:
  assumes "runs_ok (xs @ [p, n] @ ys)" "rhi p = unat t" "rlo n = unat t + 1"
    and "r = p\<lparr>run_length := run_length p + 1 + run_length n\<rparr>"
  shows "runs_ok (xs @ r # ys)" "tokens (xs @ r # ys) = insert t (tokens (xs @ [p, n] @ ys))"
proof -
  have ok: "run_ok p" "run_ok n" using assms(1) by (auto simp: run_simps)
  have "unat (run_length p + 1 + run_length n) = rhi n - rlo p"
    using ok assms(2,3) by (simp add: rhi_def rlo_def run_ok_def unat_word_ariths)
  then have r: "rlo r = rlo p" "rhi r = rhi n"
    using ok assms(2-4) by (simp_all add: rhi_upd run_ok_def)
  show "runs_ok (xs @ r # ys)" using assms(1) by (auto simp: run_simps r)
  show "tokens (xs @ r # ys) = insert t (tokens (xs @ [p, n] @ ys))"
    using ok assms(2,3) by (auto simp: run_simps r word_unat_eq_iff)
qed

lemma join_prev:
  assumes "runs_ok (xs @ [p] @ ys)" "rhi p = unat t" "\<forall>y \<in> set ys. unat t + 1 < rlo y"
    and "unat t + 1 < 2 ^ 32" and "r = p\<lparr>run_length := run_length p + 1\<rparr>"
  shows "runs_ok (xs @ r # ys)" "tokens (xs @ r # ys) = insert t (tokens (xs @ [p] @ ys))"
proof -
  have ok: "run_ok p" using assms(1) by (auto simp: run_simps)
  have "unat (run_length p + 1) = rhi p + 1 - rlo p"
    using ok assms(2,4) by (simp add: rhi_def rlo_def run_ok_def unat_word_ariths)
  then have r: "rlo r = rlo p" "rhi r = unat t + 1"
    using ok assms(2,5) by (simp_all add: rhi_upd run_ok_def)
  show "runs_ok (xs @ r # ys)" using assms(1-4) by (auto simp: run_simps r)
  show "tokens (xs @ r # ys) = insert t (tokens (xs @ [p] @ ys))"
    using ok assms(2) by (auto simp: run_simps r word_unat_eq_iff)
qed

lemma join_next:
  assumes "runs_ok (xs @ [n] @ ys)" "rlo n = unat t + 1" "\<forall>x \<in> set xs. rhi x < unat t"
    and "r = n\<lparr>run_first := run_first n - 1, run_length := run_length n + 1\<rparr>"
  shows "runs_ok (xs @ r # ys)" "tokens (xs @ r # ys) = insert t (tokens (xs @ [n] @ ys))"
proof -
  have ok: "run_ok n" using assms(1) by (auto simp: run_simps)
  have first: "run_first n = t + 1"
    using assms(2) ok by (simp add: word_unat_eq_iff rlo_def run_ok_def unat_word_ariths)
  then have "unat (run_length n + 1) = rhi n - unat t"
    using ok assms(2) by (simp add: rhi_def rlo_def run_ok_def unat_word_ariths)
  then have r: "rlo r = unat t" "rhi r = rhi n"
    using first ok assms(2,4) by (simp_all add: rhi_def rlo_def run_ok_def)
  show "runs_ok (xs @ r # ys)" using assms(1-3) by (auto simp: run_simps r)
  show "tokens (xs @ r # ys) = insert t (tokens (xs @ [n] @ ys))"
    using ok assms(2) by (auto simp: run_simps r word_unat_eq_iff)
qed

lemma join_none:
  assumes "runs_ok (xs @ ys)" "\<forall>x \<in> set xs. rhi x < unat t" "\<forall>y \<in> set ys. unat t + 1 < rlo y"
    and "unat t + 1 < 2 ^ 32"
  shows "runs_ok (xs @ mk_run t 1 # ys)"
    and "tokens (xs @ mk_run t 1 # ys) = insert t (tokens (xs @ ys))"
  using assms by (auto simp: run_simps word_unat_eq_iff)

lemma runs_before:
  assumes "runs_ok (xs @ [p] @ ys)" "rhi p \<le> m" "rhi p \<noteq> m"
  shows "\<forall>x \<in> set (xs @ [p]). rhi x < m"
  using assms by (fastforce simp: run_simps)

lemma runs_after:
  assumes "runs_ok (xs @ [n] @ ys)" "m < rlo n" "rlo n \<noteq> m + 1"
  shows "\<forall>y \<in> set (n # ys). m + 1 < rlo y"
  using assms by (fastforce simp: run_simps)

lemma run_end_eq: "run_ok p \<Longrightarrow> run_first p + run_length p = t \<longleftrightarrow> rhi p = unat t"
  by (simp add: word_unat_eq_iff unat_run_end)

lemma run_first_eq: "unat t + 1 < 2 ^ 32 \<Longrightarrow> t + 1 = run_first n \<longleftrightarrow> rlo n = unat t + 1"
  using unat_Suc_word [of t] by (auto simp: word_unat_eq_iff rlo_def)

text \<open>Inserting a free token at its place keeps the runs maximal and adds exactly that token.\<close>

lemma insertTokenAt_ok:
  assumes ok: "runs_ok (xs @ ys)" and lo: "\<forall>x \<in> set xs. rhi x \<le> unat t"
    and hi: "\<forall>y \<in> set ys. unat t < rlo y" and room: "unat t + 1 < 2 ^ 32"
  defines "res \<equiv> snd (tok_insertTokenAt (xs @ ys) t (length xs))"
  shows "runs_ok res \<and> tokens res = insert t (tokens (xs @ ys))"
proof -
  note res = arg_cong [OF insertTokenAt_split [of xs ys t], of snd, folded res_def]
  show ?thesis
  proof (cases xs rule: rev_cases)
    case Nil
    show ?thesis
    proof (cases ys)
      case Nil
      then show ?thesis using \<open>xs = []\<close> join_none [of "[]" "[]" t] room
        by (simp add: res)
    next
      case (Cons n zs)
      show ?thesis
        using \<open>xs = []\<close> Cons ok hi room join_next [of "[]" n zs t] join_none [of "[]" ys t]
          runs_after [of "[]" n zs "unat t"]
        by (auto simp: res run_first_eq)
    qed
  next
    case (snoc ws p)
    have p: "run_ok p" using ok snoc by (auto simp: run_simps)
    show ?thesis
    proof (cases ys)
      case Nil
      show ?thesis
        using snoc Nil ok lo room join_prev [of ws p "[]" t] join_none [of xs "[]" t]
          runs_before [of ws p "[]" "unat t"]
        by (auto simp: res run_end_eq [OF p])
    next
      case (Cons n zs)
      note facts = snoc Cons ok lo hi room
      show ?thesis
      proof (cases "rhi p = unat t"; cases "rlo n = unat t + 1")
        assume "rhi p = unat t" "rlo n = unat t + 1"
        then show ?thesis using facts join_both [of ws p n zs t]
          by (auto simp: res run_end_eq [OF p] run_first_eq)
      next
        assume "rhi p = unat t" "rlo n \<noteq> unat t + 1"
        then show ?thesis using facts join_prev [of ws p ys t] runs_after [of xs n zs "unat t"]
          by (auto simp: res run_end_eq [OF p] run_first_eq)
      next
        assume "rhi p \<noteq> unat t" "rlo n = unat t + 1"
        then show ?thesis using facts join_next [of xs n zs t] runs_before [of ws p ys "unat t"]
          by (auto simp: res run_end_eq [OF p] run_first_eq)
      next
        assume "rhi p \<noteq> unat t" "rlo n \<noteq> unat t + 1"
        then show ?thesis using facts join_none [of xs ys t] runs_before [of ws p ys "unat t"]
            runs_after [of xs n zs "unat t"]
          by (auto simp: res run_end_eq [OF p] run_first_eq)
      qed
    qed
  qed
qed

lemma card_below: "n \<le> 2 ^ 32 \<Longrightarrow> card {u :: u32. unat u < n} = n"
proof -
  assume n: "n \<le> 2 ^ 32"
  have "{u :: u32. unat u < n} = of_nat ` {..<n}"
  proof (intro equalityI subsetI)
    fix u :: u32 assume "u \<in> {u. unat u < n}"
    then show "u \<in> of_nat ` {..<n}" by (auto intro!: image_eqI [of _ _ "unat u"])
  next
    fix u :: u32 assume "u \<in> of_nat ` {..<n}"
    then show "u \<in> {u. unat u < n}" using n by (auto simp: unat_of_nat)
  qed
  moreover have "inj_on (of_nat :: nat \<Rightarrow> u32) {..<n}"
    using n by (auto intro!: inj_onI simp: word_unat_eq_iff unat_of_nat)
  ultimately show ?thesis by (simp add: card_image)
qed

text \<open>What \<^verbatim>\<open>acquire\<close> returns: the least free token.\<close>

lemma acquire_spec:
  assumes ok: "runs_ok rs" and room: "card (tokens rs) + 1 < 2 ^ 32"
    and acq: "tok_acquire rs = (t, rs')"
  shows "t \<notin> tokens rs \<and> (\<forall>u. unat u < unat t \<longrightarrow> u \<in> tokens rs) \<and>
         runs_ok rs' \<and> tokens rs' = insert t (tokens rs)"
proof (cases "rs = [] \<or> run_first (rs ! 0) \<noteq> 0")
  case True
  then have hi: "\<forall>y \<in> set rs. unat (0 :: u32) < rlo y"
  proof (cases rs)
    case (Cons r ss)
    then have "0 < rlo r" using True by (simp add: rlo_def unat_gt_0)
    then show ?thesis using Cons ok by (fastforce simp: run_simps)
  qed simp
  then have "(0 :: u32) \<notin> tokens rs" by (force simp: tokens_def)
  moreover have "t = 0" "rs' = snd (tok_insertTokenAt ([] @ rs) 0 (length []))"
    using True acq by (auto simp: tok_acquire_def)
  ultimately show ?thesis using insertTokenAt_ok [of "[]" rs 0] ok hi by auto
next
  case False
  then obtain r ss where rs: "rs = r # ss" and r0: "run_first r = 0" by (cases rs) auto
  have r: "run_ok r" and ss: "\<forall>s \<in> set ss. rhi r < rlo s" using ok rs by (auto simp: run_simps)
  have t: "t = run_first r + run_length r" "rs' = snd (tok_insertTokenAt ([r] @ ss) t (length [r]))"
    using False acq rs by (auto simp: tok_acquire_def Let_def)
  have ut: "unat t = rhi r" using t r by (simp add: unat_run_end)
  have below: "u \<in> tokens rs" if "unat u < unat t" for u
    using that rs r0 ut by (auto simp: run_simps rlo_def)
  have "{u. unat u < unat t} \<subseteq> tokens rs" using below by blast
  then have "card {u :: u32. unat u < unat t} \<le> card (tokens rs)"
    by (rule card_mono [OF finite_tokens])
  moreover have "unat t \<le> 2 ^ 32" using r ut by (simp add: run_ok_def)
  ultimately have "unat t \<le> card (tokens rs)" by (simp only: card_below)
  then have "unat t + 1 < 2 ^ 32" using room by simp
  moreover have "t \<notin> tokens rs" using rs ut ss by (fastforce simp: run_simps tokens_def)
  ultimately have "runs_ok rs' \<and> tokens rs' = insert t (tokens rs)" "t \<notin> tokens rs"
    using insertTokenAt_ok [of "[r]" ss t] ok rs ss ut t(2) by simp_all
  then show ?thesis using below by blast
qed

lemma reserve_spec:
  assumes ok: "runs_ok rs" and room: "unat t + 1 < 2 ^ 32" and res: "tok_reserve rs t = (e, rs')"
  shows "if t \<in> tokens rs then e = BAD_VALUE \<and> rs' = rs
         else e = NO_ERROR \<and> runs_ok rs' \<and> tokens rs' = insert t (tokens rs)"
  using ok
proof (cases rule: indexOrderOf_cases [where t = t])
  case (found k)
  then show ?thesis using res by (simp add: tok_reserve_def)
next
  case (absent xs ys)
  then have "fst (tok_insertTokenAt rs t (length xs)) = int (length xs)"
    by (simp add: insertTokenAt_split)
  then show ?thesis using absent res insertTokenAt_ok [of xs ys t] ok room
    by (auto simp: tok_reserve_def split: prod.splits)
qed

lemma reserve_taken: "runs_ok rs \<Longrightarrow> t \<in> tokens rs \<Longrightarrow> tok_reserve rs t = (BAD_VALUE, rs)"
  by (cases rule: indexOrderOf_cases [where t = t]) (auto simp: tok_reserve_def)

lemma isAcquired_iff: "runs_ok rs \<Longrightarrow> tok_isAcquired rs t \<longleftrightarrow> t \<in> tokens rs"
  by (cases rule: indexOrderOf_cases [where t = t]) (auto simp: tok_isAcquired_def)

subsection \<open>Release\<close>

lemma tokens_disjoint:
  "runs_ok (xs @ [r] @ ys) \<Longrightarrow> rlo r \<le> unat t \<Longrightarrow> unat t < rhi r \<Longrightarrow> t \<notin> tokens xs \<and> t \<notin> tokens ys"
  by (fastforce simp: run_simps tokens_def)

text \<open>Replacing one run by shorter runs that together hold all of it but \<open>t\<close>.\<close>

lemma shrink_runs:
  assumes "runs_ok (xs @ [r] @ ys)" "runs_ok zs"
    and "\<forall>z \<in> set zs. rlo r \<le> rlo z \<and> rhi z \<le> rhi r"
    and "tokens zs = {u. rlo r \<le> unat u \<and> unat u < rhi r} - {t}"
    and "rlo r \<le> unat t" "unat t < rhi r"
  shows "runs_ok (xs @ zs @ ys)" "tokens (xs @ zs @ ys) = tokens (xs @ [r] @ ys) - {t}"
proof -
  show "runs_ok (xs @ zs @ ys)" using assms(1-3) by (fastforce simp: run_simps)
  show "tokens (xs @ zs @ ys) = tokens (xs @ [r] @ ys) - {t}"
    using tokens_disjoint [OF assms(1,5,6)] assms(4) by (auto simp: run_simps)
qed

text \<open>What is left of a run when one of its tokens goes.\<close>

definition cut_run :: "run_t \<Rightarrow> u32 \<Rightarrow> run_t list" where
  "cut_run r t =
     (if unat t = rlo r \<or> unat t = rhi r - 1 then
        if rhi r = rlo r + 1 then []
        else [mk_run (if unat t = rlo r then run_first r + 1 else run_first r) (run_length r - 1)]
      else [r\<lparr>run_length := t - run_first r\<rparr>,
            mk_run (t + 1) (run_first r + run_length r - (t + 1))])"

lemma unat_minus_one: "0 < unat w \<Longrightarrow> unat (w - 1 :: u32) = unat w - 1"
  by (simp add: unat_sub word_le_nat_alt)

lemma cut_run_ok:
  assumes r: "run_ok r" and t: "rlo r \<le> unat t" "unat t < rhi r"
  shows "runs_ok (cut_run r t) \<and> (\<forall>z \<in> set (cut_run r t). rlo r \<le> rlo z \<and> rhi z \<le> rhi r) \<and>
         tokens (cut_run r t) = {u. rlo r \<le> unat u \<and> unat u < rhi r} - {t}"
proof -
  have f: "unat (run_first r) = rlo r" "unat (run_length r) = rhi r - rlo r"
    by (simp_all add: rlo_def rhi_def)
  have e: "unat (run_first r + run_length r) = rhi r" using r by (rule unat_run_end)
  have f1: "unat (run_first r + 1) = rlo r + 1" "unat (t + 1) = unat t + 1"
    using r t f by (auto simp: run_ok_def intro!: unat_Suc_word [THEN trans])
  have l1: "unat (run_length r - 1) = rhi r - rlo r - 1"
    using r f by (simp add: unat_minus_one run_ok_def)
  have tf: "unat (t - run_first r) = unat t - rlo r"
    using t f by (simp add: unat_sub word_le_nat_alt)
  have et: "unat (run_first r + run_length r - (t + 1)) = rhi r - (unat t + 1)"
    using t e f1 by (simp add: unat_sub word_le_nat_alt)
  consider "unat t = rlo r" | "unat t = rhi r - 1" "unat t \<noteq> rlo r"
    | "unat t \<noteq> rlo r" "unat t \<noteq> rhi r - 1" by blast
  then show ?thesis
  proof cases
    case 1
    then show ?thesis using r t f f1 l1
      by (auto simp: cut_run_def run_simps word_unat_eq_iff)
  next
    case 2
    then show ?thesis using r t f l1
      by (auto simp: cut_run_def run_simps word_unat_eq_iff)
  next
    case 3
    then show ?thesis using r t f f1 tf et
      by (auto simp: cut_run_def run_simps rhi_upd word_unat_eq_iff)
  qed
qed

lemma release_found:
  assumes "run_ok r" "rlo r \<le> unat t" "unat t < rhi r"
    and idx: "tok_indexOrderOf (xs @ [r] @ ys) t = (int (length xs), int (length xs))"
  shows "tok_release (xs @ [r] @ ys) t = (NO_ERROR, xs @ cut_run r t @ ys)"
proof -
  have e: "unat (run_first r + run_length r) = rhi r" using assms(1) by (rule unat_run_end)
  have in_run: "run_first r \<le> t" "t < run_first r + run_length r"
    using assms(2,3) e by (simp_all add: rlo_def word_le_nat_alt word_less_nat_alt)
  have first: "t = run_first r \<longleftrightarrow> unat t = rlo r"
    by (simp only: rlo_def word_unat_eq_iff)
  have "unat (run_first r + run_length r - 1) = rhi r - 1"
    using e assms(3) by (simp add: unat_minus_one)
  then have last: "t = run_first r + run_length r - 1 \<longleftrightarrow> unat t = rhi r - 1"
    by (simp only: word_unat_eq_iff)
  have "unat (run_length r - 1) = rhi r - rlo r - 1"
    using assms(1) by (simp add: unat_minus_one run_ok_def rlo_def rhi_def)
  then have empty: "run_length r - 1 = 0 \<longleftrightarrow> rhi r = rlo r + 1"
    using assms(1) by (auto simp: run_ok_def simp flip: unat_eq_zero)
  have nth: "(xs @ [r] @ ys) ! nat (int (length xs)) = r" by simp
  show ?thesis
    unfolding tok_release_def Let_def idx fst_conv nth first last run_t.simps empty
    using in_run
    by (simp add: cut_run_def mk_run_def list_update_append remove_at_def insert_at_def)
qed

lemma release_spec:
  assumes ok: "runs_ok rs" and rel: "tok_release rs t = (e, rs')"
  shows "if t \<in> tokens rs then e = NO_ERROR \<and> runs_ok rs' \<and> tokens rs' = tokens rs - {t}
         else e = NAME_NOT_FOUND \<and> rs' = rs"
  using ok
proof (cases rule: indexOrderOf_cases [where t = t])
  case (absent xs ys)
  then show ?thesis using rel by (simp add: tok_release_def)
next
  case (found k)
  define xs ys r where "xs = take k rs" and "ys = drop (Suc k) rs" and "r = rs ! k"
  have rs: "rs = xs @ [r] @ ys" and k: "k = length xs"
    using found(1) id_take_nth_drop [of k rs] by (simp_all add: xs_def ys_def r_def)
  have r: "run_ok r" using ok rs by (simp add: run_simps)
  have t: "rlo r \<le> unat t" "unat t < rhi r" using found by (simp_all add: r_def)
  have "tok_release rs t = (NO_ERROR, xs @ cut_run r t @ ys)"
    using release_found [OF r t, of xs ys] found(5) rs k by simp
  then show ?thesis
    using shrink_runs [of xs r ys "cut_run r t" t] cut_run_ok [OF r t] ok rs t found(4) rel by simp
qed


subsection \<open>What the token manager relies on\<close>

locale token_allocator =
  fixes acquire :: "'s \<Rightarrow> u32 \<times> 's"
    and release :: "'s \<Rightarrow> u32 \<Rightarrow> int \<times> 's"
    and taken :: "'s \<Rightarrow> u32 set"
    and ok :: "'s \<Rightarrow> bool"
  assumes acquire_law: "ok s \<Longrightarrow> card (taken s) + 1 < 2 ^ 32 \<Longrightarrow> acquire s = (t, s') \<Longrightarrow>
      t \<notin> taken s \<and> ok s' \<and> taken s' = insert t (taken s)"
    and release_law: "ok s \<Longrightarrow> release s t = (e, s') \<Longrightarrow> ok s' \<and> taken s' = taken s - {t}"
begin

lemma acquire_n_spec:
  assumes "ok s" "card (taken s) + n < 2 ^ 32" "acquire_n acquire n s = (ts, s')"
  shows "length ts = n \<and> distinct ts \<and> set ts \<inter> taken s = {} \<and> ok s' \<and>
         taken s' = taken s \<union> set ts"
  using assms
proof (induction n arbitrary: s ts)
  case 0
  then show ?case by simp
next
  case (Suc n)
  obtain t s1 where a: "acquire s = (t, s1)" by fastforce
  obtain us where n: "acquire_n acquire n s1 = (us, s')" and ts: "ts = t # us"
    using Suc.prems(3) a by (auto split: prod.splits)
  have s1: "t \<notin> taken s" "ok s1" "taken s1 = insert t (taken s)"
    using acquire_law [OF Suc.prems(1) _ a] Suc.prems(2) by simp_all
  then have "card (taken s1) + n < 2 ^ 32" using Suc.prems(2) by simp
  from Suc.IH [OF s1(2) this n] show ?case using s1 ts by auto
qed

lemma release_nonzero_spec:
  "ok s \<Longrightarrow> ok (release_nonzero release ts s) \<and>
     taken (release_nonzero release ts s) = taken s - (set ts - {0})"
proof (induction ts arbitrary: s)
  case Nil
  then show ?case by simp
next
  case (Cons t ts)
  obtain e s1 where r: "release s t = (e, s1)" by fastforce
  show ?case
    using Cons.IH [of s1] Cons.IH [of s] Cons.prems release_law [OF Cons.prems r] r by auto
qed

end

interpretation tokenizer: token_allocator tok_acquire tok_release tokens runs_ok
proof
  fix s t s' assume "runs_ok s" "card (tokens s) + 1 < 2 ^ 32" "tok_acquire s = (t, s')"
  then show "t \<notin> tokens s \<and> runs_ok s' \<and> tokens s' = insert t (tokens s)"
    using acquire_spec by blast
next
  fix s t e s' assume "runs_ok s" "tok_release s t = (e, s')"
  then show "runs_ok s' \<and> tokens s' = tokens s - {t}"
    using release_spec [of s t e s'] by (auto split: if_splits)
qed

text \<open>The states of a manager that never runs out of names.\<close>

inductive mgr_reachable :: "tokenizer \<Rightarrow> bool" where
  init: "mgr_reachable TokenManager_init"
| get: "mgr_reachable m \<Longrightarrow> card (tokens m) + nat n < 2 ^ 32 \<Longrightarrow> mgr_reachable (snd (getToken m n))"
| recycle: "mgr_reachable m \<Longrightarrow> mgr_reachable (recycleTokens m n ts)"

lemma TokenManager_init_eq: "TokenManager_init = [mk_run 0 1]"
  by (simp add: TokenManager_init_def tok_reserve_def tok_indexOrderOf_def bsearch.simps
      tok_insertTokenAt_def insert_at_def)

lemma tokens_init: "tokens TokenManager_init = {0}"
  by (auto simp: TokenManager_init_eq tokens_Cons unat_eq_zero)

lemma mgr_reachable_inv: "mgr_reachable m \<Longrightarrow> runs_ok m \<and> 0 \<in> tokens m"
proof (induction rule: mgr_reachable.induct)
  case init
  show ?case by (auto simp: TokenManager_init_eq run_simps)
next
  case (get m n)
  then show ?case
    using tokenizer.acquire_n_spec [of m "nat n" "fst (getToken m n)" "snd (getToken m n)"]
    by (auto simp: getToken_def)
next
  case (recycle m n ts)
  then show ?case
    using tokenizer.release_nonzero_spec [of m] by (auto simp: recycleTokens_def)
qed

subsection \<open>Properties\<close>



text \<open>C2. Recycling the names just handed out restores the set of names in use, and no recycling
  ever frees the reserved name 0.\<close>

theorem getToken_recycle_roundtrip:
  assumes "mgr_reachable m" "card (tokens m) + nat n < 2 ^ 32" "getToken m n = (ts, m')"
  shows "(\<forall>t. isTokenValid (recycleTokens m' n ts) t \<longleftrightarrow> isTokenValid m t) \<and>
         (\<forall>k us. isTokenValid (recycleTokens m' k us) 0)"
proof -
  have m: "runs_ok m" "0 \<in> tokens m" using mgr_reachable_inv assms(1) by blast+
  have g: "length ts = nat n" "set ts \<inter> tokens m = {}" "runs_ok m'" "tokens m' = tokens m \<union> set ts"
    using tokenizer.acquire_n_spec [OF m(1) assms(2)] assms(3) by (simp_all add: getToken_def)
  have "0 \<notin> set ts" using g(2) m(2) by blast
  then show ?thesis
    using g m tokenizer.release_nonzero_spec [OF g(3)]
    by (auto simp: recycleTokens_def isTokenValid_def isAcquired_iff)
qed

theorem getToken_recycle_roundtrip_witness:
  "\<forall>t. isTokenValid (recycleTokens (snd (getToken TokenManager_init 2)) 2
        (fst (getToken TokenManager_init 2))) t \<longleftrightarrow> isTokenValid TokenManager_init t"
proof -
  have card: "card (tokens TokenManager_init) + nat 2 < 2 ^ 32" by (simp add: tokens_init)
  show ?thesis
    using getToken_recycle_roundtrip [OF mgr_reachable.init card surjective_pairing] by blast
qed

text \<open>C3. A tokenizer whose runs are well formed acquires the least token that is free.\<close>

theorem acquire_least_free:
  assumes "runs_ok rs" "card (tokens rs) + 1 < 2 ^ 32"
  shows "\<not> tok_isAcquired rs (fst (tok_acquire rs)) \<and>
         (\<forall>u < fst (tok_acquire rs). tok_isAcquired rs u) \<and>
         runs_ok (snd (tok_acquire rs))"
  using acquire_spec [OF assms surjective_pairing] assms(1)
  by (auto simp: isAcquired_iff word_less_nat_alt)

theorem acquire_least_free_witness:
  "fst (tok_acquire [mk_run 0 2, mk_run 3 4]) = 2 \<and>
   runs_ok (snd (tok_acquire [mk_run 0 2, mk_run 3 4]))"
proof -
  let ?rs = "[mk_run 0 2, mk_run 3 4]"
  have ok: "runs_ok ?rs" by (simp add: run_simps)
  have "tokens ?rs \<subseteq> {u. unat u < 7}" by (auto simp: tokens_Cons)
  then have "card (tokens ?rs) \<le> 7"
    using card_mono [of "{u :: u32. unat u < 7}" "tokens ?rs"] card_below [of 7] by simp
  then have "card (tokens ?rs) + 1 < 2 ^ 32" by simp
  from acquire_least_free [OF ok this] show ?thesis by (simp add: tok_acquire_def mk_run_def)
qed



text \<open>The largest token is the exception: reserving it is reported as a success, but
  \<^verbatim>\<open>first + length\<close> wraps to 0 and the token is not found afterwards.\<close>

lemma reserve_max_token_lost:
  "fst (tok_reserve TokenManager_init (- 1)) = NO_ERROR \<and>
   \<not> tok_isAcquired (snd (tok_reserve TokenManager_init (- 1))) (- 1)"
  by (simp add: TokenManager_init_eq tok_reserve_def tok_isAcquired_def tok_indexOrderOf_def
      bsearch.simps tok_insertTokenAt_def Let_def run_cmp_def mk_run_def insert_at_def)

end
