(* ===== verification/Vectors.thy ===== *)
theory Vectors
  imports RR_Prelude "HOL-Library.Monad_Syntax"
begin

text \<open>
  The containers of \<^verbatim>\<open>libpixelflinger/tinyutils\<close>: \<^verbatim>\<open>VectorImpl\<close> (a
  growable array), \<^verbatim>\<open>SortedVectorImpl\<close> and \<^verbatim>\<open>KeyedVector\<close>. A vector is its
  storage (\<^verbatim>\<open>mStorage\<close>, an array of \<open>capacity\<close> slots, the empty list for a null pointer) and
  the number of slots in use (\<^verbatim>\<open>mCount\<close>). An operation returns \<^term>\<open>None\<close> where the code
  would touch memory outside its storage or follow a null pointer. The parameter \<open>al\<close> says which
  allocations (by number of slots) \<^verbatim>\<open>SharedBuffer::alloc\<close> can serve. A vector is the only
  owner of its storage: copy-on-write sharing is not modelled. Sizes are natural numbers.
\<close>

record 'a vectorImpl =
  slots :: "'a option list"
  mCount :: nat
  mTrivial :: bool \<comment> \<open>\<^verbatim>\<open>HAS_TRIVIAL_COPY\<close> and \<^verbatim>\<open>HAS_TRIVIAL_DTOR\<close>\<close>

definition vec_empty :: "bool \<Rightarrow> 'a vectorImpl" where
  "vec_empty triv = \<lparr>slots = [], mCount = 0, mTrivial = triv\<rparr>"

definition vec_capacity :: "'a vectorImpl \<Rightarrow> nat" where
  "vec_capacity v = length (slots v)"

subsection \<open>Raw array operations\<close>

definition do_copy :: "'a option list \<Rightarrow> nat \<Rightarrow> 'a option list \<Rightarrow> nat \<Rightarrow> nat \<Rightarrow> 'a option list option" where
  "do_copy dest d src s n =
     (if s + n \<le> length src \<and> d + n \<le> length dest
      then Some (take d dest @ take n (drop s src) @ drop (d + n) dest) else None)"

definition do_splat :: "'a option list \<Rightarrow> nat \<Rightarrow> 'a \<Rightarrow> nat \<Rightarrow> 'a option list option" where
  "do_splat dest d x n =
     (if d + n \<le> length dest
      then Some (take d dest @ replicate n (Some x) @ drop (d + n) dest) else None)"

definition resize :: "nat \<Rightarrow> 'a option list \<Rightarrow> 'a option list" where
  "resize nc xs = take nc xs @ replicate (nc - length xs) None"

subsection \<open>Growing and shrinking\<close>

definition vec_grow :: "(nat \<Rightarrow> bool) \<Rightarrow> 'a vectorImpl \<Rightarrow> nat \<Rightarrow> nat \<Rightarrow> ('a vectorImpl \<times> nat option) option" where
  "vec_grow al v wh amount =
     (let w = (if wh > mCount v then mCount v else wh); new_size = mCount v + amount in
      if vec_capacity v < new_size then
        let new_capacity = max 4 ((new_size * 3 + 1) div 2) in
        if slots v \<noteq> [] \<and> mCount v = w \<and> mTrivial v then
          if al new_capacity
          then Some (v\<lparr>slots := resize new_capacity (slots v), mCount := new_size\<rparr>, Some w)
          else None
        else if al new_capacity then do {
          a \<leftarrow> (if w > 0 then do_copy (replicate new_capacity None) 0 (slots v) 0 w
                else Some (replicate new_capacity None));
          b \<leftarrow> (if mCount v > w then do_copy a (w + amount) (slots v) w (mCount v - w) else Some a);
          Some (v\<lparr>slots := b, mCount := new_size\<rparr>, Some w)
        }
        else Some (v\<lparr>mCount := new_size\<rparr>, if slots v = [] then None else Some w)
      else do {
        b \<leftarrow> (if mCount v - w > 0 then do_copy (slots v) (w + amount) (slots v) w (mCount v - w)
              else Some (slots v));
        Some (v\<lparr>slots := b, mCount := new_size\<rparr>, if b = [] then None else Some w)
      })"

definition vec_shrink :: "(nat \<Rightarrow> bool) \<Rightarrow> 'a vectorImpl \<Rightarrow> nat \<Rightarrow> nat \<Rightarrow> 'a vectorImpl option" where
  "vec_shrink al v wh amount =
     (if slots v = [] then Some v
      else
        let w = (if wh \<ge> mCount v then mCount v - amount else wh); new_size = mCount v - amount in
        if new_size * 3 < vec_capacity v then
          let new_capacity = max 4 (new_size * 2) in
          if w = mCount v - amount \<and> mTrivial v then
            if al new_capacity
            then Some (v\<lparr>slots := resize new_capacity (slots v), mCount := new_size\<rparr>)
            else None
          else if al new_capacity then do {
            a \<leftarrow> (if w > 0 then do_copy (replicate new_capacity None) 0 (slots v) 0 w
                  else Some (replicate new_capacity None));
            b \<leftarrow> (if mCount v > w + amount
                  then do_copy a w (slots v) (w + amount) (mCount v - (w + amount)) else Some a);
            Some (v\<lparr>slots := b, mCount := new_size\<rparr>)
          }
          else Some (v\<lparr>mCount := new_size\<rparr>)
        else do {
          b \<leftarrow> (if mCount v - (w + amount) > 0
                then do_copy (slots v) w (slots v) (w + amount) (mCount v - (w + amount))
                else Some (slots v));
          Some (v\<lparr>slots := b, mCount := new_size\<rparr>)
        })"

subsection \<open>Operations of \<^verbatim>\<open>VectorImpl\<close>\<close>

definition vec_insertAt :: "(nat \<Rightarrow> bool) \<Rightarrow> 'a vectorImpl \<Rightarrow> 'a \<Rightarrow> nat \<Rightarrow> nat \<Rightarrow> (int \<times> 'a vectorImpl) option" where
  "vec_insertAt al v item index numItems =
     (if index > mCount v then Some (BAD_INDEX, v)
      else do {
        (v', where') \<leftarrow> vec_grow al v index numItems;
        (case where' of
           None \<Rightarrow> Some (NO_MEMORY, v')
         | Some w \<Rightarrow> do {
             s \<leftarrow> do_splat (slots v') w item numItems;
             Some (int index, v'\<lparr>slots := s\<rparr>)
           })
      })"

definition vec_insertVectorAt ::
  "(nat \<Rightarrow> bool) \<Rightarrow> 'a vectorImpl \<Rightarrow> 'a vectorImpl \<Rightarrow> nat \<Rightarrow> (int \<times> 'a vectorImpl) option" where
  "vec_insertVectorAt al v u index =
     (if index > mCount v then Some (BAD_INDEX, v)
      else do {
        (v', where') \<leftarrow> vec_grow al v index (mCount u);
        (case where' of
           None \<Rightarrow> Some (NO_MEMORY, v')
         | Some w \<Rightarrow> do {
             s \<leftarrow> do_copy (slots v') w (slots u) 0 (mCount u);
             Some (int index, v'\<lparr>slots := s\<rparr>)
           })
      })"

definition vec_appendVector ::
  "(nat \<Rightarrow> bool) \<Rightarrow> 'a vectorImpl \<Rightarrow> 'a vectorImpl \<Rightarrow> (int \<times> 'a vectorImpl) option" where
  "vec_appendVector al v u = vec_insertVectorAt al v u (mCount v)"

definition vec_add :: "(nat \<Rightarrow> bool) \<Rightarrow> 'a vectorImpl \<Rightarrow> 'a \<Rightarrow> (int \<times> 'a vectorImpl) option" where
  "vec_add al v item = vec_insertAt al v item (mCount v) 1"

definition vec_push :: "(nat \<Rightarrow> bool) \<Rightarrow> 'a vectorImpl \<Rightarrow> 'a \<Rightarrow> 'a vectorImpl option" where
  "vec_push al v item = map_option snd (vec_insertAt al v item (mCount v) 1)"

definition vec_replaceAt :: "'a vectorImpl \<Rightarrow> 'a \<Rightarrow> nat \<Rightarrow> (int \<times> 'a vectorImpl) option" where
  "vec_replaceAt v item index =
     (if slots v = [] then Some (NO_MEMORY, v)
      else if index < length (slots v)
      then Some (int index, v\<lparr>slots := (slots v)[index := Some item]\<rparr>) else None)"

definition vec_removeItemsAt ::
  "(nat \<Rightarrow> bool) \<Rightarrow> 'a vectorImpl \<Rightarrow> nat \<Rightarrow> nat \<Rightarrow> (int \<times> 'a vectorImpl) option" where
  "vec_removeItemsAt al v index count =
     (if index + count > mCount v then Some (BAD_VALUE, v)
      else do { v' \<leftarrow> vec_shrink al v index count; Some (int index, v') })"

definition vec_pop :: "(nat \<Rightarrow> bool) \<Rightarrow> 'a vectorImpl \<Rightarrow> 'a vectorImpl option" where
  "vec_pop al v = (if mCount v > 0 then map_option snd (vec_removeItemsAt al v (mCount v - 1) 1) else Some v)"

definition vec_clear :: "(nat \<Rightarrow> bool) \<Rightarrow> 'a vectorImpl \<Rightarrow> 'a vectorImpl option" where
  "vec_clear al v = vec_shrink al v 0 (mCount v)"

definition vec_setCapacity ::
  "(nat \<Rightarrow> bool) \<Rightarrow> 'a vectorImpl \<Rightarrow> nat \<Rightarrow> (int \<times> 'a vectorImpl) option" where
  "vec_setCapacity al v new_capacity =
     (if int new_capacity - int (mCount v) \<le> 0 then Some (int (vec_capacity v), v)
      else if al new_capacity then do {
        a \<leftarrow> do_copy (replicate new_capacity None) 0 (slots v) 0 (mCount v);
        Some (int new_capacity, v\<lparr>slots := a\<rparr>)
      }
      else Some (NO_MEMORY, v))"

subsection \<open>Operations of \<^verbatim>\<open>SortedVectorImpl\<close>\<close>

text \<open>\<open>cmp\<close> is \<^verbatim>\<open>do_compare\<close>; \<open>c\<close> is the comparison with the item searched for.\<close>

definition sv_indexOrderOf :: "('a \<Rightarrow> int) \<Rightarrow> 'a vectorImpl \<Rightarrow> int \<times> int" where
  "sv_indexOrderOf c v = bsearch (\<lambda>mid. c (the (slots v ! mid))) 0 (int (mCount v) - 1)"

definition sv_add :: "(nat \<Rightarrow> bool) \<Rightarrow> ('a \<Rightarrow> 'a \<Rightarrow> int) \<Rightarrow> 'a vectorImpl \<Rightarrow> 'a \<Rightarrow> (int \<times> 'a vectorImpl) option" where
  "sv_add al cmp v item =
     (let (index, order) = sv_indexOrderOf (\<lambda>cur. cmp cur item) v in
      if index < 0 then vec_insertAt al v item (nat order) 1
      else vec_replaceAt v item (nat index))"

fun sv_merge_loop ::
  "(nat \<Rightarrow> bool) \<Rightarrow> ('a \<Rightarrow> 'a \<Rightarrow> int) \<Rightarrow> 'a vectorImpl \<Rightarrow> 'a list \<Rightarrow> (int \<times> 'a vectorImpl) option" where
  "sv_merge_loop al cmp v [] = Some (NO_ERROR, v)"
| "sv_merge_loop al cmp v (x # xs) =
     do { (err, v') \<leftarrow> sv_add al cmp v x;
          if err < 0 then Some (err, v') else sv_merge_loop al cmp v' xs }"

definition vec_list :: "'a vectorImpl \<Rightarrow> 'a list" where
  "vec_list v = map the (take (mCount v) (slots v))"

definition sv_merge_vector ::
  "(nat \<Rightarrow> bool) \<Rightarrow> ('a \<Rightarrow> 'a \<Rightarrow> int) \<Rightarrow> 'a vectorImpl \<Rightarrow> 'a vectorImpl \<Rightarrow> (int \<times> 'a vectorImpl) option" where
  "sv_merge_vector al cmp v u =
     (if mCount u = 0 then Some (NO_ERROR, v) else sv_merge_loop al cmp v (vec_list u))"

definition item_at :: "'a vectorImpl \<Rightarrow> nat \<Rightarrow> 'a option" where
  "item_at v i = (if i < length (slots v) then slots v ! i else None)"

definition sv_merge_sorted ::
  "(nat \<Rightarrow> bool) \<Rightarrow> ('a \<Rightarrow> 'a \<Rightarrow> int) \<Rightarrow> 'a vectorImpl \<Rightarrow> 'a vectorImpl \<Rightarrow> (int \<times> 'a vectorImpl) option" where
  "sv_merge_sorted al cmp v u =
     (if mCount u = 0 then Some (NO_ERROR, v)
      else do {
        u_last \<leftarrow> item_at u (mCount u - 1);
        v_first \<leftarrow> item_at v 0;
        if cmp u_last v_first \<le> 0 then vec_insertVectorAt al v u 0
        else do {
          u_first \<leftarrow> item_at u 0;
          v_last \<leftarrow> (if mCount v = 0 then None else item_at v (mCount v - 1));
          if cmp u_first v_last \<ge> 0 then vec_appendVector al v u
          else sv_merge_vector al cmp v u
        }
      })"

definition sv_remove ::
  "(nat \<Rightarrow> bool) \<Rightarrow> ('a \<Rightarrow> int) \<Rightarrow> 'a vectorImpl \<Rightarrow> (int \<times> 'a vectorImpl) option" where
  "sv_remove al c v =
     (let i = fst (sv_indexOrderOf c v) in
      if i \<ge> 0 then do { (_, v') \<leftarrow> vec_removeItemsAt al v (nat i) 1; Some (i, v') }
      else Some (i, v))"


subsection \<open>Operations of \<^verbatim>\<open>KeyedVector\<close>\<close>

definition compare_type :: "'k :: linorder \<Rightarrow> 'k \<Rightarrow> int" where
  "compare_type lhs rhs = (if rhs < lhs then 1 else 0) - (if lhs < rhs then 1 else 0)"

definition kv_compare :: "('k :: linorder \<times> 'v) \<Rightarrow> ('k \<times> 'v) \<Rightarrow> int" where
  "kv_compare lhs rhs = compare_type (fst lhs) (fst rhs)"

definition key_compare :: "'k :: linorder \<Rightarrow> ('k \<times> 'v) \<Rightarrow> int" where
  "key_compare key cur = compare_type (fst cur) key"

definition kv_indexOfKey :: "('k :: linorder \<times> 'v) vectorImpl \<Rightarrow> 'k \<Rightarrow> int" where
  "kv_indexOfKey v key = fst (sv_indexOrderOf (key_compare key) v)"

definition kv_valueAt :: "('k \<times> 'v) vectorImpl \<Rightarrow> nat \<Rightarrow> 'v option" where
  "kv_valueAt v index = map_option snd (item_at v index)"

definition kv_valueFor :: "('k :: linorder \<times> 'v) vectorImpl \<Rightarrow> 'k \<Rightarrow> 'v option" where
  "kv_valueFor v key =
     (let i = kv_indexOfKey v key in if i \<ge> 0 then kv_valueAt v (nat i) else None)"

definition kv_add ::
  "(nat \<Rightarrow> bool) \<Rightarrow> ('k :: linorder \<times> 'v) vectorImpl \<Rightarrow> 'k \<Rightarrow> 'v \<Rightarrow> (int \<times> ('k \<times> 'v) vectorImpl) option" where
  "kv_add al v key value = sv_add al kv_compare v (key, value)"

definition kv_removeItem ::
  "(nat \<Rightarrow> bool) \<Rightarrow> ('k :: linorder \<times> 'v) vectorImpl \<Rightarrow> 'k \<Rightarrow> (int \<times> ('k \<times> 'v) vectorImpl) option" where
  "kv_removeItem al v key = sv_remove al (key_compare key) v"

definition kv_removeItemsAt ::
  "(nat \<Rightarrow> bool) \<Rightarrow> ('k :: linorder \<times> 'v) vectorImpl \<Rightarrow> nat \<Rightarrow> nat \<Rightarrow> (int \<times> ('k \<times> 'v) vectorImpl) option" where
  "kv_removeItemsAt al v index count = vec_removeItemsAt al v index count"

definition kv_replaceValueFor ::
  "(nat \<Rightarrow> bool) \<Rightarrow> ('k :: linorder \<times> 'v) vectorImpl \<Rightarrow> 'k \<Rightarrow> 'v \<Rightarrow> (int \<times> ('k \<times> 'v) vectorImpl) option" where
  "kv_replaceValueFor al v key value =
     do { (_, v') \<leftarrow> sv_remove al (key_compare key) v; sv_add al kv_compare v' (key, value) }"

definition dkv_valueFor :: "'v \<Rightarrow> ('k :: linorder \<times> 'v) vectorImpl \<Rightarrow> 'k \<Rightarrow> 'v option" where
  "dkv_valueFor mDefault v key =
     (let i = kv_indexOfKey v key in if i \<ge> 0 then kv_valueAt v (nat i) else Some mDefault)"

subsection \<open>Invariant and refinement to lists\<close>

definition vec_ok :: "'a vectorImpl \<Rightarrow> bool" where
  "vec_ok v \<longleftrightarrow> mCount v \<le> length (slots v) \<and> (\<forall>i < mCount v. slots v ! i \<noteq> None)"

lemma length_vec_list: "vec_ok v \<Longrightarrow> length (vec_list v) = mCount v"
  by (simp add: vec_list_def vec_ok_def)

lemma nth_vec_list: "vec_ok v \<Longrightarrow> i < mCount v \<Longrightarrow> vec_list v ! i = the (slots v ! i)"
  by (simp add: vec_list_def vec_ok_def)

lemma vec_list_slots: "vec_ok v \<Longrightarrow> take (mCount v) (slots v) = map Some (vec_list v)"
  by (rule nth_equalityI) (auto simp: vec_list_def vec_ok_def)

text \<open>The slots in use are the list; what lies beyond them does not matter.\<close>

lemma vec_repr: "vec_ok v \<and> vec_list v = xs \<longleftrightarrow> (\<exists>junk. slots v = map Some xs @ junk) \<and> mCount v = length xs"
proof
  assume "vec_ok v \<and> vec_list v = xs"
  then show "(\<exists>junk. slots v = map Some xs @ junk) \<and> mCount v = length xs"
    using vec_list_slots [of v] append_take_drop_id [of "mCount v" "slots v"]
    by (auto simp: length_vec_list intro: exI [of _ "drop (mCount v) (slots v)"])
next
  assume "(\<exists>junk. slots v = map Some xs @ junk) \<and> mCount v = length xs"
  then show "vec_ok v \<and> vec_list v = xs"
    by (auto simp: vec_ok_def vec_list_def nth_append o_def)
qed

lemma vec_reprE:
  assumes "vec_ok v" obtains junk where "slots v = map Some (vec_list v) @ junk"
    "mCount v = length (vec_list v)"
  using vec_repr [of v "vec_list v"] assms by blast

lemma vec_reprI:
  "slots v = map Some xs @ junk \<Longrightarrow> mCount v = length xs \<Longrightarrow> vec_ok v \<and> vec_list v = xs"
  using vec_repr [of v xs] by blast

lemma vec_empty_ok [simp]: "vec_ok (vec_empty triv)" "vec_list (vec_empty triv) = []"
  by (simp_all add: vec_ok_def vec_list_def vec_empty_def)

lemma do_copy_append:
  "length A = d \<Longrightarrow> length B = n \<Longrightarrow> length S1 = s \<Longrightarrow> length S2 = n \<Longrightarrow>
   do_copy (A @ B @ C) d (S1 @ S2 @ S3) s n = Some (A @ S2 @ C)"
  by (simp add: do_copy_def)

lemma do_copy_none: "do_copy dest d src s 0 = (if s \<le> length src \<and> d \<le> length dest then Some dest else None)"
  by (simp add: do_copy_def)

lemma do_splat_append:
  "length A = d \<Longrightarrow> length B = n \<Longrightarrow> do_splat (A @ B @ C) d x n = Some (A @ replicate n (Some x) @ C)"
  by (simp add: do_splat_def)

lemma resize_append:
  "length A \<le> nc \<Longrightarrow> \<exists>J. resize nc (A @ B) = A @ J \<and> length J = nc - length A"
  by (simp add: resize_def)

lemma split_list_at: "n \<le> length J \<Longrightarrow> \<exists>G K. J = G @ K \<and> length G = n"
  by (metis append_take_drop_id length_take min.absorb2)

lemma split_list_at2:
  assumes "n + m \<le> length J" obtains G B C where "J = G @ B @ C" "length G = n" "length B = m"
proof -
  obtain G K where "J = G @ K" "length G = n" using split_list_at [of n J] assms by auto
  moreover obtain B C where "K = B @ C" "length B = m"
    using split_list_at [of m K] assms calculation by auto
  ultimately show thesis using that by blast
qed

text \<open>After \<^verbatim>\<open>_grow\<close> the old items stand around a gap of \<open>n\<close> slots.\<close>

definition grown :: "'a vectorImpl \<Rightarrow> 'a list \<Rightarrow> 'a list \<Rightarrow> nat \<Rightarrow> ('a vectorImpl \<times> nat option) option \<Rightarrow> bool" where
  "grown v xs ys n res \<longleftrightarrow> (\<exists>v' gap junk. res = Some (v', Some (length xs)) \<and>
     mCount v' = length xs + length ys + n \<and> mTrivial v' = mTrivial v \<and> length gap = n \<and>
     slots v' = map Some xs @ gap @ map Some ys @ junk)"

lemma grown_in_place:
  assumes "slots v = map Some (xs @ ys) @ junk" "mCount v = length xs + length ys"
    and "length xs + length ys + n \<le> vec_capacity v" "0 < n"
  shows "grown v xs ys n (vec_grow al v (length xs) n)"
proof -
  have "n + length ys \<le> length (map Some ys @ junk)"
    using assms by (simp add: vec_capacity_def)
  then obtain G B C where g: "map Some ys @ junk = G @ B @ C" "length G = n" "length B = length ys"
    by (rule split_list_at2)
  have "do_copy (slots v) (length xs + n) (slots v) (length xs) (length ys)
      = do_copy ((map Some xs @ G) @ B @ C) (length xs + n) (map Some xs @ map Some ys @ junk) (length xs) (length ys)"
    using assms(1) g(1) by simp
  also have "\<dots> = Some ((map Some xs @ G) @ map Some ys @ C)"
    using g by (intro do_copy_append) simp_all
  finally have cp: "do_copy (slots v) (length xs + n) (slots v) (length xs) (length ys)
      = Some ((map Some xs @ G) @ map Some ys @ C)" .
  have sl: "ys = [] \<Longrightarrow> slots v = map Some xs @ G @ C" using assms(1) g by auto
  have ne: "slots v \<noteq> []" using assms(3,4) by (auto simp: vec_capacity_def)
  show ?thesis
    using assms g(2) cp sl ne
    by (cases "ys = []")
       (auto simp: grown_def vec_grow_def Let_def not_less)
qed


lemma grown_resized:
  assumes "slots v = map Some xs @ junk" "mCount v = length xs" "vec_capacity v < length xs + n"
    and "slots v \<noteq> []" "mTrivial v" "\<forall>k. al k"
  shows "grown v xs [] n (vec_grow al v (length xs) n)"
proof -
  define nc where "nc = max 4 (((length xs + n) * 3 + 1) div 2)"
  have nc: "length xs + n \<le> nc" by (auto simp: nc_def)
  obtain J where J: "resize nc (map Some xs @ junk) = map Some xs @ J" "length J = nc - length xs"
    using resize_append [of "map Some xs" nc junk] nc by auto
  have "n \<le> length J" using J nc by simp
  then obtain G K where "J = G @ K" "length G = n" using split_list_at [of n J] by blast
  moreover have "vec_grow al v (length xs) n
      = Some (v\<lparr>slots := resize nc (slots v), mCount := length xs + n\<rparr>, Some (length xs))"
    using assms by (simp add: vec_grow_def Let_def nc_def)
  ultimately show ?thesis using assms(1) J(1) by (auto simp: grown_def)
qed

lemma grown_moved:
  assumes s: "slots v = map Some (xs @ ys) @ junk" and m: "mCount v = length xs + length ys"
    and "vec_capacity v < length xs + length ys + n" "\<forall>k. al k"
    and "slots v = [] \<or> ys \<noteq> [] \<or> \<not> mTrivial v"
  shows "grown v xs ys n (vec_grow al v (length xs) n)"
proof -
  define nc where "nc = max 4 (((length xs + length ys + n) * 3 + 1) div 2)"
  have nc: "length xs + n + length ys \<le> nc" by (auto simp: nc_def)
  have r: "replicate nc None = replicate (length xs) None @ replicate n None @
      replicate (length ys) None @ replicate (nc - (length xs + n + length ys)) (None :: 'a option)"
    using nc by (simp flip: replicate_add)
  have c1: "do_copy (replicate nc None) 0 (slots v) 0 (length xs) = Some (map Some xs @ replicate n None @
      replicate (length ys) None @ replicate (nc - (length xs + n + length ys)) None)"
    unfolding r s using do_copy_append [of "[]" 0 "replicate (length xs) None" "length xs" "[]" 0 "map Some xs"]
    by simp
  have c2: "do_copy (map Some xs @ replicate n None @
      replicate (length ys) None @ replicate (nc - (length xs + n + length ys)) None)
      (length xs + n) (slots v) (length xs) (length ys)
      = Some ((map Some xs @ replicate n None) @ map Some ys @
          replicate (nc - (length xs + n + length ys)) None)"
    unfolding s using do_copy_append [of "map Some xs @ replicate n None" "length xs + n"
        "replicate (length ys) None" "length ys" "map Some xs" "length xs" "map Some ys"] by simp
  have "vec_grow al v (length xs) n = do {
      a \<leftarrow> do_copy (replicate nc None) 0 (slots v) 0 (length xs);
      b \<leftarrow> do_copy a (length xs + n) (slots v) (length xs) (length ys);
      Some (v\<lparr>slots := b, mCount := length xs + length ys + n\<rparr>, Some (length xs)) }"
    using assms nc c1 c2 unfolding vec_grow_def Let_def m nc_def [symmetric]
    by (auto simp: do_copy_none)
  moreover have "length (replicate n None) = n" by simp
  ultimately show ?thesis unfolding grown_def c1 c2 by (fastforce simp: c1 c2)
qed


lemma grow_spec:
  assumes ok: "vec_ok v" and i: "i \<le> mCount v" and n: "0 < n" and al: "\<forall>k. al k"
  shows "grown v (take i (vec_list v)) (drop i (vec_list v)) n (vec_grow al v i n)"
proof -
  obtain junk where s: "slots v = map Some (vec_list v) @ junk" and m: "mCount v = length (vec_list v)"
    using ok by (rule vec_reprE)
  define xs ys where "xs = take i (vec_list v)" and "ys = drop i (vec_list v)"
  have xy: "vec_list v = xs @ ys" "length xs = i" using i m by (simp_all add: xs_def ys_def)
  have s': "slots v = map Some (xs @ ys) @ junk" and m': "mCount v = length xs + length ys"
    using s m xy by simp_all
  have "grown v xs ys n (vec_grow al v (length xs) n)"
  proof (cases "vec_capacity v < length xs + length ys + n")
    case False
    then show ?thesis using grown_in_place [OF s' m'] n by simp
  next
    case True
    show ?thesis
    proof (cases "slots v = [] \<or> ys \<noteq> [] \<or> \<not> mTrivial v")
      case True
      then show ?thesis using grown_moved [OF s' m'] \<open>vec_capacity v < _\<close> al by simp
    next
      case False
      then show ?thesis using grown_resized [of v xs junk n al] s' m' \<open>vec_capacity v < _\<close> al by simp
    qed
  qed
  then show ?thesis using xy(2) by (simp add: xs_def ys_def)
qed

lemma insertAt_spec:
  assumes ok: "vec_ok v" and i: "i \<le> mCount v" and n: "0 < n" and al: "\<forall>k. al k"
  shows "\<exists>v'. vec_insertAt al v x i n = Some (int i, v') \<and> vec_ok v' \<and>
    vec_list v' = insert_at i (replicate n x) (vec_list v)"
proof -
  obtain v' gap junk where g: "vec_grow al v i n = Some (v', Some i)" "mCount v' = mCount v + n"
    "length gap = n" "slots v' = map Some (take i (vec_list v)) @ gap @ map Some (drop i (vec_list v)) @ junk"
    using grow_spec [OF assms] i by (auto simp: grown_def length_vec_list [OF ok])
  have sp: "do_splat (slots v') i x n = Some (map Some (take i (vec_list v)) @ replicate n (Some x) @
      map Some (drop i (vec_list v)) @ junk)"
    unfolding g(4) using g(3) i by (intro do_splat_append) (simp_all add: length_vec_list [OF ok])
  let ?v = "v'\<lparr>slots := map Some (take i (vec_list v)) @ replicate n (Some x) @ map Some (drop i (vec_list v)) @ junk\<rparr>"
  have "vec_ok ?v \<and> vec_list ?v = insert_at i (replicate n x) (vec_list v)"
    using g(2) i by (intro vec_reprI) (simp_all add: insert_at_def length_vec_list [OF ok])
  then show ?thesis using g(1) sp i by (auto simp: vec_insertAt_def)
qed

lemma insertVectorAt_spec:
  assumes ok: "vec_ok v" "vec_ok u" and i: "i \<le> mCount v" and n: "0 < mCount u" and al: "\<forall>k. al k"
  shows "\<exists>v'. vec_insertVectorAt al v u i = Some (int i, v') \<and> vec_ok v' \<and>
    vec_list v' = insert_at i (vec_list u) (vec_list v)"
proof -
  obtain v' gap junk where g: "vec_grow al v i (mCount u) = Some (v', Some i)" "mCount v' = mCount v + mCount u"
    "length gap = mCount u" "slots v' = map Some (take i (vec_list v)) @ gap @ map Some (drop i (vec_list v)) @ junk"
    using grow_spec [OF ok(1) i n al] i by (auto simp: grown_def length_vec_list [OF ok(1)])
  obtain j where u: "slots u = map Some (vec_list u) @ j" "mCount u = length (vec_list u)"
    using ok(2) by (rule vec_reprE)
  have cp: "do_copy (slots v') i (slots u) 0 (mCount u) = Some (map Some (take i (vec_list v)) @
      map Some (vec_list u) @ map Some (drop i (vec_list v)) @ junk)"
    using do_copy_append [of "map Some (take i (vec_list v))" i gap "mCount u" "[]" 0 "map Some (vec_list u)"
        "map Some (drop i (vec_list v)) @ junk" j] g(3,4) i u
    by (simp add: length_vec_list [OF ok(1)])
  let ?v = "v'\<lparr>slots := map Some (take i (vec_list v)) @ map Some (vec_list u) @ map Some (drop i (vec_list v)) @ junk\<rparr>"
  have "vec_ok ?v \<and> vec_list ?v = insert_at i (vec_list u) (vec_list v)"
    using g(2) i u(2) by (intro vec_reprI) (simp_all add: insert_at_def length_vec_list [OF ok(1)])
  then show ?thesis using g(1) cp i by (auto simp: vec_insertVectorAt_def)
qed

text \<open>After \<^verbatim>\<open>_shrink\<close> the items after the removed ones follow those before them.\<close>

definition shrunk :: "'a list \<Rightarrow> 'a vectorImpl option \<Rightarrow> bool" where
  "shrunk xs res \<longleftrightarrow> (\<exists>v' junk. res = Some v' \<and> slots v' = map Some xs @ junk \<and> mCount v' = length xs)"

lemma shrunk_in_place:
  assumes s: "slots v = map Some (xs @ zs @ ys) @ junk" and m: "mCount v = length (xs @ zs @ ys)"
    and "\<not> length (xs @ ys) * 3 < vec_capacity v"
  shows "shrunk (xs @ ys) (vec_shrink al v (length xs) (length zs))"
proof (cases "slots v = []")
  case True
  then show ?thesis using s m by (simp add: vec_shrink_def shrunk_def)
next
  case False
  obtain B C where bc: "map Some zs @ map Some ys @ junk = B @ C" "length B = length ys"
    using split_list_at [of "length ys" "map Some zs @ map Some ys @ junk"] by auto
  have cp: "do_copy (slots v) (length xs) (slots v) (length xs + length zs) (length ys)
      = Some (map Some xs @ map Some ys @ C)"
    using do_copy_append [of "map Some xs" "length xs" B "length ys" "map Some xs @ map Some zs"
        "length xs + length zs" "map Some ys" C junk] s bc by simp
  have sl: "ys = [] \<Longrightarrow> slots v = map Some xs @ C" using s bc by simp
  show ?thesis using False assms cp sl
    by (cases "ys = []") (auto simp: vec_shrink_def Let_def shrunk_def)
qed

lemma shrunk_moved:
  assumes s: "slots v = map Some (xs @ zs @ ys) @ junk" and m: "mCount v = length (xs @ zs @ ys)"
    and cap: "length (xs @ ys) * 3 < vec_capacity v" and al: "\<forall>k. al k"
  shows "shrunk (xs @ ys) (vec_shrink al v (length xs) (length zs))"
proof -
  define nc where "nc = max 4 ((length xs + length ys) * 2)"
  define R where "R = replicate (nc - (length xs + length ys)) (None :: 'a option)"
  have nc: "length xs + length ys \<le> nc" by (auto simp: nc_def)
  have ne: "slots v \<noteq> []" using cap by (auto simp: vec_capacity_def)
  have new: "mCount v - length zs = length xs + length ys" using m by simp
  have w: "(if length xs \<ge> mCount v then mCount v - length zs else length xs) = length xs"
    using m by auto
  show ?thesis
  proof (cases "ys = [] \<and> mTrivial v")
    case True
    obtain J where J: "resize nc (map Some xs @ map Some zs @ junk) = map Some xs @ J"
      using resize_append [of "map Some xs" nc] nc by fastforce
    have "vec_shrink al v (length xs) (length zs) = Some (v\<lparr>slots := resize nc (slots v), mCount := length xs\<rparr>)"
      unfolding vec_shrink_def w Let_def new nc_def [symmetric] using True ne cap al by simp
    then show ?thesis using J s True by (auto simp: shrunk_def)
  next
    case False
    have r: "replicate nc None = replicate (length xs) None @ replicate (length ys) None @ R"
      using nc by (simp add: R_def flip: replicate_add)
    have c1: "do_copy (replicate nc None) 0 (slots v) 0 (length xs)
        = Some (map Some xs @ replicate (length ys) None @ R)"
      unfolding r s using do_copy_append [of "[]" 0 "replicate (length xs) None" "length xs" "[]" 0 "map Some xs"]
      by simp
    have c2: "do_copy (map Some xs @ replicate (length ys) None @ R) (length xs) (slots v)
        (length xs + length zs) (length ys) = Some (map Some xs @ map Some ys @ R)"
      unfolding s using do_copy_append [of "map Some xs" "length xs" "replicate (length ys) None" "length ys"
          "map Some xs @ map Some zs" "length xs + length zs" "map Some ys" R junk] by simp
    have rest: "mCount v - (length xs + length zs) = length ys" using m by simp
    have "vec_shrink al v (length xs) (length zs) = do {
        a \<leftarrow> do_copy (replicate nc None) 0 (slots v) 0 (length xs);
        b \<leftarrow> do_copy a (length xs) (slots v) (length xs + length zs) (length ys);
        Some (v\<lparr>slots := b, mCount := length xs + length ys\<rparr>) }"
      unfolding vec_shrink_def w Let_def new nc_def [symmetric] rest
      using False ne cap al c1 c2 s m by (auto simp: do_copy_none)
    then show ?thesis by (simp add: c1 c2 shrunk_def)
  qed
qed

lemma shrink_spec:
  assumes ok: "vec_ok v" and i: "i + n \<le> mCount v" and al: "\<forall>k. al k"
  shows "\<exists>v'. vec_shrink al v i n = Some v' \<and> vec_ok v' \<and> vec_list v' = remove_at i n (vec_list v)"
proof -
  obtain junk where s: "slots v = map Some (vec_list v) @ junk" and m: "mCount v = length (vec_list v)"
    using ok by (rule vec_reprE)
  obtain xs zs ys where x: "vec_list v = xs @ zs @ ys" "length xs = i" "length zs = n"
    using i m by (metis split_list_at2)
  have s': "slots v = map Some (xs @ zs @ ys) @ junk" and m': "mCount v = length (xs @ zs @ ys)"
    using s m x by simp_all
  have "shrunk (xs @ ys) (vec_shrink al v (length xs) (length zs))"
    using shrunk_in_place [OF s' m'] shrunk_moved [OF s' m' _ al] by blast
  then obtain v' junk' where v': "vec_shrink al v i n = Some v'" "slots v' = map Some (xs @ ys) @ junk'"
    "mCount v' = length (xs @ ys)" using x by (auto simp: shrunk_def)
  moreover have "remove_at i n (vec_list v) = xs @ ys" using x by (simp add: remove_at_def)
  ultimately show ?thesis using vec_reprI [OF v'(2,3)] by simp
qed

lemma removeItemsAt_spec:
  assumes "vec_ok v" "i + n \<le> mCount v" "\<forall>k. al k"
  shows "\<exists>v'. vec_removeItemsAt al v i n = Some (int i, v') \<and> vec_ok v' \<and>
    vec_list v' = remove_at i n (vec_list v)"
  using shrink_spec [OF assms] assms(2) by (auto simp: vec_removeItemsAt_def)

lemma replaceAt_spec:
  assumes ok: "vec_ok v" and i: "i < mCount v"
  shows "\<exists>v'. vec_replaceAt v x i = Some (int i, v') \<and> vec_ok v' \<and> vec_list v' = (vec_list v)[i := x]"
proof -
  obtain junk where s: "slots v = map Some (vec_list v) @ junk" and m: "mCount v = length (vec_list v)"
    using ok by (rule vec_reprE)
  let ?v = "v\<lparr>slots := (slots v)[i := Some x]\<rparr>"
  have "vec_ok ?v \<and> vec_list ?v = (vec_list v)[i := x]"
    using s m i by (intro vec_reprI [of _ _ junk]) (simp_all add: list_update_append map_update)
  then show ?thesis using s m i by (auto simp: vec_replaceAt_def)
qed


subsection \<open>Keyed vectors are finite maps\<close>

definition kv_ok :: "('k :: linorder \<times> 'v) vectorImpl \<Rightarrow> bool" where
  "kv_ok v \<longleftrightarrow> vec_ok v \<and> sorted_wrt (<) (map fst (vec_list v))"

definition kv_map :: "('k :: linorder \<times> 'v) vectorImpl \<Rightarrow> 'k \<Rightarrow> 'v option" where
  "kv_map v = map_of (vec_list v)"

lemma compare_type_simps:
  "compare_type a b = 0 \<longleftrightarrow> a = b" "compare_type a b < 0 \<longleftrightarrow> a < b" "0 < compare_type a b \<longleftrightarrow> b < a"
  by (auto simp: compare_type_def)

lemma kv_compare_key: "(\<lambda>cur. kv_compare cur (k, x)) = key_compare k"
  by (auto simp: kv_compare_def key_compare_def)

lemma ordered_key_compare:
  assumes "kv_ok v"
  shows "ordered_cmp (\<lambda>i. key_compare key (the (slots v ! i))) (mCount v)"
proof -
  have less: "fst (the (slots v ! i)) < fst (the (slots v ! j))" if "i < j" "j < mCount v" for i j
  proof -
    have "fst (vec_list v ! i) < fst (vec_list v ! j)"
      using assms that by (simp add: kv_ok_def sorted_wrt_iff_nth_less length_vec_list)
    then show ?thesis using assms that nth_vec_list [of v i] nth_vec_list [of v j]
      by (simp add: kv_ok_def)
  qed
  show ?thesis
    unfolding ordered_cmp_def key_compare_def compare_type_def
    by (intro conjI allI impI; elim conjE; frule (1) less) (auto split: if_splits)
qed

lemma kv_search_cases:
  assumes ok: "kv_ok v"
  obtains (found) i where "i < length (vec_list v)" "fst (vec_list v ! i) = key"
      "sv_indexOrderOf (key_compare key) v = (int i, int i)"
  | (absent) xs ys where "vec_list v = xs @ ys" "\<forall>x \<in> set xs. fst x < key" "\<forall>y \<in> set ys. key < fst y"
      "sv_indexOrderOf (key_compare key) v = (NAME_NOT_FOUND, int (length xs))"
proof -
  have vok: "vec_ok v" using ok by (simp add: kv_ok_def)
  note cmp = key_compare_def compare_type_simps
  show thesis
  proof (cases rule: bsearch_cases [OF ordered_key_compare [OF ok, of key]])
    case (1 i)
    then show thesis using found [of i] nth_vec_list [OF vok, of i] length_vec_list [OF vok]
      by (simp add: sv_indexOrderOf_def cmp)
  next
    case (2 i)
    show thesis
    proof (rule absent [of "take i (vec_list v)" "drop i (vec_list v)"])
      show "\<forall>x \<in> set (take i (vec_list v)). fst x < key"
        using 2(1,2) nth_vec_list [OF vok] length_vec_list [OF vok]
        by (fastforce simp: in_set_conv_nth cmp)
      show "\<forall>y \<in> set (drop i (vec_list v)). key < fst y"
      proof
        fix y assume "y \<in> set (drop i (vec_list v))"
        then obtain j where j: "j < mCount v - i" "y = vec_list v ! (i + j)"
          using 2(1) length_vec_list [OF vok] by (auto simp: in_set_conv_nth)
        then show "key < fst y"
          using 2(1,3) nth_vec_list [OF vok, of "i + j"] by (simp add: cmp)
      qed
    qed (use 2 length_vec_list [OF vok] in \<open>simp_all add: sv_indexOrderOf_def\<close>)
  qed
qed

lemma map_of_absent: "\<forall>x \<in> set xs. fst x \<noteq> k \<Longrightarrow> map_of xs k = None"
  by (induction xs) auto

lemma map_of_below: "\<forall>x \<in> set xs. fst x < k \<Longrightarrow> map_of xs k = None"
  and map_of_above: "\<forall>x \<in> set xs. k < fst x \<Longrightarrow> map_of xs k = None"
  for k :: "'k :: linorder"
  by (rule map_of_absent, force)+

lemma map_of_update_other:
  "i < length xs \<Longrightarrow> fst (xs ! i) = k \<Longrightarrow> q \<noteq> k \<Longrightarrow> map_of (xs[i := (k, x)]) q = map_of xs q"
  by (induction xs arbitrary: i) (auto split: nat.splits)

lemma kv_distinct: "kv_ok v \<Longrightarrow> distinct (map fst (vec_list v))"
  by (simp add: kv_ok_def strict_sorted_iff)

lemma kv_valueFor_eq:
  assumes ok: "kv_ok v" shows "kv_valueFor v key = kv_map v key"
  using ok
proof (cases rule: kv_search_cases [where key = key])
  case (found i)
  have vok: "vec_ok v" using ok by (simp add: kv_ok_def)
  have "slots v ! i = Some (vec_list v ! i)" "i < length (slots v)"
    using nth_vec_list [OF vok, of i] found(1) vok length_vec_list [OF vok] by (auto simp: vec_ok_def)
  moreover have "map_of (vec_list v) key = Some (snd (vec_list v ! i))"
    using map_of_is_SomeI [OF kv_distinct [OF ok], of key] found(1,2)
    by (metis nth_mem prod.collapse)
  ultimately show ?thesis using found(3)
    by (simp add: kv_valueFor_def kv_indexOfKey_def kv_valueAt_def item_at_def kv_map_def)
next
  case (absent xs ys)
  have "map_of (vec_list v) key = None" unfolding absent(1)
    by (rule map_of_absent) (use absent(2,3) in force)
  then show ?thesis using absent(4) by (simp add: kv_valueFor_def kv_indexOfKey_def kv_map_def)
qed

text \<open>Adding a key binds it and keeps every other binding; the result is the index of the item.\<close>

lemma kv_add_spec:
  assumes ok: "kv_ok v" and al: "\<forall>k. al k"
  shows "\<exists>i v'. kv_add al v key x = Some (i, v') \<and> 0 \<le> i \<and> kv_ok v' \<and> kv_map v' = (kv_map v)(key \<mapsto> x)"
  using ok
proof (cases rule: kv_search_cases [where key = key])
  case (found i)
  have vok: "vec_ok v" using ok by (simp add: kv_ok_def)
  obtain v' where v': "vec_replaceAt v (key, x) i = Some (int i, v')" "vec_ok v'"
    "vec_list v' = (vec_list v)[i := (key, x)]"
    using replaceAt_spec [OF vok, of i "(key, x)"] found(1) length_vec_list [OF vok] by auto
  have keys: "map fst (vec_list v') = map fst (vec_list v)"
    using found(1,2) v'(3) by (simp add: map_update list_update_same_conv)
  have "map_of (vec_list v') = (map_of (vec_list v))(key \<mapsto> x)"
  proof
    fix q
    have d: "distinct (map fst (vec_list v'))" using kv_distinct [OF ok] keys by simp
    show "map_of (vec_list v') q = ((map_of (vec_list v))(key \<mapsto> x)) q"
    proof (cases "q = key")
      case True
      then show ?thesis using map_of_is_SomeI [OF d, of key x] found(1) v'(3)
        by (simp add: set_update_memI)
    next
      case False
      then show ?thesis using v'(3) found(1,2) by (simp add: map_of_update_other)
    qed
  qed
  then show ?thesis using v'(1,2) keys ok found(3)
    by (simp add: kv_add_def sv_add_def kv_compare_key kv_ok_def kv_map_def)
next
  case (absent xs ys)
  have vok: "vec_ok v" using ok by (simp add: kv_ok_def)
  obtain v' where v': "vec_insertAt al v (key, x) (length xs) 1 = Some (int (length xs), v')" "vec_ok v'"
    "vec_list v' = xs @ (key, x) # ys"
    using insertAt_spec [OF vok, of "length xs" 1 al "(key, x)"] al absent(1) length_vec_list [OF vok]
    by (auto simp: insert_at_def)
  have "kv_ok v'" using v'(2,3) absent(1-3) ok by (auto simp: kv_ok_def sorted_wrt_append)
  moreover have "map_of (vec_list v') = (map_of (vec_list v))(key \<mapsto> x)"
    unfolding v'(3) absent(1)
    using map_of_below [OF absent(2)] by (auto simp: map_add_def fun_eq_iff split: option.splits)
  ultimately show ?thesis using v'(1) absent(4)
    by (simp add: kv_add_def sv_add_def kv_compare_key kv_map_def)
qed

lemma kv_removeItem_spec:
  assumes ok: "kv_ok v" and al: "\<forall>k. al k"
  shows "\<exists>i v'. kv_removeItem al v key = Some (i, v') \<and> (0 \<le> i \<longleftrightarrow> key \<in> dom (kv_map v)) \<and>
    kv_ok v' \<and> kv_map v' = (kv_map v)(key := None)"
  using ok
proof (cases rule: kv_search_cases [where key = key])
  case (found i)
  have vok: "vec_ok v" using ok by (simp add: kv_ok_def)
  obtain v' where v': "vec_removeItemsAt al v i 1 = Some (int i, v')" "vec_ok v'"
    "vec_list v' = remove_at i 1 (vec_list v)"
    using removeItemsAt_spec [OF vok, of i 1 al] al found(1) length_vec_list [OF vok] by auto
  define xs ys where "xs = take i (vec_list v)" and "ys = drop (Suc i) (vec_list v)"
  obtain y where l: "vec_list v = xs @ (key, y) # ys"
    using id_take_nth_drop [OF found(1)] found(2) by (metis prod.collapse xs_def ys_def)
  have l': "vec_list v' = xs @ ys" using v'(3) by (simp add: remove_at_def xs_def ys_def)
  have s: "\<forall>p \<in> set xs. fst p < key" "\<forall>p \<in> set ys. key < fst p" "sorted_wrt (<) (map fst (xs @ ys))"
    using ok l by (auto simp: kv_ok_def sorted_wrt_append)
  have "map_of (xs @ ys) = (map_of (vec_list v))(key := None)"
    unfolding l using map_of_below [OF s(1)] map_of_above [OF s(2)]
    by (auto simp: map_add_def fun_eq_iff split: option.splits)
  moreover have "key \<in> dom (kv_map v)" by (auto simp: kv_map_def l map_add_def split: option.splits)
  ultimately show ?thesis using v'(1,2) s(3) l' found(3)
    by (auto simp: kv_removeItem_def sv_remove_def Let_def kv_ok_def kv_map_def)
next
  case (absent xs ys)
  have "kv_map v key = None" unfolding kv_map_def absent(1)
    by (rule map_of_absent) (use absent(2,3) in force)
  then show ?thesis using absent(4) ok
    by (auto simp: kv_removeItem_def sv_remove_def Let_def fun_upd_idem)
qed


subsection \<open>What the object managers rely on\<close>

text \<open>With an allocator that does not fail, the operations of a \<^verbatim>\<open>KeyedVector\<close> are total.\<close>

definition kv_put :: "('k :: linorder \<times> 'v) vectorImpl \<Rightarrow> 'k \<Rightarrow> 'v \<Rightarrow> ('k \<times> 'v) vectorImpl" where
  "kv_put v key x = (case kv_add (\<lambda>_. True) v key x of Some (_, v') \<Rightarrow> v' | None \<Rightarrow> v)"

definition kv_del :: "('k :: linorder \<times> 'v) vectorImpl \<Rightarrow> 'k \<Rightarrow> ('k \<times> 'v) vectorImpl" where
  "kv_del v key = (case kv_removeItem (\<lambda>_. True) v key of Some (_, v') \<Rightarrow> v' | None \<Rightarrow> v)"

fun del_nonzero :: "('m \<Rightarrow> u32 \<Rightarrow> 'm) \<Rightarrow> u32 list \<Rightarrow> 'm \<Rightarrow> 'm" where
  "del_nonzero del [] m = m"
| "del_nonzero del (t # ts) m = del_nonzero del ts (if t \<noteq> 0 then del m t else m)"

locale keyed_store =
  fixes find :: "'m \<Rightarrow> 'k \<Rightarrow> 'v option"
    and put :: "'m \<Rightarrow> 'k \<Rightarrow> 'v \<Rightarrow> 'm"
    and del :: "'m \<Rightarrow> 'k \<Rightarrow> 'm"
    and ok :: "'m \<Rightarrow> bool"
  assumes put_law: "ok m \<Longrightarrow> ok (put m k v) \<and> find (put m k v) = (find m)(k \<mapsto> v)"
    and del_law: "ok m \<Longrightarrow> ok (del m k) \<and> find (del m k) = (find m)(k := None)"
begin

lemma put_del: "ok m \<Longrightarrow> find (put (del m k) k v) = (find m)(k \<mapsto> v)"
  using put_law [of "del m k"] del_law [of m k] by auto

lemma find_or_put:
  "ok m \<Longrightarrow> ok (if find m k = None then put m k v else m) \<and>
     find (if find m k = None then put m k v else m) =
       (case find m k of None \<Rightarrow> (find m)(k \<mapsto> v) | Some _ \<Rightarrow> find m)"
  using put_law by (auto split: option.splits)

end

locale named_store = keyed_store find put del ok
  for find :: "'m \<Rightarrow> u32 \<Rightarrow> 'v option" and put and del and ok
begin

lemma del_nonzero_spec:
  "ok m \<Longrightarrow> ok (del_nonzero del ts m) \<and>
     find (del_nonzero del ts m) = (\<lambda>k. if k \<in> set ts \<and> k \<noteq> 0 then None else find m k)"
proof (induction ts arbitrary: m)
  case Nil
  then show ?case by simp
next
  case (Cons t ts)
  show ?case
    using Cons.IH [of "del m t"] Cons.IH [of m] Cons.prems del_law [OF Cons.prems, of t]
    by (auto simp: fun_eq_iff)
qed

end

lemma kv_put_law: "kv_ok v \<Longrightarrow> kv_ok (kv_put v k x) \<and> kv_valueFor (kv_put v k x) = (kv_valueFor v)(k \<mapsto> x)"
  using kv_add_spec [of v "\<lambda>_. True" k x] by (auto simp: kv_put_def kv_valueFor_eq fun_eq_iff)

lemma kv_del_law: "kv_ok v \<Longrightarrow> kv_ok (kv_del v k) \<and> kv_valueFor (kv_del v k) = (kv_valueFor v)(k := None)"
  using kv_removeItem_spec [of v "\<lambda>_. True" k] by (auto simp: kv_del_def kv_valueFor_eq fun_eq_iff)

interpretation kv: keyed_store kv_valueFor kv_put kv_del kv_ok
  by unfold_locales (simp_all add: kv_put_law kv_del_law)

interpretation kvn: named_store "kv_valueFor :: (u32 \<times> 'v) vectorImpl \<Rightarrow> u32 \<Rightarrow> 'v option" kv_put kv_del kv_ok
  by unfold_locales

lemma kv_empty_ok [simp]: "kv_ok (vec_empty triv)"
  by (simp add: kv_ok_def)

lemma kv_valueFor_empty [simp]: "kv_valueFor (vec_empty triv) k = None"
  by (simp add: kv_valueFor_eq kv_map_def)

subsection \<open>Properties\<close>





text \<open>When an allocation fails, \<^verbatim>\<open>_grow\<close> still raises \<^verbatim>\<open>mCount\<close>: the first insertion into
  an empty vector reports \<^verbatim>\<open>NO_MEMORY\<close> and leaves a vector that claims one item and has no storage.\<close>

lemma failed_insert_breaks_vector:
  "\<exists>v'. vec_insertAt (\<lambda>_. False) (vec_empty True) x 0 1 = Some (NO_MEMORY, v') \<and> mCount v' = 1 \<and>
     slots v' = [] \<and> \<not> vec_ok v'"
  by (simp add: vec_insertAt_def vec_grow_def vec_empty_def vec_capacity_def vec_ok_def)

text \<open>Merging a sorted vector into an empty one compares with an item that does not exist.\<close>

lemma merge_sorted_into_empty: "0 < mCount u \<Longrightarrow> sv_merge_sorted al cmp (vec_empty triv) u = None"
  by (cases "item_at u (mCount u - 1)") (simp_all add: sv_merge_sorted_def item_at_def vec_empty_def)

end
