(* ===== verification/Fixed.thy ===== *)
theory Fixed
  imports RR_Prelude "HOL-Library.Monad_Syntax" "HOL-Library.Signed_Division"
begin

text \<open>
  Fixed-point arithmetic: the inline helpers of \<^verbatim>\<open>include/ggl_fixed.h\<close> (the portable branch,
  not the ARM assembler) and the routines of \<^verbatim>\<open>libpixelflinger/fixed.cpp\<close>. A \<^verbatim>\<open>GGLfixed\<close>
  is an \<^typ>\<open>int\<close> in the range of 32 bits. A routine whose shift count can leave the range the
  language defines, or whose loop counter can run past its end, returns an option: \<^term>\<open>None\<close> is
  that case. 64-bit products of 32-bit operands do not overflow and are exact.
\<close>

abbreviation (input) FIXED_ONE :: int where "FIXED_ONE \<equiv> 65536"
abbreviation (input) FIXED_HALF :: int where "FIXED_HALF \<equiv> 32768"
abbreviation (input) FIXED_MIN :: int where "FIXED_MIN \<equiv> - 2147483648"
abbreviation (input) FIXED_MAX :: int where "FIXED_MAX \<equiv> 2147483647"

subsection \<open>Conversions\<close>

definition gglIntToFixed :: "int \<Rightarrow> int" where
  "gglIntToFixed i = s32 (i * 2 ^ 16)"

definition gglFixedToIntRound :: "int \<Rightarrow> int" where
  "gglFixedToIntRound f = s32 (f + FIXED_HALF) div 2 ^ 16"

definition gglFixedToIntFloor :: "int \<Rightarrow> int" where
  "gglFixedToIntFloor f = f div 2 ^ 16"

definition gglFixedToIntCeil :: "int \<Rightarrow> int" where
  "gglFixedToIntCeil f = s32 (f + (2 ^ 16 - 1)) div 2 ^ 16"

definition gglFracx :: "int \<Rightarrow> int" where
  "gglFracx v = v AND (2 ^ 16 - 1)"

definition gglFloorx :: "int \<Rightarrow> int" where
  "gglFloorx v = s32 (gglFixedToIntFloor v * 2 ^ 16)"

definition gglCeilx :: "int \<Rightarrow> int" where
  "gglCeilx v = s32 (gglFixedToIntCeil v * 2 ^ 16)"

definition gglCenterx :: "int \<Rightarrow> int" where
  "gglCenterx v = gglFloorx (s32 (v + FIXED_HALF)) OR FIXED_HALF"

definition gglRoundx :: "int \<Rightarrow> int" where
  "gglRoundx v = s32 (gglFixedToIntRound v * 2 ^ 16)"

definition gglClampx :: "int \<Rightarrow> int" where
  "gglClampx c = (let c = c AND NOT (c div 2 ^ 31) in if c > FIXED_ONE then FIXED_ONE else c)"

definition gglFixedToIteratedColor :: "int \<Rightarrow> int" where
  "gglFixedToIteratedColor c = s32 (c * 2 ^ 8 - c)"

subsection \<open>Products\<close>

definition gglMulx :: "int \<Rightarrow> int \<Rightarrow> nat \<Rightarrow> int" where
  "gglMulx a b shift = s32 ((a * b + 2 ^ (shift - 1)) div 2 ^ shift)"

definition gglMulAddx :: "int \<Rightarrow> int \<Rightarrow> int \<Rightarrow> nat \<Rightarrow> int" where
  "gglMulAddx a b c shift = s32 (s32 (a * b div 2 ^ shift) + c)"

definition gglMulSubx :: "int \<Rightarrow> int \<Rightarrow> int \<Rightarrow> nat \<Rightarrow> int" where
  "gglMulSubx a b c shift = s32 (s32 (a * b div 2 ^ shift) - c)"

definition gglMulii :: "int \<Rightarrow> int \<Rightarrow> int" where
  "gglMulii a b = a * b"

subsection \<open>Leading zeros\<close>

definition clz_step :: "int \<Rightarrow> nat \<Rightarrow> int \<times> int \<Rightarrow> int \<times> int" where
  "clz_step m k = (\<lambda>(e, x). if x AND m \<noteq> 0 then (e - int k, x div 2 ^ k) else (e, x))"

definition gglClz :: "int \<Rightarrow> int" where
  "gglClz x =
     (if x = 0 then 32
      else
        let (e, x) = clz_step 0xFFFF0000 16 (31, x);
            (e, x) = clz_step 0x0000ff00 8 (e, x);
            (e, x) = clz_step 0x000000f0 4 (e, x);
            (e, x) = clz_step 0x0000000c 2 (e, x)
        in if x AND 0x00000002 \<noteq> 0 then e - 1 else e)"

subsection \<open>Reciprocals and roots\<close>

definition recip_newton :: "int \<Rightarrow> int \<Rightarrow> int" where
  "recip_newton a r = (((2 ^ 31 - a * r div 2 ^ 32) * r) mod 2 ^ 64 div 2 ^ 30) mod 2 ^ 32"

definition gglRecipQNormalized :: "int \<Rightarrow> int \<times> int" where
  "gglRecipQNormalized x =
     (let s = x div 2 ^ 31; a = (if s \<noteq> 0 then - x else x) mod 2 ^ 32 in
      if a \<le> 2 then (if s \<noteq> 0 then FIXED_MIN else FIXED_MAX, 0)
      else
        let lz = gglClz (s32 a);
            a = (a * 2 ^ nat lz) mod 2 ^ 32;
            r = (if a \<noteq> 0x80000000 then
                   let r = (0x2E800 * 2 ^ 14 - a div 2) mod 2 ^ 32
                   in recip_newton a (recip_newton a r)
                 else a);
            r = r div 2
        in (s32 (if s \<noteq> 0 then - r else r), 30 - lz - 1))"

definition gglRecipQ :: "int \<Rightarrow> int \<Rightarrow> int option" where
  "gglRecipQ x q =
     (let (x, shift) = gglRecipQNormalized x; shift = shift + (16 - q) in
      if 1 \<le> shift \<and> shift \<le> 31
      then Some (s32 (x + 2 ^ nat (shift - 1)) div 2 ^ nat shift) else None)"

definition gglRecip :: "int \<Rightarrow> int option" where "gglRecip x = gglRecipQ x 16"
definition gglRecip28 :: "int \<Rightarrow> int option" where "gglRecip28 x = gglRecipQ x 28"

definition gglFastDivx :: "int \<Rightarrow> int \<Rightarrow> int option" where
  "gglFastDivx n d =
     (let big = d div 2 ^ 24 \<noteq> 0 \<and> d div 2 ^ 24 + 1 \<noteq> 0;
          n = (if big then n div 2 ^ 8 else n); d = (if big then d div 2 ^ 8 else d)
      in do { r \<leftarrow> gglRecip d; Some (gglMulx n r 16) })"

definition gglRecipFast :: "int \<Rightarrow> int option" where
  "gglRecipFast x =
     (let lz = gglClz x in
      if 1 \<le> lz \<and> lz \<le> 30
      then Some (s32 (((0xC0000000 - x * 2 ^ nat (lz - 1)) mod 2 ^ 32) div 2 ^ nat (30 - lz))) else None)"

definition ggl_sqrt_reciproc_approx_tab :: "int list" where
  "ggl_sqrt_reciproc_approx_tab =
     [0x16A09, 0x15555, 0x143D1, 0x134BF, 0x1279A, 0x11C01, 0x111AC, 0x10865]"

definition sqrt_recip_newton :: "int \<Rightarrow> int \<Rightarrow> int" where
  "sqrt_recip_newton a x =
     gglMulx (x div 2) (s32 (0x30000 - gglMulx (gglMulx a x 16) x 16)) 16"

definition gglSqrtRecipx :: "int \<Rightarrow> int option" where
  "gglSqrtRecipx x =
     (if x = 0 then Some FIXED_MAX
      else if x = FIXED_ONE then Some x
      else
        let a = x; lz = gglClz x in
        if lz > 28 then None
        else
          let x = ggl_sqrt_reciproc_approx_tab ! nat ((a div 2 ^ nat (28 - lz)) AND 7);
              e = lz - 16;
              x = (if e \<le> 0 then x div 2 ^ nat (- e div 2)
                   else s32 (x * 2 ^ nat (e div 2 + (e AND 1))));
              x = (if e AND 1 \<noteq> 0 then gglMulx x (ggl_sqrt_reciproc_approx_tab ! 0) 16 div 2 else x)
          in Some (sqrt_recip_newton a (sqrt_recip_newton a x)))"

text \<open>The loop of \<^verbatim>\<open>gglSqrtx\<close>: \<open>k\<close> counts the rounds left, so \<^verbatim>\<open>bit\<close> is \<open>2 ^ k\<close> and
  \<^verbatim>\<open>bshift\<close> is \<open>k - 8\<close> at its start.\<close>

definition sqrt_temp :: "int \<Rightarrow> int \<Rightarrow> int \<Rightarrow> int" where
  "sqrt_temp b r bshift =
     (let temp = s32 (b + s32 (r * 2)) in
      if bshift \<ge> 8 then s32 (temp * 2 ^ nat (bshift - 8)) else temp div 2 ^ nat (8 - bshift))"

function sqrtx_loop :: "int \<Rightarrow> int \<Rightarrow> int \<Rightarrow> int \<Rightarrow> int" where
  "sqrtx_loop b r a bshift =
     (let temp = sqrt_temp b r bshift;
          (r, a) = (if a \<ge> temp then (s32 (r + b), s32 (a - temp)) else (r, a))
      in if b div 2 > 0 then sqrtx_loop (b div 2) r a (bshift - 1) else r)"
  by pat_completeness auto
termination
  by (relation "measure (\<lambda>(b, r, a, s). nat b)") auto

definition gglSqrtx :: "int \<Rightarrow> int" where
  "gglSqrtx a = sqrtx_loop 0x800000 0 a 15"

subsection \<open>Powers\<close>

definition ggl_log_approx_tab :: "int list" where
  "ggl_log_approx_tab = [0xFFFF, 0xd47f, 0xad96, 0x8a62, 0x6a3f, 0x4caf, 0x3151, 0x17d6, 0x0000]"

definition ggl_alog_approx_tab :: "int list" where
  "ggl_alog_approx_tab = [0xffff, 0xeac0, 0xd744, 0xc567, 0xb504, 0xa5fe, 0x9837, 0x8b95, 0x8000]"

definition gglPowx :: "int \<Rightarrow> int \<Rightarrow> int option" where
  "gglPowx x y =
     (let e = gglClz x - 16 in
      if e < 0 \<or> e > 31 then None
      else
        let f = s32 (x * 2 ^ nat e);
            x = (f AND 0x0FFF) * 2 ^ 4;
            f = nat ((f div 2 ^ 12) AND 7);
            p = gglMulAddx (ggl_log_approx_tab ! (f + 1) - ggl_log_approx_tab ! f) x
                  (ggl_log_approx_tab ! f) 16;
            p = gglMulAddx p y (s32 (y * e)) 16;
            e = gglFixedToIntFloor p
        in if e < 31 then
             if e < 0 then None
             else
               let p = gglFracx p;
                   x = (p AND 0x1FFF) * 2 ^ 3;
                   k = nat (p div 2 ^ 13);
                   p = gglMulAddx (ggl_alog_approx_tab ! (k + 1) - ggl_alog_approx_tab ! k) x
                         (ggl_alog_approx_tab ! k) 16
               in Some (p div 2 ^ nat e)
           else Some 0)"

subsection \<open>Division\<close>

text \<open>One quotient bit: \<open>n\<close> holds the trial difference, \<open>b\<close> is the bit to set in the quotient.\<close>

definition div_emit :: "int \<Rightarrow> int \<Rightarrow> int \<times> int \<Rightarrow> int \<times> int" where
  "div_emit d b = (\<lambda>(n, q). if n \<ge> 0 then (n, q OR b) else (s32 (n + d), q))"

definition div_next :: "int \<Rightarrow> int \<times> int \<Rightarrow> int \<times> int" where
  "div_next d = (\<lambda>(n, q). (s32 (n * 2 - d), q))"

definition div_byte :: "int \<Rightarrow> int \<times> int \<Rightarrow> int \<times> int" where
  "div_byte d = (\<lambda>(n, q).
     let st = (n, q * 2 ^ 8 mod 2 ^ 32);
         st = div_emit d 128 st;
         st = div_emit d 64 (div_next d st);
         st = div_emit d 32 (div_next d st);
         st = div_emit d 16 (div_next d st);
         st = div_emit d 8 (div_next d st);
         st = div_emit d 4 (div_next d st);
         st = div_emit d 2 (div_next d st)
     in div_emit d 1 (div_next d st))"

fun div_bytes :: "int \<Rightarrow> nat \<Rightarrow> int \<times> int \<Rightarrow> int \<times> int" where
  "div_bytes d 0 st = st"
| "div_bytes d (Suc i) st =
     (let st = div_byte d st in if i = 0 then st else div_bytes d i (div_next d st))"

fun div_bits :: "int \<Rightarrow> nat \<Rightarrow> int \<times> int \<Rightarrow> int \<times> int" where
  "div_bits d 0 st = st"
| "div_bits d (Suc j) (n, q) =
     div_bits d j (div_emit d 1 (div_next d (n, q * 2 mod 2 ^ 32)))"

definition gglDivQ :: "int \<Rightarrow> int \<Rightarrow> int \<Rightarrow> int option" where
  "gglDivQ n d i =
     (let ds = n XOR d;
          n = (if n < 0 then s32 (- n) else n);
          d = (if d < 0 then s32 (- d) else d);
          nd = gglClz d - gglClz n;
          i = i + nd + 1;
          (n, d) = (if nd > 0 then (n, s32 (d * 2 ^ nat nd)) else (s32 (n * 2 ^ nat (- nd)), d));
          j = i AND 7;
          i = i div 8;
          result = (\<lambda>q. s32 (if ds < 0 then - q else q))
      in if i > 0 then
           Some (result (snd (div_bits d (nat j) (div_bytes d (nat i) (s32 (n - d), 0)))))
         else if i < 0 then None
         else if j = 0 then None
         else Some (result (snd (div_bits d (nat (j - 1)) (div_emit d 1 (s32 (n - d), 0))))))"

definition gglDivx :: "int \<Rightarrow> int \<Rightarrow> int option" where
  "gglDivx n d = gglDivQ n d 16"

definition gglDivQ16 :: "int \<Rightarrow> int \<Rightarrow> int option" where
  "gglDivQ16 n d = gglDivQ n d 16"

subsection \<open>Multiplication and division\<close>

definition slow_muldiv_step :: "int \<Rightarrow> int \<times> int \<times> int \<Rightarrow> int \<times> int \<times> int" where
  "slow_muldiv_step c = (\<lambda>(r, lo, result).
     let r = (r * 2 mod 2 ^ 32) OR (lo div 2 ^ 31);
         lo = lo * 2 mod 2 ^ 32;
         result = result * 2 mod 2 ^ 32
     in if r \<ge> c then (r - c, lo, result OR 1) else (r, lo, result))"

definition slow_muldiv :: "int \<Rightarrow> int \<Rightarrow> int \<Rightarrow> int" where
  "slow_muldiv a b c =
     (let ab = a * b; hi = ab div 2 ^ 32; lo = ab mod 2 ^ 32 in
      s32 (if hi \<ge> c then 0x7fffffff
           else if hi = 0 then
             (let result = lo div c in if result div 2 ^ 31 \<noteq> 0 then 0x7fffffff else result)
           else snd (snd ((slow_muldiv_step c ^^ 32) (hi, lo, 0)))))"

definition quick_muldiv_sub :: "int \<Rightarrow> int \<times> int \<Rightarrow> int \<times> int" where
  "quick_muldiv_sub c = (\<lambda>(r, q). if r \<ge> c then (s32 (r - c), s32 (q + 1)) else (r, q))"

definition quick_muldiv_step :: "int \<Rightarrow> int \<Rightarrow> int \<times> int \<times> int \<Rightarrow> int \<times> int \<times> int" where
  "quick_muldiv_step b c = (\<lambda>(a, r, q).
     let r = s32 (r * 2);
         r = (if a < 0 then s32 (r + b) else r);
         a = s32 (a * 2);
         q = s32 (q * 2)
     in (a, quick_muldiv_sub c (quick_muldiv_sub c (r, q))))"

definition quick_muldiv :: "int \<Rightarrow> int \<Rightarrow> int \<Rightarrow> int option" where
  "quick_muldiv a b c =
     (let leading = gglClz a; i = 32 - leading in
      if i \<le> 0 then None
      else Some (snd (snd ((quick_muldiv_step b c ^^ nat i) (s32 (a * 2 ^ nat leading), 0, 0)))))"

definition gglMulDivi :: "int \<Rightarrow> int \<Rightarrow> int \<Rightarrow> int option" where
  "gglMulDivi a b c =
     (let sign = a XOR b XOR c;
          a = (if a < 0 then s32 (- a) else a);
          b = (if b < 0 then s32 (- b) else b);
          c = (if c < 0 then s32 (- c) else c);
          (a, b) = (if a < b then (b, a) else (a, b))
      in do {
        result \<leftarrow> (if b \<le> c then quick_muldiv a b c else Some (slow_muldiv a b c));
        Some (if sign < 0 then s32 (- result) else result)
      })"

subsection \<open>Leading zeros: the position of the top bit\<close>

lemma clz_steps:
  "clz_step 0xFFFF0000 16 (e, x) = (if x div 2 ^ 16 mod 2 ^ 16 \<noteq> 0 then (e - 16, x div 2 ^ 16) else (e, x))"
  "clz_step 0x0000ff00 8 (e, x) = (if x div 2 ^ 8 mod 2 ^ 8 \<noteq> 0 then (e - 8, x div 2 ^ 8) else (e, x))"
  "clz_step 0x000000f0 4 (e, x) = (if x div 2 ^ 4 mod 2 ^ 4 \<noteq> 0 then (e - 4, x div 2 ^ 4) else (e, x))"
  "clz_step 0x0000000c 2 (e, x) = (if x div 2 ^ 2 mod 2 ^ 2 \<noteq> 0 then (e - 2, x div 2 ^ 2) else (e, x))"
  "x AND 0x00000002 \<noteq> 0 \<longleftrightarrow> x div 2 ^ 1 mod 2 ^ 1 \<noteq> 0"
  using and_field_zero [of x 16 16] and_field_zero [of x 8 8] and_field_zero [of x 4 4]
    and_field_zero [of x 2 2] and_field_zero [of x 1 1]
  by (simp_all add: clz_step_def mask_eq_exp_minus_1)

text \<open>A positive \<open>x\<close> at step \<open>(e, x)\<close> has its top bit at \<open>31 - e\<close> of the original.\<close>

definition clz_inv :: "int \<Rightarrow> nat \<Rightarrow> int \<times> int \<Rightarrow> bool" where
  "clz_inv x0 w st \<longleftrightarrow> (\<exists>k. st = (31 - int k, x0 div 2 ^ k) \<and> 0 < x0 div 2 ^ k \<and> x0 div 2 ^ k < 2 ^ w \<and> k + w \<le> 32)"

lemma clz_inv_step:
  assumes "clz_inv x0 (w + w) (e, x)"
  shows "clz_inv x0 w (if x div 2 ^ w mod 2 ^ w \<noteq> 0 then (e - int w, x div 2 ^ w) else (e, x))"
proof -
  obtain k where k: "e = 31 - int k" "x = x0 div 2 ^ k" "0 < x" "x < 2 ^ (w + w)" "k + (w + w) \<le> 32"
    using assms by (auto simp: clz_inv_def)
  have l: "x div 2 ^ w < 2 ^ w" using k(4) by (simp add: int_div_less_iff power_add)
  have g: "0 \<le> x div 2 ^ w" using k(3) by (simp add: pos_imp_zdiv_nonneg_iff)
  have m: "x div 2 ^ w mod 2 ^ w = x div 2 ^ w" using l g by simp
  show ?thesis
  proof (cases "x div 2 ^ w = 0")
    case True
    then have "x < 2 ^ w" using int_div_less_iff [of "2 ^ w" x 1] by simp
    then show ?thesis using True k by (auto simp: clz_inv_def)
  next
    case False
    have "x0 div 2 ^ (k + w) = x div 2 ^ w" using k(2) by (simp add: power_add zdiv_zmult2_eq)
    then show ?thesis using False m k l g
      by (auto simp: clz_inv_def intro!: exI [of _ "k + w"])
  qed
qed

lemma gglClz_pos:
  assumes "0 < x" "x < 2 ^ 32"
  shows "\<exists>k. gglClz x = 31 - int k \<and> k \<le> 31 \<and> 2 ^ k \<le> x \<and> x < 2 ^ (k + 1)"
proof -
  define s1 where "s1 = clz_step 0xFFFF0000 16 (31, x)"
  define s2 where "s2 = clz_step 0x0000ff00 8 s1"
  define s3 where "s3 = clz_step 0x000000f0 4 s2"
  define s4 where "s4 = clz_step 0x0000000c 2 s3"
  have 0: "clz_inv x (16 + 16) (31, x)" using assms by (auto simp: clz_inv_def intro!: exI [of _ 0])
  have 1: "clz_inv x (8 + 8) s1" using clz_inv_step [OF 0] by (simp add: s1_def clz_steps split: if_splits)
  have 2: "clz_inv x (4 + 4) s2" using clz_inv_step [of x 8 "fst s1" "snd s1"] 1
    by (cases s1) (simp add: s2_def clz_steps split: if_splits)
  have 3: "clz_inv x (2 + 2) s3" using clz_inv_step [of x 4 "fst s2" "snd s2"] 2
    by (cases s2) (simp add: s3_def clz_steps split: if_splits)
  have 4: "clz_inv x (1 + 1) s4" using clz_inv_step [of x 2 "fst s3" "snd s3"] 3
    by (cases s3) (simp add: s4_def clz_steps numeral_2_eq_2 [symmetric] del: One_nat_def split: if_splits)
  obtain e y where s4: "s4 = (e, y)" by force
  have "clz_inv x 1 (if y div 2 mod 2 \<noteq> 0 then (e - 1, y div 2) else (e, y))"
    using clz_inv_step [of x 1 e y] 4 s4 by (simp split: if_splits)
  moreover have "gglClz x = fst (if y div 2 mod 2 \<noteq> 0 then (e - 1, y div 2) else (e, y))"
    using assms s4 unfolding s1_def s2_def s3_def s4_def gglClz_def
    by (auto simp: clz_steps(5) Let_def split: prod.splits)
  ultimately obtain k where k: "gglClz x = 31 - int k" "x div 2 ^ k = 1" "k \<le> 31"
    by (auto simp: clz_inv_def)
  have "x < 2 * 2 ^ k" using k(2) int_div_less_iff [of "2 ^ k" x 2] by simp
  moreover have "2 ^ k \<le> x" using k(2) int_div_less_iff [of "2 ^ k" x 1] by simp
  ultimately show ?thesis using k by (auto intro!: exI [of _ k])
qed
lemma neg_field:
  assumes "- (2 ^ (w + v)) \<le> x" "x < 0" "v < w"
  shows "x div 2 ^ w mod 2 ^ w \<noteq> 0" "- (2 ^ v) \<le> x div 2 ^ w" "x div 2 ^ w < (0 :: int)"
proof -
  show l: "- (2 ^ v) \<le> x div 2 ^ w"
    using assms(1) int_div_less_iff [of "2 ^ w" x "- (2 ^ v)"] by (simp add: power_add mult.commute)
  show n: "x div 2 ^ w < 0" using assms(2) by (simp add: int_div_less_iff)
  have "(2 :: int) ^ v < 2 ^ w" using assms(3) by simp
  then show "x div 2 ^ w mod 2 ^ w \<noteq> 0" using l n
    using dvd_imp_le_int [of "x div 2 ^ w" "2 ^ w"] by (simp only: mod_eq_0_iff_dvd) linarith
qed

lemma clz_neg_16: "- (2 ^ 31) \<le> x \<Longrightarrow> x < 0 \<Longrightarrow>
    \<exists>y. clz_step 0xFFFF0000 16 (e, x) = (e - 16, y) \<and> - (2 ^ 15) \<le> y \<and> y < 0"
  using neg_field [of 16 15 x] unfolding clz_steps by auto

lemma clz_neg_8: "- (2 ^ 15) \<le> x \<Longrightarrow> x < 0 \<Longrightarrow>
    \<exists>y. clz_step 0x0000ff00 8 (e, x) = (e - 8, y) \<and> - (2 ^ 7) \<le> y \<and> y < 0"
  using neg_field [of 8 7 x] unfolding clz_steps by auto

lemma clz_neg_4: "- (2 ^ 7) \<le> x \<Longrightarrow> x < 0 \<Longrightarrow>
    \<exists>y. clz_step 0x000000f0 4 (e, x) = (e - 4, y) \<and> - (2 ^ 3) \<le> y \<and> y < 0"
  using neg_field [of 4 3 x] unfolding clz_steps by auto

lemma clz_neg_2: "- (2 ^ 3) \<le> x \<Longrightarrow> x < 0 \<Longrightarrow>
    \<exists>y. clz_step 0x0000000c 2 (e, x) = (e - 2, y) \<and> - (2 ^ 1) \<le> y \<and> y < 0"
  using neg_field [of 2 1 x] unfolding clz_steps by auto

lemma clz_neg_1: "- (2 ^ 1) \<le> x \<Longrightarrow> x < 0 \<Longrightarrow> x AND 2 \<noteq> (0 :: int)"
  using neg_field [of 1 0 x] unfolding clz_steps by auto

lemma gglClz_neg:
  assumes "- (2 ^ 31) \<le> x" "x < 0"
  shows "gglClz x = 0"
proof -
  obtain a where a: "clz_step 0xFFFF0000 16 (31, x) = (31 - 16, a)" "- (2 ^ 15) \<le> a" "a < 0"
    using clz_neg_16 [OF assms] by blast
  obtain b where b: "clz_step 0x0000ff00 8 (31 - 16, a) = (31 - 16 - 8, b)" "- (2 ^ 7) \<le> b" "b < 0"
    using clz_neg_8 [OF a(2,3)] by blast
  obtain c where c: "clz_step 0x000000f0 4 (31 - 16 - 8, b) = (31 - 16 - 8 - 4, c)" "- (2 ^ 3) \<le> c" "c < 0"
    using clz_neg_4 [OF b(2,3)] by blast
  obtain d where d: "clz_step 0x0000000c 2 (31 - 16 - 8 - 4, c) = (31 - 16 - 8 - 4 - 2, d)" "- (2 ^ 1) \<le> d" "d < 0"
    using clz_neg_2 [OF c(2,3)] by blast
  show ?thesis using assms(2) clz_neg_1 [OF d(2,3)]
    by (simp only: gglClz_def a b c d Let_def prod.case) simp
qed

subsection \<open>Division: one quotient bit per step\<close>

definition quo :: "int \<Rightarrow> nat \<Rightarrow> int \<Rightarrow> int \<times> int \<Rightarrow> bool" where
  "quo d s y st \<longleftrightarrow> (\<exists>Q. snd st = Q * 2 ^ s mod 2 ^ 32 \<and> fst st = y - Q * d \<and> 0 \<le> fst st \<and> fst st < d)"

definition trial :: "int \<Rightarrow> nat \<Rightarrow> int \<Rightarrow> int \<times> int \<Rightarrow> bool" where
  "trial d s y st \<longleftrightarrow> (\<exists>Q. snd st = Q * 2 ^ s mod 2 ^ 32 \<and> fst st = y - (2 * Q + 1) * d \<and>
     - d \<le> fst st \<and> fst st < d)"

lemma or_low_bit:
  assumes "s \<le> 31"
  shows "(Q * 2 ^ Suc s mod 2 ^ 32) OR 2 ^ s = (2 * Q + 1) * 2 ^ s mod (2 ^ 32 :: int)"
proof -
  define t where "t = 31 - s"
  have t: "32 = t + Suc s" using assms by (simp add: t_def)
  let ?m = "Q mod 2 ^ t * 2 ^ Suc s :: int"
  have 1: "Q * 2 ^ Suc s mod 2 ^ 32 = ?m"
    unfolding t power_add by (rule mod_mult_mult2)
  have 2: "?m OR 2 ^ s = ?m + 2 ^ s"
    by (rule or_add [of _ "Suc s"]) simp_all
  have "0 \<le> Q mod 2 ^ t" "Q mod 2 ^ t + 1 \<le> 2 ^ t"
    using pos_mod_bound [of "2 ^ t" Q] by (simp_all add: add1_zle_eq)
  then have "(Q mod 2 ^ t + 1) * 2 ^ Suc s \<le> 2 ^ t * 2 ^ Suc s" by (intro mult_right_mono) auto
  moreover have "(2 :: int) ^ 32 = 2 ^ t * 2 ^ Suc s" unfolding t power_add ..
  moreover have "(Q mod 2 ^ t + 1) * 2 ^ Suc s = ?m + 2 ^ s + 2 ^ s" by (simp add: algebra_simps)
  moreover have "(0 :: int) < 2 ^ s" by simp
  ultimately have 3: "?m + 2 ^ s < 2 ^ 32" by linarith
  have "(2 * Q + 1) * 2 ^ s mod 2 ^ 32 = (Q * 2 ^ Suc s + 2 ^ s) mod (2 ^ 32 :: int)"
    by (simp add: algebra_simps)
  also have "\<dots> = (?m + 2 ^ s) mod 2 ^ 32" using 1 by (metis mod_add_left_eq mod_mod_trivial)
  also have "\<dots> = ?m + 2 ^ s" using 3 by (simp add: mod_pos_pos_trivial)
  finally show ?thesis using 1 2 by simp
qed

lemma div_emit_quo:
  assumes "trial d (Suc s) y st" "0 < d" "d < 2 ^ 31" "s \<le> 31"
  shows "quo d s y (div_emit d (2 ^ s) st)"
proof -
  obtain Q where Q: "snd st = Q * 2 ^ Suc s mod 2 ^ 32" "fst st = y - (2 * Q + 1) * d"
    "- d \<le> fst st" "fst st < d" using assms(1) by (auto simp: trial_def)
  show ?thesis
  proof (cases "fst st \<ge> 0")
    case True
    then show ?thesis using Q or_low_bit [OF assms(4), of Q]
      by (auto simp: quo_def div_emit_def split_beta intro!: exI [of _ "2 * Q + 1"])
  next
    case False
    then have "s32 (fst st + d) = fst st + d" using Q assms(2,3) by (intro s32_id') auto
    then show ?thesis using False Q
      by (auto simp: quo_def div_emit_def split_beta algebra_simps intro!: exI [of _ "2 * Q"])
  qed
qed

lemma div_next_trial:
  assumes "quo d s y st" "d < 2 ^ 31"
  shows "trial d s (2 * y) (div_next d st)"
proof -
  obtain Q where Q: "snd st = Q * 2 ^ s mod 2 ^ 32" "fst st = y - Q * d"
    "0 \<le> fst st" "fst st < d" using assms(1) by (auto simp: quo_def)
  have "s32 (fst st * 2 - d) = fst st * 2 - d" using Q assms(2) by (intro s32_id') auto
  then show ?thesis using Q
    by (auto simp: trial_def div_next_def split_beta algebra_simps intro!: exI [of _ Q])
qed

lemma shift_mod: "(Q * 2 ^ s mod M) * 2 ^ k mod M = Q * 2 ^ (s + k) mod (M :: int)"
  by (simp only: mod_mult_left_eq power_add mult.assoc)

lemma trial_shift: "trial d s y (n, q) \<Longrightarrow> trial d (s + k) y (n, q * 2 ^ k mod 2 ^ 32)"
  unfolding trial_def using shift_mod by (metis fst_conv snd_conv)

lemma quo_shift: "quo d s y (n, q) \<Longrightarrow> quo d (s + k) y (n, q * 2 ^ k mod 2 ^ 32)"
  unfolding quo_def using shift_mod by (metis fst_conv snd_conv)

lemma div_step_quo:
  "quo d (Suc s) y st \<Longrightarrow> 0 < d \<Longrightarrow> d < 2 ^ 31 \<Longrightarrow> s \<le> 31 \<Longrightarrow>
   quo d s (2 * y) (div_emit d (2 ^ s) (div_next d st))"
  by (intro div_emit_quo div_next_trial)

lemma div_byte_quo:
  assumes "trial d 0 y (n, q)" and d: "0 < d" "d < 2 ^ 31"
  shows "quo d 0 (2 ^ 7 * y) (div_byte d (n, q))"
proof -
  note step = div_step_quo [OF _ d]
  define s7 where "s7 = div_emit d (2 ^ 7) (n, q * 2 ^ 8 mod 2 ^ 32)"
  have "quo d 7 y s7"
    using div_emit_quo [of d 7] trial_shift [OF assms(1), of 8] d by (simp add: s7_def)
  then have "quo d 6 (2 * y) (div_emit d (2 ^ 6) (div_next d s7))" using step [of 6] by simp
  note 5 = step [of 5, simplified, OF this]
  note 4 = step [of 4, simplified, OF 5]
  note 3 = step [of 3, simplified, OF 4]
  note 2 = step [of 2, simplified, OF 3]
  have "quo d 1 (2 * y') (div_emit d 2 (div_next d st))" if "quo d 2 y' st" for y' st
    using step [of 1 y' st] that by (simp add: numeral_2_eq_2)
  note 1 = this [OF 2, unfolded One_nat_def]
  show ?thesis using step [of 0, OF 1] by (simp add: s7_def div_byte_def)
qed

lemma div_bytes_quo:
  "trial d 0 y st \<Longrightarrow> 0 < d \<Longrightarrow> d < 2 ^ 31 \<Longrightarrow> quo d 0 (2 ^ (8 * i + 7) * y) (div_bytes d (Suc i) st)"
proof (induction i arbitrary: y st)
  case 0
  then show ?case using div_byte_quo [of d y "fst st" "snd st"] by simp
next
  case (Suc i)
  have "trial d 0 (2 * (2 ^ 7 * y)) (div_next d (div_byte d st))"
    using Suc.prems div_byte_quo [of d y "fst st" "snd st"] by (intro div_next_trial) simp_all
  from Suc.IH [OF this Suc.prems(2,3)] show ?case
    by (simp add: power_add mult.assoc mult.left_commute Let_def del: div_bytes.simps(1))
qed

lemma div_bits_quo:
  "quo d 0 y st \<Longrightarrow> 0 < d \<Longrightarrow> d < 2 ^ 31 \<Longrightarrow> quo d 0 (2 ^ j * y) (div_bits d j st)"
proof (induction j arbitrary: y st)
  case (Suc j)
  obtain n q where st: "st = (n, q)" by force
  have "quo d 0 (2 * y) (div_emit d (2 ^ 0) (div_next d (n, q * 2 ^ 1 mod 2 ^ 32)))"
    using Suc.prems quo_shift [of d 0 y n q 1] by (intro div_step_quo) (simp_all add: st)
  from Suc.IH [OF this Suc.prems(2,3)] show ?case by (simp add: st mult.left_commute mult.assoc)
qed simp

lemma quo_div: "quo d 0 y st \<Longrightarrow> 0 < d \<Longrightarrow> snd st = y div d mod 2 ^ 32"
proof -
  assume "quo d 0 y st" "0 < d"
  then obtain Q where Q: "snd st = Q mod 2 ^ 32" "fst st = y - Q * d" "0 \<le> fst st" "fst st < d"
    by (auto simp: quo_def)
  have "y div d = (fst st + Q * d) div d" by (simp only: Q(2)) simp
  also have "\<dots> = Q" using Q(3,4) \<open>0 < d\<close> by (simp only: div_mult_self1 div_pos_pos_trivial)
  finally show ?thesis using Q(1) by simp
qed

lemma trial_init:
  "0 \<le> n \<Longrightarrow> n < 2 * d \<Longrightarrow> n < 2 ^ 31 \<Longrightarrow> d < 2 ^ 31 \<Longrightarrow> trial d s n (s32 (n - d), 0)"
  by (auto simp: trial_def s32_id' intro!: exI [of _ 0])

lemma div_core:
  assumes "0 \<le> n" "n < 2 * d" "n < 2 ^ 31" "d < 2 ^ 31"
  shows "div_bits d j (div_bytes d (Suc i) (s32 (n - d), 0)) = st \<Longrightarrow>
           snd st = 2 ^ (8 * i + 7 + j) * n div d mod 2 ^ 32"
    and "div_bits d j (div_emit d 1 (s32 (n - d), 0)) = st' \<Longrightarrow> snd st' = 2 ^ j * n div d mod 2 ^ 32"
proof -
  have d: "0 < d" using assms by simp
  have "quo d 0 (2 ^ j * (2 ^ (8 * i + 7) * n)) (div_bits d j (div_bytes d (Suc i) (s32 (n - d), 0)))"
    by (intro div_bits_quo div_bytes_quo trial_init d assms)
  from quo_div [OF this d] show "div_bits d j (div_bytes d (Suc i) (s32 (n - d), 0)) = st \<Longrightarrow>
           snd st = 2 ^ (8 * i + 7 + j) * n div d mod 2 ^ 32"
    by (auto simp: power_add ac_simps)
  have "quo d 0 n (div_emit d (2 ^ 0) (s32 (n - d), 0))"
    by (intro div_emit_quo trial_init d assms) simp
  then have "quo d 0 (2 ^ j * n) (div_bits d j (div_emit d 1 (s32 (n - d), 0)))"
    using div_bits_quo d assms by simp
  from quo_div [OF this d] show "div_bits d j (div_emit d 1 (s32 (n - d), 0)) = st' \<Longrightarrow>
     snd st' = 2 ^ j * n div d mod 2 ^ 32" by auto
qed

lemma clz_top:
  assumes "0 < x" "x < 2 ^ 31"
  obtains k where "gglClz x = 31 - int k" "k \<le> 30" "2 ^ k \<le> x" "x < 2 ^ Suc k"
proof -
  obtain k where k: "gglClz x = 31 - int k" "2 ^ k \<le> x" "x < 2 ^ (k + 1)"
    using gglClz_pos [of x] assms by auto
  have "(2 :: int) ^ k < 2 ^ 31" using k assms by linarith
  then have "k \<le> 30" using power_less_imp_less_exp [of "2 :: int" k 31] by linarith
  then show thesis using that k by simp
qed

lemma div_normalised:
  assumes n: "0 \<le> n" "n < 2 ^ 31" and d: "0 < d" "d < 2 ^ 31"
    and nd: "nd = gglClz d - gglClz n" "0 \<le> i + nd" "0 \<le> i"
    and ND: "(N, D) = (if nd > 0 then (n, s32 (d * 2 ^ nat nd)) else (s32 (n * 2 ^ nat (- nd)), d))"
  shows "0 \<le> N" "N < 2 * D" "N < 2 ^ 31" "D < 2 ^ 31" "2 ^ nat (i + nd) * N div D = n * 2 ^ nat i div d"
proof -
  obtain kd where kd: "gglClz d = 31 - int kd" "kd \<le> 30" "2 ^ kd \<le> d" "d < 2 ^ Suc kd"
    using clz_top [OF d] by blast
  have *: "0 \<le> N \<and> N < 2 * D \<and> N < 2 ^ 31 \<and> D < 2 ^ 31 \<and> 2 ^ nat (i + nd) * N div D = n * 2 ^ nat i div d"
  proof (cases "n = 0")
    case True
    then have "gglClz n = 32" by (simp add: gglClz_def)
    then have "\<not> nd > 0" using nd(1) kd by simp
    then show ?thesis using ND True d by (simp add: s32_def)
  next
    case False
    then obtain kn where kn: "gglClz n = 31 - int kn" "kn \<le> 30" "2 ^ kn \<le> n" "n < 2 ^ Suc kn"
      using clz_top [of n] n by auto
    have e: "nd = int kn - int kd" using nd kn kd by simp
    show ?thesis
    proof (cases "nd > 0")
      case True
      have p: "(2 :: int) ^ kn = 2 ^ kd * 2 ^ nat nd" using True e by (simp flip: power_add)
      have l: "2 ^ kd * 2 ^ nat nd \<le> d * 2 ^ nat nd" "d * 2 ^ nat nd < 2 ^ Suc kd * 2 ^ nat nd"
        using kd by simp_all
      have "(2 :: int) ^ Suc kn \<le> 2 ^ 31" using kn(2) by (intro power_increasing) auto
      moreover have "(2 :: int) ^ Suc kd * 2 ^ nat nd = 2 ^ Suc kn" using p by simp
      ultimately have b: "d * 2 ^ nat nd < 2 ^ 31" using l by linarith
      have "0 < d * 2 ^ nat nd" using d by simp
      then have D: "D = d * 2 ^ nat nd" "N = n" using ND True b by (simp_all add: s32_id')
      have "2 ^ nat (i + nd) * n = n * 2 ^ nat i * 2 ^ nat nd"
        using True nd(3) by (simp add: nat_add_distrib power_add)
      then have "2 ^ nat (i + nd) * N div D = n * 2 ^ nat i div d"
        unfolding D by (simp only: div_mult_mult2 power_not_zero numeral_neq_zero not_False_eq_True)
      moreover have "n < 2 * D" using D l(1) kn(4) unfolding p power_Suc by linarith
      ultimately show ?thesis using D n b d(1) by simp
    next
      case False
      have p: "(2 :: int) ^ kd = 2 ^ kn * 2 ^ nat (- nd)" using False e by (simp flip: power_add)
      have l: "n * 2 ^ nat (- nd) < 2 ^ Suc kn * 2 ^ nat (- nd)" using kn by simp
      have "(2 :: int) ^ Suc kd \<le> 2 ^ 31" using kd(2) by (intro power_increasing) auto
      moreover have "(2 :: int) ^ Suc kn * 2 ^ nat (- nd) = 2 ^ Suc kd" using p by simp
      ultimately have b: "n * 2 ^ nat (- nd) < 2 ^ 31" using l by linarith
      have "0 \<le> n * 2 ^ nat (- nd)" using n by simp
      then have D: "N = n * 2 ^ nat (- nd)" "D = d" using ND False b by (simp_all add: s32_id')
      have "nat i = nat (i + nd) + nat (- nd)" using False nd by simp
      then have "2 ^ nat (i + nd) * N div D = n * 2 ^ nat i div d" using D by (simp add: power_add ac_simps)
      moreover have "N < 2 * D" using D l kd(3) unfolding p power_Suc by linarith
      ultimately show ?thesis using D n d b \<open>0 \<le> n * 2 ^ nat (- nd)\<close> by blast
    qed
  qed
  then show "0 \<le> N" "N < 2 * D" "N < 2 ^ 31" "D < 2 ^ 31" "2 ^ nat (i + nd) * N div D = n * 2 ^ nat i div d"
    by blast+
qed

lemma s32_sign_mod: "s32 (if P then - (Q mod 2 ^ 32) else Q mod 2 ^ 32) = s32 (if P then - Q else Q)"
  unfolding s32_def by (simp add: mod_simps)

lemma xor_sign: "n XOR d < 0 \<longleftrightarrow> (n < 0) \<noteq> (d < (0 :: int))"
  by (simp add: xor_negative_int_iff)

lemma abs_s32: "\<bar>n\<bar> < 2 ^ 31 \<Longrightarrow> (if n < 0 then s32 (- n) else n) = \<bar>n\<bar>"
  by (simp add: s32_id')

text \<open>The value of \<^verbatim>\<open>gglDivQ\<close> on every operand but \<^verbatim>\<open>INT32_MIN\<close>.\<close>

lemma gglDivQ_value:
  assumes n: "\<bar>n\<bar> < 2 ^ 31" and d: "\<bar>d\<bar> < 2 ^ 31" "d \<noteq> 0" and i: "0 \<le> i"
  shows "gglDivQ n d i =
    (if gglClz \<bar>n\<bar> \<le> i + gglClz \<bar>d\<bar> then Some (s32 ((n * 2 ^ nat i) sdiv d)) else None)"
proof -
  define nd where "nd = gglClz \<bar>d\<bar> - gglClz \<bar>n\<bar>"
  define ND where "ND = (if nd > 0 then (\<bar>n\<bar>, s32 (\<bar>d\<bar> * 2 ^ nat nd)) else (s32 (\<bar>n\<bar> * 2 ^ nat (- nd)), \<bar>d\<bar>))"
  obtain N D where ND': "ND = (N, D)" by force
  define k where "k = i + nd + 1"
  define res where "res = (\<lambda>q. s32 (if n XOR d < 0 then - q else q))"
  have k: "k AND 7 = k mod 8" using and_field [of k 3 0] by (simp add: mask_eq_exp_minus_1)
  have val: "gglDivQ n d i =
    (if k div 8 > 0 then Some (res (snd (div_bits D (nat (k mod 8)) (div_bytes D (nat (k div 8)) (s32 (N - D), 0)))))
     else if k div 8 < 0 \<or> k mod 8 = 0 then None
     else Some (res (snd (div_bits D (nat (k mod 8 - 1)) (div_emit D 1 (s32 (N - D), 0))))))"
    unfolding gglDivQ_def Let_def abs_s32 [OF n] abs_s32 [OF d(1)] nd_def [symmetric]
      k_def [symmetric] ND_def [symmetric] k ND' prod.case res_def by simp
  have sd: "(n * 2 ^ nat i) sdiv d = (if (n < 0) \<noteq> (d < 0) then - (\<bar>n\<bar> * 2 ^ nat i div \<bar>d\<bar>) else \<bar>n\<bar> * 2 ^ nat i div \<bar>d\<bar>)"
    using d(2) by (auto simp: signed_divide_int_def sgn_if abs_mult mult_less_0_iff zero_less_mult_iff)
  show ?thesis
  proof (cases "k \<ge> 1")
    case True
    note N = div_normalised [of "\<bar>n\<bar>" "\<bar>d\<bar>" nd i N D]
    have N: "0 \<le> N" "N < 2 * D" "N < 2 ^ 31" "D < 2 ^ 31"
      "2 ^ nat (k - 1) * N div D = \<bar>n\<bar> * 2 ^ nat i div \<bar>d\<bar>"
      using div_normalised [of "\<bar>n\<bar>" "\<bar>d\<bar>" nd i N D] n d i True ND'
      by (simp_all add: nd_def [symmetric] ND_def k_def)
    have "gglDivQ n d i = Some (res ((\<bar>n\<bar> * 2 ^ nat i div \<bar>d\<bar>) mod 2 ^ 32))"
    proof (cases "k div 8 > 0")
      case True
      obtain m where m: "nat (k div 8) = Suc m" using True by (cases "nat (k div 8)") auto
      have "8 * m + 7 + nat (k mod 8) = nat (k - 1)" proof -
        have "k = 8 * (k div 8) + k mod 8" by simp
        moreover have "k div 8 = 1 + int m" using m by simp
        moreover have "0 \<le> k mod 8" by simp
        ultimately show ?thesis by linarith
      qed
      then show ?thesis using True
        unfolding val m div_core(1) [OF N(1-4) refl] N(5) [symmetric] by (simp only: if_True)
    next
      case False
      then have "k div 8 = 0" "k mod 8 \<noteq> 0" "nat (k mod 8 - 1) = nat (k - 1)"
        using \<open>k \<ge> 1\<close> by auto
      then show ?thesis using div_core(2) [OF N(1-4) refl, of "nat (k - 1)"] N(5)
        unfolding val by (simp only: if_False less_irrefl HOL.simp_thms)
    qed
    also have "\<dots> = Some (s32 ((n * 2 ^ nat i) sdiv d))"
      unfolding res_def s32_sign_mod sd xor_sign ..
    finally show ?thesis using True by (simp add: k_def nd_def)
  next
    case False
    then have "k div 8 < 0 \<or> (k div 8 = 0 \<and> k mod 8 = 0)" by auto
    then show ?thesis using val False by (auto simp: k_def nd_def)
  qed
qed

subsection \<open>Multiplication followed by division\<close>

lemma s32_signed_take_bit: "s32 x = signed_take_bit 31 x"
  by (simp add: s32_def signed_take_bit_eq_take_bit_shift take_bit_eq_mod)

lemma s32_neg_bit: "s32 x < 0 \<longleftrightarrow> x div 2 ^ 31 mod 2 = 1"
  by (simp add: s32_signed_take_bit signed_take_bit_negative_iff bit_iff_odd odd_iff_mod_2_eq_one)

lemma s32_double: "s32 (s32 x * 2) = s32 (x * 2)"
  using s32_cong_add [of x "s32 x"] s32_cong_add [of x x] by (simp add: add.commute mult.commute)

lemma div_pow_Suc: "a div 2 ^ k = 2 * (a div 2 ^ Suc k) + a div 2 ^ k mod (2 :: int)"
proof -
  have "a div 2 ^ Suc k = a div 2 ^ k div 2" unfolding power_Suc2 by (rule zdiv_zmult2_eq) simp
  then show ?thesis by simp
qed

lemma quick_muldiv_sub_inv:
  assumes "p = q * c + r" "0 \<le> q" "c \<le> 2 ^ 31" "- c \<le> r" "r < 2 ^ 31" "p < 2 ^ 31 * c" "0 < c"
  shows "\<exists>r' q'. quick_muldiv_sub c (r, q) = (r', q') \<and> p = q' * c + r' \<and> 0 \<le> q' \<and>
     r' = (if r \<ge> c then r - c else r)"
proof (cases "r \<ge> c")
  case True
  then have "(q + 1) * c < 2 ^ 31 * c" using assms(1,6) by (simp add: distrib_right)
  then have "q + 1 < 2 ^ 31" using assms(7) mult_less_cancel_right_pos [of c] by blast
  then have "s32 (r - c) = r - c" "s32 (q + 1) = q + 1"
    using True assms by (auto intro!: s32_id')
  then show ?thesis using True assms by (simp add: quick_muldiv_sub_def algebra_simps)
qed (use assms in \<open>simp add: quick_muldiv_sub_def\<close>)

lemma quick_muldiv_sub_twice:
  assumes "p = q * c + r" "0 \<le> q" "c \<le> 2 ^ 31" "0 \<le> r" "r < 3 * c" "r < 2 ^ 31" "p < 2 ^ 31 * c"
  shows "\<exists>r' q'. quick_muldiv_sub c (quick_muldiv_sub c (r, q)) = (r', q') \<and> p = q' * c + r' \<and>
     0 \<le> r' \<and> r' < c \<and> 0 \<le> q'"
proof -
  have c: "0 < c" using assms(4,5) by simp
  obtain r1 q1 where 1: "quick_muldiv_sub c (r, q) = (r1, q1)" "p = q1 * c + r1" "0 \<le> q1"
    "r1 = (if r \<ge> c then r - c else r)"
    using quick_muldiv_sub_inv [of p q c r] assms c by auto
  obtain r2 q2 where 2: "quick_muldiv_sub c (r1, q1) = (r2, q2)" "p = q2 * c + r2" "0 \<le> q2"
    "r2 = (if r1 \<ge> c then r1 - c else r1)"
    using quick_muldiv_sub_inv [of p q1 c r1] assms c 1 by (auto split: if_splits)
  show ?thesis using 1 2 assms by (auto split: if_splits)
qed

definition qm_inv :: "int \<Rightarrow> int \<Rightarrow> int \<Rightarrow> nat \<Rightarrow> int \<times> int \<times> int \<Rightarrow> bool" where
  "qm_inv a b c k st \<longleftrightarrow> (\<exists>r q. st = (s32 (a * 2 ^ (32 - k)), r, q) \<and>
     a div 2 ^ k * b = q * c + r \<and> 0 \<le> r \<and> r < c \<and> 0 \<le> q \<and> q \<le> a div 2 ^ k)"

lemma quick_muldiv_step_inv:
  assumes inv: "qm_inv a b c (Suc k) st" and k: "k < 32"
    and a: "0 \<le> a" "a < 2 ^ 31" and bc: "0 \<le> b" "b \<le> c" "0 < c" "3 * c \<le> 2 ^ 31"
  shows "qm_inv a b c k (quick_muldiv_step b c st)"
proof -
  obtain r q where st: "st = (s32 (a * 2 ^ (31 - k)), r, q)"
    and i: "a div 2 ^ Suc k * b = q * c + r" "0 \<le> r" "r < c" "0 \<le> q" "q \<le> a div 2 ^ Suc k"
    using inv by (auto simp: qm_inv_def)
  define t where "t = a div 2 ^ k mod 2"
  have t: "t = 0 \<or> t = 1" by (auto simp: t_def)
  have p: "a div 2 ^ k = 2 * (a div 2 ^ Suc k) + t" unfolding t_def by (rule div_pow_Suc)
  have sgn: "s32 (a * 2 ^ (31 - k)) < 0 \<longleftrightarrow> t = 1"
  proof -
    have "a * 2 ^ (31 - k) div 2 ^ 31 = a div 2 ^ k"
    proof -
      have "(2 :: int) ^ 31 = 2 ^ k * 2 ^ (31 - k)" using k by (simp flip: power_add)
      then show ?thesis by (simp only: div_mult_mult2 power_not_zero numeral_neq_zero not_False_eq_True)
    qed
    then show ?thesis by (simp only: s32_neg_bit t_def)
  qed
  have al: "a div 2 ^ Suc k \<le> a div 2" using a by (intro zdiv_mono2) simp_all
  have [simp]: "s32 (r * 2) = r * 2" "s32 (r * 2 + b) = r * 2 + b" "s32 (q * 2) = q * 2"
    using i bc a al by (auto intro!: s32_id')
  have nx: "s32 (s32 (a * 2 ^ (31 - k)) * 2) = s32 (a * 2 ^ (32 - k))"
  proof -
    have "32 - k = Suc (31 - k)" using k by simp
    then have "a * 2 ^ (32 - k) = a * 2 ^ (31 - k) * 2" by simp
    then show ?thesis by (simp only: s32_double)
  qed
  have step: "quick_muldiv_step b c st =
      (s32 (a * 2 ^ (32 - k)), quick_muldiv_sub c (quick_muldiv_sub c (r * 2 + t * b, q * 2)))"
    using sgn t by (auto simp: quick_muldiv_step_def st nx)
  have pa: "0 \<le> a div 2 ^ k" "a div 2 ^ k \<le> a"
    using a zdiv_mono2 [of a 1 "2 ^ k"] by (simp_all add: pos_imp_zdiv_nonneg_iff)
  have bc': "a div 2 ^ k * b \<le> a div 2 ^ k * c" using pa bc by (intro mult_left_mono)
  also have "\<dots> < 2 ^ 31 * c" using pa a bc by simp
  finally have lt: "a div 2 ^ k * b < 2 ^ 31 * c" .
  have e: "a div 2 ^ k * b = q * 2 * c + (r * 2 + t * b)" using i(1) unfolding p by (simp add: algebra_simps)
  have bd: "0 \<le> r * 2 + t * b" "r * 2 + t * b < 3 * c" "r * 2 + t * b < 2 ^ 31" "0 \<le> q * 2" "c \<le> 2 ^ 31"
    using t i bc by auto
  obtain r' q' where f:
    "quick_muldiv_sub c (quick_muldiv_sub c (r * 2 + t * b, q * 2)) = (r', q')"
    "a div 2 ^ k * b = q' * c + r'" "0 \<le> r'" "r' < c" "0 \<le> q'"
    using quick_muldiv_sub_twice [OF e bd(4,5,1-3) lt] by blast
  have "q' * c \<le> a div 2 ^ k * c" using bc' f by linarith
  then have "q' \<le> a div 2 ^ k" using bc by simp
  then show ?thesis using step f i by (auto simp: qm_inv_def)
qed

lemma quick_muldiv_iterate:
  assumes "qm_inv a b c (k + j) st" "k + j \<le> 32" "0 \<le> a" "a < 2 ^ 31" "0 \<le> b" "b \<le> c" "0 < c" "3 * c \<le> 2 ^ 31"
  shows "qm_inv a b c k ((quick_muldiv_step b c ^^ j) st)"
  using assms
proof (induction j arbitrary: st)
  case (Suc j)
  have "qm_inv a b c (k + j) (quick_muldiv_step b c st)"
    using Suc.prems by (intro quick_muldiv_step_inv) simp_all
  then show ?case using Suc by (simp add: funpow_swap1)
qed simp

lemma quick_muldiv_exact:
  assumes a: "0 < a" "a < 2 ^ 31" and bc: "0 \<le> b" "b \<le> c" "0 < c" "3 * c \<le> 2 ^ 31"
  shows "quick_muldiv a b c = Some (a * b div c)"
proof -
  obtain k where k: "gglClz a = 31 - int k" "k \<le> 30" "2 ^ k \<le> a" "a < 2 ^ Suc k" using clz_top [OF a] by blast
  have z: "a div 2 ^ Suc k = 0" using k a by simp
  have e: "nat (31 - int k) = 32 - Suc k" using k by simp
  have "qm_inv a b c (0 + Suc k) (s32 (a * 2 ^ nat (31 - int k)), 0, 0)"
    using z bc unfolding qm_inv_def e by simp
  from quick_muldiv_iterate [OF this] obtain r q where
    "(quick_muldiv_step b c ^^ Suc k) (s32 (a * 2 ^ nat (31 - int k)), 0, 0) = (s32 (a * 2 ^ 32), r, q)"
    "a * b = q * c + r" "0 \<le> r" "r < c"
    using k a bc by (auto simp: qm_inv_def)
  moreover have "(q * c + r) div c = q" if "0 \<le> r" "r < c" using that bc by (simp add: div_pos_pos_trivial)
  moreover have "nat (32 - (31 - int k)) = Suc k" by simp
  ultimately show ?thesis using k(1,2) by (simp add: quick_muldiv_def Let_def del: funpow.simps)
qed

definition sm_inv :: "int \<Rightarrow> int \<Rightarrow> nat \<Rightarrow> int \<times> int \<times> int \<Rightarrow> bool" where
  "sm_inv ab c k st \<longleftrightarrow> (\<exists>r q. st = (r, ab * 2 ^ (32 - k) mod 2 ^ 32, q) \<and>
     ab div 2 ^ k = q * c + r \<and> 0 \<le> r \<and> r < c \<and> 0 \<le> q)"

lemma slow_muldiv_step_inv:
  assumes inv: "sm_inv ab c (Suc k) st" and k: "k < 32" and ab: "ab < 2 ^ 32 * c" and c: "0 < c" "c \<le> 2 ^ 31"
  shows "sm_inv ab c k (slow_muldiv_step c st)"
proof -
  obtain r q where st: "st = (r, ab * 2 ^ (31 - k) mod 2 ^ 32, q)"
    and i: "ab div 2 ^ Suc k = q * c + r" "0 \<le> r" "r < c" "0 \<le> q"
    using inv by (auto simp: sm_inv_def)
  define t where "t = ab div 2 ^ k mod 2"
  have t: "t = 0 \<or> t = 1" by (auto simp: t_def)
  have p: "ab div 2 ^ k = 2 * (ab div 2 ^ Suc k) + t" unfolding t_def by (rule div_pow_Suc)
  have q0: "0 \<le> ab div 2 ^ Suc k" using i c by simp
  then have "0 \<le> ab" by (simp add: pos_imp_zdiv_nonneg_iff)
  have pk: "(2 :: int) ^ 31 = 2 ^ k * 2 ^ (31 - k)" using k by (simp flip: power_add)
  have "ab * 2 ^ (31 - k) mod 2 ^ 32 div 2 ^ 31 = ab * 2 ^ (31 - k) div 2 ^ 31 mod 2"
    using zmod_zmult2_eq [of 2 "ab * 2 ^ (31 - k)" "2 ^ 31"] by simp
  also have "ab * 2 ^ (31 - k) div 2 ^ 31 = ab div 2 ^ k"
    using pk by (simp only: div_mult_mult2 power_not_zero numeral_neq_zero not_False_eq_True)
  finally have lo: "ab * 2 ^ (31 - k) mod 2 ^ 32 div 2 ^ 31 = t" by (simp only: t_def)
  have r: "(r * 2 mod 2 ^ 32) OR t = r * 2 + t"
    using or_add [of "r * 2" 1 t] t i c by auto
  have e: "32 - k = Suc (31 - k)" using k by simp
  have nx: "ab * 2 ^ (31 - k) mod 2 ^ 32 * 2 mod 2 ^ 32 = ab * 2 ^ (32 - k) mod 2 ^ 32"
    unfolding e power_Suc2 by (simp only: mod_mult_left_eq mult.assoc)
  have "q * c \<le> ab div 2 ^ Suc k" using i by simp
  have "ab div 2 ^ k \<le> ab" using \<open>0 \<le> ab\<close> zdiv_mono2 [of ab 1 "2 ^ k"] by simp
  moreover have "2 * q * c \<le> ab div 2 ^ k" unfolding p i(1) using i(2) t by auto
  ultimately have "2 * q * c < 2 ^ 32 * c" using ab by linarith
  then have "2 * q < 2 ^ 32" using c mult_less_cancel_right_pos [of c] by blast
  then have qs: "q * 2 mod 2 ^ 32 = q * 2" using i by simp
  have "q * 2 OR 1 = q * 2 + 1" using or_add [of "q * 2" 1 1] by simp
  then have step: "slow_muldiv_step c st = (if r * 2 + t \<ge> c
      then (r * 2 + t - c, ab * 2 ^ (32 - k) mod 2 ^ 32, q * 2 + 1)
      else (r * 2 + t, ab * 2 ^ (32 - k) mod 2 ^ 32, q * 2))"
    unfolding st slow_muldiv_step_def Let_def prod.case lo r nx qs by (simp only:)
  have "ab div 2 ^ k = q * 2 * c + (r * 2 + t)" unfolding p i(1) by (simp add: algebra_simps)
  then show ?thesis using step i(2-4) t
    by (cases "r * 2 + t \<ge> c") (auto simp: sm_inv_def distrib_right)
qed

lemma slow_muldiv_iterate:
  assumes "sm_inv ab c (k + j) st" "k + j \<le> 32" "ab < 2 ^ 32 * c" "0 < c" "c \<le> 2 ^ 31"
  shows "sm_inv ab c k ((slow_muldiv_step c ^^ j) st)"
  using assms
proof (induction j arbitrary: st)
  case (Suc j)
  have "sm_inv ab c (k + j) (slow_muldiv_step c st)"
    using Suc.prems by (intro slow_muldiv_step_inv) simp_all
  then show ?case using Suc by (simp add: funpow_swap1)
qed simp

lemma sm_inv_done: "sm_inv ab c 0 st \<Longrightarrow> snd (snd st) = ab div c"
  by (auto simp: sm_inv_def div_pos_pos_trivial)

text \<open>The slow path: the exact quotient, \<^verbatim>\<open>INT_MAX\<close> when it needs more than 32 bits.\<close>

lemma slow_muldiv_exact:
  assumes "0 \<le> a" "0 \<le> b" "0 < c" "c < 2 ^ 31"
  shows "slow_muldiv a b c =
    (if a * b div c \<ge> 2 ^ 32 \<or> (a * b < 2 ^ 32 \<and> a * b div c \<ge> 2 ^ 31) then 0x7fffffff else s32 (a * b div c))"
proof -
  define ab where "ab = a * b"
  have nn: "0 \<le> ab" using assms by (simp add: ab_def)
  have hi: "ab div 2 ^ 32 \<ge> c \<longleftrightarrow> ab div c \<ge> 2 ^ 32"
    using int_div_less_iff [of "2 ^ 32" ab c] int_div_less_iff [of c ab "2 ^ 32"] assms
    by (simp add: mult.commute not_less [symmetric])
  have h0: "ab div 2 ^ 32 = 0 \<longleftrightarrow> ab < 2 ^ 32" using nn by (auto simp: div_eq_0_iff)
  have q0: "0 \<le> ab div c" using nn assms by (simp add: pos_imp_zdiv_nonneg_iff)
  have q31: "ab div c div 2 ^ 31 \<noteq> 0 \<longleftrightarrow> ab div c \<ge> 2 ^ 31" using q0 by (auto simp: div_eq_0_iff)
  have loop: "snd (snd ((slow_muldiv_step c ^^ 32) (ab div 2 ^ 32, ab mod 2 ^ 32, 0))) = ab div c"
    if "ab div 2 ^ 32 < c"
  proof -
    have "sm_inv ab c (0 + 32) (ab div 2 ^ 32, ab mod 2 ^ 32, 0)"
      using nn that assms by (simp add: sm_inv_def pos_imp_zdiv_nonneg_iff)
    moreover have "ab < 2 ^ 32 * c" using that int_div_less_iff [of "2 ^ 32" ab c] by (simp add: mult.commute)
    ultimately have "sm_inv ab c 0 ((slow_muldiv_step c ^^ 32) (ab div 2 ^ 32, ab mod 2 ^ 32, 0))"
      using slow_muldiv_iterate [of ab c 0 32 "(ab div 2 ^ 32, ab mod 2 ^ 32, 0)"] assms by linarith
    then show ?thesis by (rule sm_inv_done)
  qed
  have m: "ab mod 2 ^ 32 = ab" if "ab < 2 ^ 32" using that nn by simp
  have i7: "s32 0x7fffffff = 0x7fffffff" by (simp add: s32_def)
  show ?thesis
    unfolding slow_muldiv_def Let_def ab_def [symmetric] hi h0
    using loop hi m q31 i7 by auto
qed

lemma gglMulDivi_exact:
  assumes abc: "\<bar>a\<bar> < 2 ^ 31" "\<bar>b\<bar> < 2 ^ 31" "\<bar>c\<bar> < 2 ^ 31" "c \<noteq> 0" "a \<noteq> 0 \<or> b \<noteq> 0"
    and q: "\<bar>a * b\<bar> div \<bar>c\<bar> < 2 ^ 31"
    and quick: "min \<bar>a\<bar> \<bar>b\<bar> \<le> \<bar>c\<bar> \<Longrightarrow> 3 * \<bar>c\<bar> \<le> 2 ^ 31"
  shows "gglMulDivi a b c = Some ((a * b) sdiv c)"
proof -
  define A where "A = max \<bar>a\<bar> \<bar>b\<bar>"
  define B where "B = min \<bar>a\<bar> \<bar>b\<bar>"
  define Q where "Q = \<bar>a * b\<bar> div \<bar>c\<bar>"
  have AB: "A * B = \<bar>a * b\<bar>" by (auto simp: A_def B_def abs_mult max_def min_def)
  have bd: "0 < A" "A < 2 ^ 31" "0 \<le> B" "0 < \<bar>c\<bar>" using abc by (auto simp: A_def B_def)
  have sw: "(if \<bar>a\<bar> < \<bar>b\<bar> then (\<bar>b\<bar>, \<bar>a\<bar>) else (\<bar>a\<bar>, \<bar>b\<bar>)) = (A, B)" by (auto simp: A_def B_def)
  have Q0: "0 \<le> Q" using bd by (simp add: Q_def pos_imp_zdiv_nonneg_iff)
  have res: "(if B \<le> \<bar>c\<bar> then quick_muldiv A B \<bar>c\<bar> else Some (slow_muldiv A B \<bar>c\<bar>)) = Some Q"
  proof (cases "B \<le> \<bar>c\<bar>")
    case True
    then show ?thesis using quick_muldiv_exact [of A B "\<bar>c\<bar>"] bd quick AB by (simp add: B_def Q_def)
  next
    case False
    have "s32 Q = Q" using Q0 q by (intro s32_id') (simp_all add: Q_def)
    then show ?thesis using slow_muldiv_exact [of A B "\<bar>c\<bar>"] bd abc(3) AB q False by (simp add: Q_def)
  qed
  define P where "P \<longleftrightarrow> a XOR b XOR c < 0"
  have sgn: "(a * b) sdiv c = (if P then - Q else Q)"
    using abc(4) by (auto simp: P_def xor_sign Q_def signed_divide_int_def sgn_if mult_less_0_iff zero_less_mult_iff)
  have "s32 (- Q) = - Q" using Q0 q by (intro s32_id') (simp_all add: Q_def)
  then show ?thesis
    unfolding gglMulDivi_def Let_def abs_s32 [OF abc(1)] abs_s32 [OF abc(2)] abs_s32 [OF abc(3)] sw prod.case res sgn P_def [symmetric]
    by simp
qed

lemma gglMulDivi_flaws:
  "gglMulDivi 0x7fffffff 3 0x7fffffff = Some 0"
  "gglMulDivi 5 0 0 = Some 14"
  "gglMulDivi 0 0 7 = None"
  by code_simp+

subsection \<open>Rounding helpers\<close>

lemma gglClampx_clamps:
  assumes "in_s32 c"
  shows "gglClampx c = max 0 (min 65536 c)"
proof (cases "c < 0")
  case True
  then have "c div 2 ^ 31 = - 1" using assms by (simp add: in_s32_def div_eq_minus1)
  then show ?thesis using True by (simp add: gglClampx_def)
next
  case False
  then have "c div 2 ^ 31 = 0" using assms by (simp add: in_s32_def)
  then show ?thesis using False by (simp add: gglClampx_def)
qed

lemma gglFloorx_floor: "in_s32 v \<Longrightarrow> gglFloorx v = v - v mod 65536"
proof -
  assume "in_s32 v"
  then have "- 32768 \<le> v div 65536" "v div 65536 < 32768"
    using int_div_less_iff [of 65536 v "- 32768"] int_div_less_iff [of 65536 v 32768]
    by (simp_all add: in_s32_def)
  then have "s32 (v div 65536 * 65536) = v div 65536 * 65536" by (intro s32_id') simp_all
  then show ?thesis by (simp add: gglFloorx_def gglFixedToIntFloor_def minus_mod_eq_div_mult)
qed

lemma rounded_div:
  assumes "0 < s"
  shows "\<bar>2 ^ s * ((x + 2 ^ (s - 1)) div 2 ^ s) - x\<bar> \<le> (2 :: int) ^ (s - 1)"
proof -
  define h where "h = (2 :: int) ^ (s - 1)"
  have p: "2 ^ s = 2 * h" using assms by (cases s) (simp_all add: h_def)
  have "2 * h * ((x + h) div (2 * h)) + (x + h) mod (2 * h) = x + h" by (rule mult_div_mod_eq)
  moreover have "0 \<le> (x + h) mod (2 * h)" "(x + h) mod (2 * h) < 2 * h" by (simp_all add: h_def)
  ultimately show ?thesis unfolding p h_def [symmetric] by linarith
qed



text \<open>C8. Fixed-point division. For every dividend and non-zero divisor other than
  \<^verbatim>\<open>INT32_MIN\<close> and every number of fraction bits, \<^verbatim>\<open>gglDivQ\<close> returns the exactly truncated
  quotient (toward zero, wrapped to 32 bits) when the quotient has at least one integer or
  fraction bit to produce, and in the other case its loop counter starts at or below zero and
  runs away.\<close>

theorem gglDivQ_correct:
  assumes "\<bar>n\<bar> < 2 ^ 31" "\<bar>d\<bar> < 2 ^ 31" "d \<noteq> 0" "0 \<le> i"
  shows "gglDivQ n d i =
    (if gglClz \<bar>n\<bar> \<le> i + gglClz \<bar>d\<bar> then Some (s32 ((n * 2 ^ nat i) sdiv d)) else None)"
  using gglDivQ_value [OF assms] .

theorem gglDivQ_correct_witness:
  "gglDivQ (- 100) 7 16 = Some (- 936228) \<and> gglDivQ 3 262144 16 = None"
  using gglDivQ_correct [of "- 100" 7 16] gglDivQ_correct [of 3 262144 16]
  by (simp add: gglClz_def clz_step_def signed_divide_int_def s32_def)



end
