(* ===== verification/BufferObjects.thy ===== *)
theory BufferObjects
  imports Tokens Vectors
begin

text \<open>
  Buffer objects: \<^verbatim>\<open>EGLBufferObjectManager\<close> of \<^verbatim>\<open>swrender/BufferObjectManager.cpp\<close> and the
  client-array and buffer entry points of \<^verbatim>\<open>swrender/array.cpp\<close> (\<^verbatim>\<open>glVertexPointer\<close> to
  \<^verbatim>\<open>glClientActiveTexture\<close>, \<^verbatim>\<open>glBindBuffer\<close> to \<^verbatim>\<open>glGenBuffers\<close>).

  A \<^verbatim>\<open>buffer_t*\<close> is an address into the explicit store \<open>bo_heap\<close>: \<^verbatim>\<open>new\<close> takes the next
  address, \<^verbatim>\<open>delete\<close> removes the object, so a pointer the context keeps after a delete is
  visible as an address outside the store. The bytes of a fresh \<^verbatim>\<open>malloc\<close> are unknown
  (\<^term>\<open>None\<close>); whether it succeeds is the parameter \<open>al\<close>. Client memory is a function from offsets
  to bytes. An operation that would follow a dangling pointer or write outside the storage of a
  buffer is \<^term>\<open>None\<close>.
\<close>

subsection \<open>State\<close>

record buffer_t =
  bo_size :: int
  bo_usage :: nat
  bo_data :: "u8 option list"
  bo_name :: u32

record buffer_manager =
  mBuffers :: "(u32 \<times> nat) vectorImpl"
  bo_heap :: "nat \<rightharpoonup> buffer_t"
  bo_next :: nat
  bm_tokenizer :: tokenizer

record array_t =
  ar_size :: int
  ar_stride :: int
  ar_pointer :: nat
  ar_bo :: "nat option"
  ar_type :: nat
  ar_enable :: bool
  ar_bounds :: int

record array_machine =
  am_vertex :: array_t
  am_normal :: array_t
  am_color :: array_t
  am_texture :: "array_t list"
  am_activeTexture :: nat
  array_buffer :: "nat option"
  element_array_buffer :: "nat option"

record array_context =
  c_arrays :: array_machine
  c_buffers :: buffer_manager
  c_error :: nat

definition ogles_error :: "array_context \<Rightarrow> nat \<Rightarrow> array_context" where
  "ogles_error c err = (if c_error c = GL_NO_ERROR then c\<lparr>c_error := err\<rparr> else c)"

definition EGLBufferObjectManager_init :: buffer_manager where
  "EGLBufferObjectManager_init =
     \<lparr>mBuffers = vec_empty False, bo_heap = Map.empty, bo_next = 0, bm_tokenizer = TokenManager_init\<rparr>"

subsection \<open>The buffer object manager\<close>

definition bm_bind :: "buffer_manager \<Rightarrow> u32 \<Rightarrow> nat \<times> buffer_manager" where
  "bm_bind m buffer =
     (case kv_valueFor (mBuffers m) buffer of
        Some a \<Rightarrow> (a, m)
      | None \<Rightarrow>
          let a = bo_next m;
              bo = \<lparr>bo_size = 0, bo_usage = GL_STATIC_DRAW, bo_data = [], bo_name = buffer\<rparr>
          in (a, m\<lparr>mBuffers := kv_put (mBuffers m) buffer a,
                   bo_heap := (bo_heap m)(a \<mapsto> bo), bo_next := a + 1\<rparr>))"

definition bm_allocateStore ::
  "(int \<Rightarrow> bool) \<Rightarrow> buffer_manager \<Rightarrow> nat \<Rightarrow> int \<Rightarrow> nat \<Rightarrow> (int \<times> buffer_manager) option" where
  "bm_allocateStore al m a sz usage =
     (case bo_heap m a of
        None \<Rightarrow> None
      | Some bo \<Rightarrow>
          if sz \<noteq> bo_size bo then
            if \<not> al sz then Some (- 1, m)
            else Some (0, m\<lparr>bo_heap := (bo_heap m)(a \<mapsto>
                   bo\<lparr>bo_data := replicate (nat sz) None, bo_size := sz, bo_usage := usage\<rparr>)\<rparr>)
          else Some (0, m\<lparr>bo_heap := (bo_heap m)(a \<mapsto> bo\<lparr>bo_usage := usage\<rparr>)\<rparr>))"

definition bm_delete :: "buffer_manager \<Rightarrow> u32 \<Rightarrow> buffer_manager" where
  "bm_delete m t =
     (case kv_valueFor (mBuffers m) t of
        Some a \<Rightarrow> m\<lparr>mBuffers := kv_del (mBuffers m) t, bo_heap := (bo_heap m)(a := None)\<rparr>
      | None \<Rightarrow> m)"

definition bm_deleteBuffers :: "buffer_manager \<Rightarrow> int \<Rightarrow> u32 list \<Rightarrow> buffer_manager" where
  "bm_deleteBuffers m n buffers = del_nonzero bm_delete (take (nat n) buffers) m"

subsection \<open>Client arrays\<close>

definition array_init :: "array_t \<Rightarrow> int \<Rightarrow> nat \<Rightarrow> int \<Rightarrow> nat \<Rightarrow> nat option \<Rightarrow> int \<Rightarrow> array_t" where
  "array_init a sz type stride pointer bo count =
     (let stride = (if stride = 0 then
                      (if type = GL_SHORT \<or> type = GL_UNSIGNED_SHORT then sz * 2
                       else if type = GL_FLOAT \<or> type = GL_FIXED then sz * 4
                       else sz)
                    else stride)
      in a\<lparr>ar_size := sz, ar_type := type mod 2 ^ 16, ar_stride := stride, ar_pointer := pointer,
           ar_bo := bo, ar_bounds := count\<rparr>)"

definition upd_arrays :: "(array_machine \<Rightarrow> array_machine) \<Rightarrow> array_context \<Rightarrow> array_context" where
  "upd_arrays f c = c\<lparr>c_arrays := f (c_arrays c)\<rparr>"

definition glVertexPointer :: "array_context \<Rightarrow> int \<Rightarrow> nat \<Rightarrow> int \<Rightarrow> nat \<Rightarrow> array_context" where
  "glVertexPointer c sz type stride pointer =
     (if sz < 2 \<or> sz > 4 \<or> stride < 0 then ogles_error c GL_INVALID_VALUE
      else if type \<notin> {GL_BYTE, GL_SHORT, GL_FIXED, GL_FLOAT} then ogles_error c GL_INVALID_ENUM
      else upd_arrays (\<lambda>a. a\<lparr>am_vertex :=
             array_init (am_vertex a) sz type stride pointer (array_buffer a) 0\<rparr>) c)"

definition glColorPointer :: "array_context \<Rightarrow> int \<Rightarrow> nat \<Rightarrow> int \<Rightarrow> nat \<Rightarrow> array_context" where
  "glColorPointer c sz type stride pointer =
     (if sz \<noteq> 4 \<or> stride < 0 then ogles_error c GL_INVALID_VALUE
      else if type \<notin> {GL_UNSIGNED_BYTE, GL_FIXED, GL_FLOAT} then ogles_error c GL_INVALID_ENUM
      else upd_arrays (\<lambda>a. a\<lparr>am_color :=
             array_init (am_color a) sz type stride pointer (array_buffer a) 0\<rparr>) c)"

definition glNormalPointer :: "array_context \<Rightarrow> nat \<Rightarrow> int \<Rightarrow> nat \<Rightarrow> array_context" where
  "glNormalPointer c type stride pointer =
     (if stride < 0 then ogles_error c GL_INVALID_VALUE
      else if type \<notin> {GL_BYTE, GL_SHORT, GL_FIXED, GL_FLOAT} then ogles_error c GL_INVALID_ENUM
      else upd_arrays (\<lambda>a. a\<lparr>am_normal :=
             array_init (am_normal a) 3 type stride pointer (array_buffer a) 0\<rparr>) c)"

definition glTexCoordPointer :: "array_context \<Rightarrow> int \<Rightarrow> nat \<Rightarrow> int \<Rightarrow> nat \<Rightarrow> array_context" where
  "glTexCoordPointer c sz type stride pointer =
     (if sz < 2 \<or> sz > 4 \<or> stride < 0 then ogles_error c GL_INVALID_VALUE
      else if type \<notin> {GL_BYTE, GL_SHORT, GL_FIXED, GL_FLOAT} then ogles_error c GL_INVALID_ENUM
      else upd_arrays (\<lambda>a. let tmu = am_activeTexture a in a\<lparr>am_texture := (am_texture a)[tmu :=
             array_init (am_texture a ! tmu) sz type stride pointer (array_buffer a) 0]\<rparr>) c)"

definition enableDisableClientState :: "array_context \<Rightarrow> nat \<Rightarrow> bool \<Rightarrow> array_context" where
  "enableDisableClientState c array enable =
     (let e = (\<lambda>a. a\<lparr>ar_enable := enable\<rparr>) in
      if array = GL_COLOR_ARRAY then upd_arrays (\<lambda>a. a\<lparr>am_color := e (am_color a)\<rparr>) c
      else if array = GL_NORMAL_ARRAY then upd_arrays (\<lambda>a. a\<lparr>am_normal := e (am_normal a)\<rparr>) c
      else if array = GL_TEXTURE_COORD_ARRAY then
        upd_arrays (\<lambda>a. let tmu = am_activeTexture a in
          a\<lparr>am_texture := (am_texture a)[tmu := e (am_texture a ! tmu)]\<rparr>) c
      else if array = GL_VERTEX_ARRAY then upd_arrays (\<lambda>a. a\<lparr>am_vertex := e (am_vertex a)\<rparr>) c
      else ogles_error c GL_INVALID_ENUM)"

definition glClientActiveTexture :: "array_context \<Rightarrow> nat \<Rightarrow> array_context" where
  "glClientActiveTexture c texture =
     (if texture < GL_TEXTURE0 \<or> texture \<ge> GL_TEXTURE0 + 2 then ogles_error c GL_INVALID_ENUM
      else upd_arrays (\<lambda>a. a\<lparr>am_activeTexture := texture - GL_TEXTURE0\<rparr>) c)"

subsection \<open>The buffer entry points\<close>

definition glBindBuffer :: "array_context \<Rightarrow> nat \<Rightarrow> u32 \<Rightarrow> array_context" where
  "glBindBuffer c target buffer =
     (if target \<noteq> GL_ARRAY_BUFFER \<and> target \<noteq> GL_ELEMENT_ARRAY_BUFFER
      then ogles_error c GL_INVALID_ENUM
      else
        let (bo, m) = (if buffer \<noteq> 0 then let (a, m) = bm_bind (c_buffers c) buffer in (Some a, m)
                       else (None, c_buffers c));
            c = c\<lparr>c_buffers := m\<rparr>
        in if target = GL_ARRAY_BUFFER then upd_arrays (\<lambda>a. a\<lparr>array_buffer := bo\<rparr>) c
           else upd_arrays (\<lambda>a. a\<lparr>element_array_buffer := bo\<rparr>) c)"

definition bound_buffer :: "array_context \<Rightarrow> nat \<Rightarrow> nat option" where
  "bound_buffer c target =
     (if target = GL_ARRAY_BUFFER then array_buffer (c_arrays c) else element_array_buffer (c_arrays c))"

definition bo_memcpy :: "u8 option list \<Rightarrow> nat \<Rightarrow> (nat \<Rightarrow> u8) \<Rightarrow> nat \<Rightarrow> u8 option list option" where
  "bo_memcpy d off src n =
     (if off + n \<le> length d
      then Some (take off d @ map (\<lambda>i. Some (src i)) [0..<n] @ drop (off + n) d) else None)"

definition write_store ::
  "array_context \<Rightarrow> nat \<Rightarrow> nat \<Rightarrow> (nat \<Rightarrow> u8) \<Rightarrow> nat \<Rightarrow> array_context option" where
  "write_store c a off src n =
     (case bo_heap (c_buffers c) a of
        None \<Rightarrow> None
      | Some bo \<Rightarrow>
         (case bo_memcpy (bo_data bo) off src n of
            None \<Rightarrow> None
          | Some d \<Rightarrow> Some (c\<lparr>c_buffers := (c_buffers c)\<lparr>bo_heap :=
                        (bo_heap (c_buffers c))(a \<mapsto> bo\<lparr>bo_data := d\<rparr>)\<rparr>\<rparr>)))"

definition glBufferData ::
  "(int \<Rightarrow> bool) \<Rightarrow> array_context \<Rightarrow> nat \<Rightarrow> int \<Rightarrow> (nat \<Rightarrow> u8) option \<Rightarrow> nat \<Rightarrow> array_context option" where
  "glBufferData al c target sz data usage =
     (if target \<noteq> GL_ARRAY_BUFFER \<and> target \<noteq> GL_ELEMENT_ARRAY_BUFFER
      then Some (ogles_error c GL_INVALID_ENUM)
      else if sz < 0 then Some (ogles_error c GL_INVALID_VALUE)
      else if usage \<noteq> GL_STATIC_DRAW \<and> usage \<noteq> GL_DYNAMIC_DRAW then Some (ogles_error c GL_INVALID_ENUM)
      else case bound_buffer c target of
        None \<Rightarrow> Some (ogles_error c GL_INVALID_OPERATION)
      | Some a \<Rightarrow>
         (case bm_allocateStore al (c_buffers c) a sz usage of
            None \<Rightarrow> None
          | Some (r, m) \<Rightarrow>
              if r \<noteq> 0 then Some (ogles_error c GL_OUT_OF_MEMORY)
              else case data of
                None \<Rightarrow> Some (c\<lparr>c_buffers := m\<rparr>)
              | Some src \<Rightarrow> write_store (c\<lparr>c_buffers := m\<rparr>) a 0 src (nat sz)))"

text \<open>\<^verbatim>\<open>offset+size\<close> is a sum of two 64-bit signed integers.\<close>

definition s64 :: "int \<Rightarrow> int" where
  "s64 x = (x + 2 ^ 63) mod 2 ^ 64 - 2 ^ 63"

definition glBufferSubData ::
  "array_context \<Rightarrow> nat \<Rightarrow> int \<Rightarrow> int \<Rightarrow> (nat \<Rightarrow> u8) option \<Rightarrow> array_context option" where
  "glBufferSubData c target offset sz data =
     (if target \<noteq> GL_ARRAY_BUFFER \<and> target \<noteq> GL_ELEMENT_ARRAY_BUFFER
      then Some (ogles_error c GL_INVALID_ENUM)
      else if offset < 0 \<or> sz < 0 \<or> data = None then Some (ogles_error c GL_INVALID_VALUE)
      else case bound_buffer c target of
        None \<Rightarrow> Some (ogles_error c GL_INVALID_OPERATION)
      | Some a \<Rightarrow>
         (case bo_heap (c_buffers c) a of
            None \<Rightarrow> None
          | Some bo \<Rightarrow>
              if s64 (offset + sz) > bo_size bo then Some (ogles_error c GL_INVALID_VALUE)
              else write_store c a (nat offset) (the data) (nat sz)))"

text \<open>The buffer a stored pointer names is compared with the deleted name. Reading through a
  dangling pointer does not happen in a context that satisfies \<open>buffers_ok\<close> below; here it leaves the
  pointer as it is.\<close>

definition unbind_ptr :: "buffer_manager \<Rightarrow> u32 \<Rightarrow> nat option \<Rightarrow> nat option" where
  "unbind_ptr m name p =
     (case p of None \<Rightarrow> None
      | Some a \<Rightarrow> (case bo_heap m a of
                     Some bo \<Rightarrow> if bo_name bo = name then None else Some a
                   | None \<Rightarrow> Some a))"

definition unbind_array :: "buffer_manager \<Rightarrow> u32 \<Rightarrow> array_t \<Rightarrow> array_t" where
  "unbind_array m name a = a\<lparr>ar_bo := unbind_ptr m name (ar_bo a)\<rparr>"

definition unbind_name :: "buffer_manager \<Rightarrow> u32 \<Rightarrow> array_machine \<Rightarrow> array_machine" where
  "unbind_name m name a =
     (if name \<noteq> 0 then
        a\<lparr>element_array_buffer := unbind_ptr m name (element_array_buffer a),
          array_buffer := unbind_ptr m name (array_buffer a),
          am_vertex := unbind_array m name (am_vertex a),
          am_normal := unbind_array m name (am_normal a),
          am_color := unbind_array m name (am_color a),
          am_texture := map (unbind_array m name) (am_texture a)\<rparr>
      else a)"

definition glDeleteBuffers :: "array_context \<Rightarrow> int \<Rightarrow> u32 list \<Rightarrow> array_context" where
  "glDeleteBuffers c n buffers =
     (if n < 0 then ogles_error c GL_INVALID_VALUE
      else
        let c = upd_arrays (fold (unbind_name (c_buffers c)) (take (nat n) buffers)) c;
            m = bm_deleteBuffers (c_buffers c) n buffers
        in c\<lparr>c_buffers := m\<lparr>bm_tokenizer := recycleTokens (bm_tokenizer m) n buffers\<rparr>\<rparr>)"

definition glGenBuffers :: "array_context \<Rightarrow> int \<Rightarrow> u32 list \<times> array_context" where
  "glGenBuffers c n =
     (if n < 0 then ([], ogles_error c GL_INVALID_VALUE)
      else
        let (ts, tk) = getToken (bm_tokenizer (c_buffers c)) n
        in (ts, c\<lparr>c_buffers := (c_buffers c)\<lparr>bm_tokenizer := tk\<rparr>\<rparr>))"

text \<open>A fresh context: memory zeroed by \<^verbatim>\<open>ogles_init\<close>, then \<^verbatim>\<open>ogles_init_array\<close>; \<open>vc\<close> says
  whether the vertex cache could be allocated.\<close>

definition zero_array :: array_t where
  "zero_array = \<lparr>ar_size = 0, ar_stride = 0, ar_pointer = 0, ar_bo = None, ar_type = 0, ar_enable = False, ar_bounds = 0\<rparr>"

definition ogles_init_array :: "bool \<Rightarrow> array_context \<Rightarrow> array_context" where
  "ogles_init_array vc c =
     (let f = (\<lambda>a. a\<lparr>ar_size := 4, ar_type := GL_FLOAT\<rparr>);
          c = upd_arrays (\<lambda>a. a\<lparr>am_vertex := f (am_vertex a), am_color := f (am_color a),
                am_normal := f (am_normal a), am_texture := map f (am_texture a)\<rparr>) c
      in if \<not> vc then ogles_error c GL_OUT_OF_MEMORY else c)"

definition array_context_zero :: array_context where
  "array_context_zero =
     \<lparr>c_arrays = \<lparr>am_vertex = zero_array, am_normal = zero_array, am_color = zero_array,
        am_texture = [zero_array, zero_array], am_activeTexture = 0, array_buffer = None,
        element_array_buffer = None\<rparr>,
      c_buffers = EGLBufferObjectManager_init, c_error = GL_NO_ERROR\<rparr>"

subsection \<open>Invariant\<close>

definition bo_ok :: "buffer_t \<Rightarrow> bool" where
  "bo_ok bo \<longleftrightarrow> int (length (bo_data bo)) = bo_size bo"

definition mgr_ok :: "buffer_manager \<Rightarrow> bool" where
  "mgr_ok m \<longleftrightarrow> kv_ok (mBuffers m) \<and> runs_ok (bm_tokenizer m) \<and> kv_valueFor (mBuffers m) 0 = None \<and>
     (\<forall>a. bo_next m \<le> a \<longrightarrow> bo_heap m a = None) \<and>
     (\<forall>k a. kv_valueFor (mBuffers m) k = Some a \<longrightarrow>
        (\<exists>bo. bo_heap m a = Some bo \<and> bo_name bo = k \<and> bo_ok bo)) \<and>
     (\<forall>a bo. bo_heap m a = Some bo \<longrightarrow> kv_valueFor (mBuffers m) (bo_name bo) = Some a)"

definition bo_ptrs :: "array_machine \<Rightarrow> nat set" where
  "bo_ptrs a = set_option (array_buffer a) \<union> set_option (element_array_buffer a) \<union>
     set_option (ar_bo (am_vertex a)) \<union> set_option (ar_bo (am_normal a)) \<union>
     set_option (ar_bo (am_color a)) \<union> (\<Union>t \<in> set (am_texture a). set_option (ar_bo t))"

definition buffers_ok :: "array_context \<Rightarrow> bool" where
  "buffers_ok c \<longleftrightarrow> mgr_ok (c_buffers c) \<and> bo_ptrs (c_arrays c) \<subseteq> dom (bo_heap (c_buffers c)) \<and>
     length (am_texture (c_arrays c)) = 2 \<and> am_activeTexture (c_arrays c) < 2"

lemma mgr_ok_tokens: "mgr_ok m \<Longrightarrow> runs_ok t \<Longrightarrow> mgr_ok (m\<lparr>bm_tokenizer := t\<rparr>)"
  by (simp add: mgr_ok_def)

lemma mgr_ok_init: "mgr_ok EGLBufferObjectManager_init"
  by (simp add: mgr_ok_def EGLBufferObjectManager_init_def TokenManager_init_eq run_simps)

lemma bind_ok:
  assumes "mgr_ok m" "b \<noteq> 0" "bm_bind m b = (a, m')"
  shows "mgr_ok m' \<and> a \<in> dom (bo_heap m') \<and> dom (bo_heap m) \<subseteq> dom (bo_heap m') \<and>
    kv_valueFor (mBuffers m') b = Some a \<and> (\<forall>a' \<in> dom (bo_heap m). bo_heap m' a' = bo_heap m a')"
proof (cases "kv_valueFor (mBuffers m) b")
  case None
  have n: "bo_heap m (bo_next m) = None" using assms(1) by (simp add: mgr_ok_def)
  have kv: "kv_ok (kv_put (mBuffers m) b (bo_next m))"
    "kv_valueFor (kv_put (mBuffers m) b (bo_next m)) = (kv_valueFor (mBuffers m))(b \<mapsto> bo_next m)"
    using assms(1) kv.put_law [of "mBuffers m"] by (auto simp: mgr_ok_def)
  have f: "kv_valueFor (mBuffers m) k \<noteq> Some (bo_next m)" for k
    using assms(1) n by (fastforce simp: mgr_ok_def)
  have g: "bo_heap m a = Some bo \<Longrightarrow> bo_name bo \<noteq> b" for a bo
    using assms(1) None by (fastforce simp: mgr_ok_def)
  have "bo_ok \<lparr>bo_size = 0, bo_usage = GL_STATIC_DRAW, bo_data = [], bo_name = b\<rparr>" by (simp add: bo_ok_def)
  then show ?thesis using assms None n kv f g
    by (auto simp: bm_bind_def mgr_ok_def Let_def split: if_splits)
next
  case (Some a0)
  then have "a0 \<in> dom (bo_heap m)" using assms(1) by (fastforce simp: mgr_ok_def)
  then show ?thesis using assms Some by (auto simp: bm_bind_def)
qed

lemma delete_ok:
  assumes "mgr_ok m"
  shows "mgr_ok (bm_delete m t)"
    and "dom (bo_heap (bm_delete m t)) = {a \<in> dom (bo_heap m). bo_name (the (bo_heap m a)) \<noteq> t}"
    and "a \<in> dom (bo_heap (bm_delete m t)) \<Longrightarrow> bo_heap (bm_delete m t) a = bo_heap m a"
    and "kv_valueFor (mBuffers (bm_delete m t)) = (kv_valueFor (mBuffers m))(t := None)"
proof -
  have kv: "kv_ok (kv_del (mBuffers m) t)"
    "kv_valueFor (kv_del (mBuffers m) t) = (kv_valueFor (mBuffers m))(t := None)"
    using assms kv.del_law [of "mBuffers m"] by (auto simp: mgr_ok_def)
  have h: "bo_heap m a = Some bo \<Longrightarrow> kv_valueFor (mBuffers m) (bo_name bo) = Some a" for a bo
    using assms by (simp add: mgr_ok_def)
  have k: "kv_valueFor (mBuffers m) k = Some a \<Longrightarrow> \<exists>bo. bo_heap m a = Some bo \<and> bo_name bo = k \<and> bo_ok bo" for k a
    using assms by (simp add: mgr_ok_def)
  show "mgr_ok (bm_delete m t)"
  proof (cases "kv_valueFor (mBuffers m) t")
    case (Some a0)
    obtain bo0 where "bo_heap m a0 = Some bo0" "bo_name bo0 = t" using k [OF Some] by blast
    then have ne: "kv_valueFor (mBuffers m) k = Some a \<Longrightarrow> k \<noteq> t \<Longrightarrow> a \<noteq> a0" for k a using k by force
    have "bo_heap m a = Some bo \<Longrightarrow> a \<noteq> a0 \<Longrightarrow> bo_name bo \<noteq> t" for a bo using h Some by force
    then show ?thesis using Some assms kv ne by (auto simp: bm_delete_def mgr_ok_def)
  qed (use assms in \<open>simp add: bm_delete_def\<close>)
  show "dom (bo_heap (bm_delete m t)) = {a \<in> dom (bo_heap m). bo_name (the (bo_heap m a)) \<noteq> t}"
    using h k by (fastforce simp: bm_delete_def split: option.splits if_splits)
  show "a \<in> dom (bo_heap (bm_delete m t)) \<Longrightarrow> bo_heap (bm_delete m t) a = bo_heap m a"
    by (auto simp: bm_delete_def split: option.splits if_splits)
  show "kv_valueFor (mBuffers (bm_delete m t)) = (kv_valueFor (mBuffers m))(t := None)"
    using kv by (auto simp: bm_delete_def fun_eq_iff split: option.splits)
qed

lemma bm_tokenizer_delete [simp]: "bm_tokenizer (bm_delete m t) = bm_tokenizer m"
  by (simp add: bm_delete_def split: option.splits)

lemma deleteBuffers_ok:
  assumes "mgr_ok m"
  shows "mgr_ok (del_nonzero bm_delete ts m) \<and>
    dom (bo_heap (del_nonzero bm_delete ts m)) =
      {a \<in> dom (bo_heap m). bo_name (the (bo_heap m a)) \<notin> set ts - {0}} \<and>
    (\<forall>a \<in> dom (bo_heap (del_nonzero bm_delete ts m)). bo_heap (del_nonzero bm_delete ts m) a = bo_heap m a) \<and>
    kv_valueFor (mBuffers (del_nonzero bm_delete ts m)) =
      (\<lambda>k. if k \<in> set ts - {0} then None else kv_valueFor (mBuffers m) k) \<and>
    bm_tokenizer (del_nonzero bm_delete ts m) = bm_tokenizer m"
  using assms
proof (induction ts arbitrary: m)
  case (Cons t ts)
  show ?case
  proof (cases "t = 0")
    case False
    note d = delete_ok [OF Cons.prems, where t = t]
    note ih = Cons.IH [OF d(1)]
    let ?D = "del_nonzero bm_delete ts (bm_delete m t)"
    have e: "del_nonzero bm_delete (t # ts) m = ?D" using False by simp
    have dm: "a \<in> dom (bo_heap (bm_delete m t)) \<longleftrightarrow> a \<in> dom (bo_heap m) \<and> bo_name (the (bo_heap m a)) \<noteq> t" for a
      unfolding d(2) by blast
    have "dom (bo_heap ?D) = {a \<in> dom (bo_heap m). bo_name (the (bo_heap m a)) \<notin> set (t # ts) - {0}}"
    proof (rule set_eqI)
      fix a
      have "a \<in> dom (bo_heap ?D) \<longleftrightarrow> a \<in> dom (bo_heap (bm_delete m t)) \<and>
          bo_name (the (bo_heap (bm_delete m t) a)) \<notin> set ts - {0}" using ih by blast
      then show "a \<in> dom (bo_heap ?D) \<longleftrightarrow>
          a \<in> {a \<in> dom (bo_heap m). bo_name (the (bo_heap m a)) \<notin> set (t # ts) - {0}}"
        using dm [of a] d(3) [of a] False by (cases "a \<in> dom (bo_heap (bm_delete m t))") auto
    qed
    moreover have "\<forall>a \<in> dom (bo_heap ?D). bo_heap ?D a = bo_heap m a"
      using ih d(3) by (metis (no_types, lifting) mem_Collect_eq)
    ultimately show ?thesis unfolding e using ih d(4) False by (auto simp: fun_eq_iff)
  qed (use Cons in auto)
qed auto


subsection \<open>Every entry point keeps the invariant\<close>

lemma buffers_ok_error [simp]: "buffers_ok (ogles_error c e) = buffers_ok c"
  by (simp add: ogles_error_def buffers_ok_def)

lemma ogles_error_frame [simp]:
  "c_arrays (ogles_error c e) = c_arrays c" "c_buffers (ogles_error c e) = c_buffers c"
  by (simp_all add: ogles_error_def)

lemma bo_ptrs_texture:
  "i < length (am_texture a) \<Longrightarrow> ar_bo x = p \<Longrightarrow> set_option p \<subseteq> bo_ptrs a \<Longrightarrow>
   bo_ptrs (a\<lparr>am_texture := (am_texture a)[i := x]\<rparr>) \<subseteq> bo_ptrs a"
  using set_update_subset_insert [of "am_texture a" i x] by (fastforce simp: bo_ptrs_def)

lemma array_init_bo [simp]: "ar_bo (array_init a sz ty st ptr bo n) = bo"
  by (simp add: array_init_def Let_def)

lemma buffers_ok_upd:
  assumes "buffers_ok c" "bo_ptrs (f (c_arrays c)) \<subseteq> bo_ptrs (c_arrays c)"
    "length (am_texture (f (c_arrays c))) = length (am_texture (c_arrays c))"
    "am_activeTexture (f (c_arrays c)) < 2"
  shows "buffers_ok (upd_arrays f c)"
  using assms by (auto simp: buffers_ok_def upd_arrays_def)

lemma bo_ptrs_upd:
  assumes "set_option (ar_bo x) \<subseteq> bo_ptrs a"
  shows "bo_ptrs (a\<lparr>am_vertex := x\<rparr>) \<subseteq> bo_ptrs a" "bo_ptrs (a\<lparr>am_color := x\<rparr>) \<subseteq> bo_ptrs a"
    "bo_ptrs (a\<lparr>am_normal := x\<rparr>) \<subseteq> bo_ptrs a"
  using assms by (auto simp: bo_ptrs_def)

lemma bo_ptrs_own:
  "set_option (array_buffer a) \<subseteq> bo_ptrs a" "set_option (ar_bo (am_vertex a)) \<subseteq> bo_ptrs a"
  "set_option (ar_bo (am_color a)) \<subseteq> bo_ptrs a" "set_option (ar_bo (am_normal a)) \<subseteq> bo_ptrs a"
  "i < length (am_texture a) \<Longrightarrow> set_option (ar_bo (am_texture a ! i)) \<subseteq> bo_ptrs a"
  by (auto simp: bo_ptrs_def)

lemma bo_ptrs_active [simp]: "bo_ptrs (a\<lparr>am_activeTexture := i\<rparr>) = bo_ptrs a"
  by (simp add: bo_ptrs_def)

lemma pointers_keep:
  assumes "buffers_ok c"
  shows "buffers_ok (glVertexPointer c sz ty st ptr)" "buffers_ok (glColorPointer c sz ty st ptr)"
    "buffers_ok (glNormalPointer c ty st ptr)" "buffers_ok (glTexCoordPointer c sz ty st ptr)"
    "buffers_ok (enableDisableClientState c arr en)" "buffers_ok (glClientActiveTexture c tx)"
proof -
  have at: "am_activeTexture (c_arrays c) < 2" "length (am_texture (c_arrays c)) = 2"
    using assms by (simp_all add: buffers_ok_def)
  have own: "array_buffer (c_arrays c) = Some x \<Longrightarrow> x \<in> bo_ptrs (c_arrays c)" for x
    by (simp add: bo_ptrs_def)
  note upd = buffers_ok_upd [OF assms] bo_ptrs_upd bo_ptrs_texture bo_ptrs_own
  show "buffers_ok (glVertexPointer c sz ty st ptr)" "buffers_ok (glColorPointer c sz ty st ptr)"
    "buffers_ok (glNormalPointer c ty st ptr)"
    using at assms own
    by (auto simp: glVertexPointer_def glColorPointer_def glNormalPointer_def intro!: upd)
  show "buffers_ok (glTexCoordPointer c sz ty st ptr)"
    using at assms by (simp add: glTexCoordPointer_def Let_def buffers_ok_upd
        bo_ptrs_texture [OF _ array_init_bo bo_ptrs_own(1)])
  show "buffers_ok (enableDisableClientState c arr en)"
    using at assms by (simp add: enableDisableClientState_def Let_def
        buffers_ok_upd bo_ptrs_upd bo_ptrs_own bo_ptrs_texture [OF _ refl])
  show "buffers_ok (glClientActiveTexture c tx)"
    using at assms by (auto simp: glClientActiveTexture_def intro!: buffers_ok_upd)
qed

lemma bindBuffer_keeps:
  assumes "buffers_ok c"
  shows "buffers_ok (glBindBuffer c target buffer)"
proof -
  obtain a m where b: "bm_bind (c_buffers c) buffer = (a, m)" by force
  have "bo_ptrs (x\<lparr>array_buffer := p\<rparr>) \<subseteq> bo_ptrs x \<union> set_option p"
    "bo_ptrs (x\<lparr>element_array_buffer := p\<rparr>) \<subseteq> bo_ptrs x \<union> set_option p" for x p
    by (auto simp: bo_ptrs_def)
  note ptr = this
  show ?thesis
  proof (cases "buffer = 0")
    case True
    then show ?thesis using assms ptr [of None "c_arrays c"]
      by (auto simp: glBindBuffer_def upd_arrays_def buffers_ok_def)
  next
    case False
    have "mgr_ok (c_buffers c)" using assms by (simp add: buffers_ok_def)
    note m = bind_ok [OF this False b]
    then show ?thesis using assms False b ptr [of "Some a" "c_arrays c"]
      by (auto simp: glBindBuffer_def upd_arrays_def buffers_ok_def) blast+
  qed
qed

lemma heap_update_ok:
  assumes "mgr_ok m" "bo_heap m a = Some bo" "bo_ok bo'" "bo_name bo' = bo_name bo"
  shows "mgr_ok (m\<lparr>bo_heap := (bo_heap m)(a \<mapsto> bo')\<rparr>)"
proof -
  have "kv_valueFor (mBuffers m) k = Some a \<Longrightarrow> k = bo_name bo" for k
    using assms(1,2) by (fastforce simp: mgr_ok_def)
  moreover have "a < bo_next m" using assms(1,2) by (auto simp: mgr_ok_def not_less [symmetric])
  ultimately show ?thesis using assms by (auto simp: mgr_ok_def)
qed

lemma bo_okD: "mgr_ok m \<Longrightarrow> bo_heap m a = Some bo \<Longrightarrow> bo_ok bo"
  by (force simp: mgr_ok_def)

lemma memcpy_in_bounds:
  "off + n \<le> length d \<Longrightarrow> \<exists>d'. bo_memcpy d off src n = Some d' \<and> length d' = length d \<and>
     (\<forall>i < length d. d' ! i = (if off \<le> i \<and> i < off + n then Some (src (i - off)) else d ! i))"
  by (auto simp: bo_memcpy_def nth_append)

lemma write_store_ok:
  assumes "mgr_ok (c_buffers c)" "bo_heap (c_buffers c) a = Some bo" "off + n \<le> length (bo_data bo)"
  shows "\<exists>d. write_store c a off src n = Some (c\<lparr>c_buffers := (c_buffers c)\<lparr>bo_heap :=
            (bo_heap (c_buffers c))(a \<mapsto> bo\<lparr>bo_data := d\<rparr>)\<rparr>\<rparr>) \<and> length d = length (bo_data bo) \<and>
     (\<forall>i < length d. d ! i = (if off \<le> i \<and> i < off + n then Some (src (i - off)) else bo_data bo ! i)) \<and>
     mgr_ok ((c_buffers c)\<lparr>bo_heap := (bo_heap (c_buffers c))(a \<mapsto> bo\<lparr>bo_data := d\<rparr>)\<rparr>)"
proof -
  obtain d where d: "bo_memcpy (bo_data bo) off src n = Some d" "length d = length (bo_data bo)"
    "\<forall>i < length (bo_data bo). d ! i = (if off \<le> i \<and> i < off + n then Some (src (i - off)) else bo_data bo ! i)"
    using memcpy_in_bounds [OF assms(3)] by blast
  have "bo_ok (bo\<lparr>bo_data := d\<rparr>)" using bo_okD [OF assms(1,2)] d(2) by (simp add: bo_ok_def)
  from heap_update_ok [OF assms(1,2) this] show ?thesis
    using d assms(2) by (auto simp: write_store_def)
qed

text \<open>What \<^verbatim>\<open>glBufferData\<close> does to the bound buffer.\<close>

definition stored :: "array_context \<Rightarrow> nat \<Rightarrow> buffer_t" where
  "stored c a = the (bo_heap (c_buffers c) a)"

lemma allocateStore_ok:
  assumes "mgr_ok m" "bo_heap m a = Some bo" "0 \<le> sz"
  shows "\<exists>r m' bo'. bm_allocateStore al m a sz usage = Some (r, m') \<and>
     (if sz \<noteq> bo_size bo \<and> \<not> al sz then r \<noteq> 0 \<and> m' = m
      else r = 0 \<and> m' = m\<lparr>bo_heap := (bo_heap m)(a \<mapsto> bo')\<rparr> \<and> bo_ok bo' \<and> bo_name bo' = bo_name bo \<and>
           bo_size bo' = sz \<and> bo_usage bo' = usage)"
  using assms bo_okD [OF assms(1,2)] by (auto simp: bm_allocateStore_def bo_ok_def)

lemma unbind_ptrs:
  assumes "bo_ptrs a \<subseteq> dom (bo_heap m)"
  shows "bo_ptrs (unbind_name m t a) = {p \<in> bo_ptrs a. t = 0 \<or> bo_name (the (bo_heap m p)) \<noteq> t}"
proof -
  have u: "set_option (unbind_ptr m t p) = {q \<in> set_option p. bo_name (the (bo_heap m q)) \<noteq> t}"
    if "set_option p \<subseteq> dom (bo_heap m)" for p
    using that by (auto simp: unbind_ptr_def split: option.splits)
  have "\<forall>x \<in> set (am_texture a). set_option (ar_bo x) \<subseteq> dom (bo_heap m)"
    using assms by (auto simp: bo_ptrs_def)
  then show ?thesis using assms
    by (auto simp: bo_ptrs_def unbind_name_def unbind_array_def u)
qed

lemma unbind_all:
  assumes "bo_ptrs a \<subseteq> dom (bo_heap m)"
  shows "bo_ptrs (fold (unbind_name m) ts a) = {p \<in> bo_ptrs a. bo_name (the (bo_heap m p)) \<notin> set ts - {0}} \<and>
    length (am_texture (fold (unbind_name m) ts a)) = length (am_texture a) \<and>
    am_activeTexture (fold (unbind_name m) ts a) = am_activeTexture a"
  using assms
proof (induction ts arbitrary: a)
  case (Cons t ts)
  note u = unbind_ptrs [OF Cons.prems, of t]
  have "bo_ptrs (unbind_name m t a) \<subseteq> dom (bo_heap m)" using u Cons.prems by auto
  from Cons.IH [OF this] u show ?case by (auto simp: unbind_name_def)
qed auto

lemma deleteBuffers_keeps:
  assumes "buffers_ok c"
  shows "buffers_ok (glDeleteBuffers c n buffers)"
proof (cases "n < 0")
  case False
  let ?ts = "take (nat n) buffers"
  have m: "mgr_ok (c_buffers c)" and p: "bo_ptrs (c_arrays c) \<subseteq> dom (bo_heap (c_buffers c))"
    using assms by (auto simp: buffers_ok_def)
  define m' where "m' = del_nonzero bm_delete ?ts (c_buffers c)"
  note d = deleteBuffers_ok [OF m, of ?ts, folded m'_def]
  have "mgr_ok (m'\<lparr>bm_tokenizer := recycleTokens (bm_tokenizer m') n buffers\<rparr>)"
  proof (rule mgr_ok_tokens)
    show "mgr_ok m'" using d by blast
    then have "runs_ok (bm_tokenizer m')" by (simp add: mgr_ok_def)
    then show "runs_ok (recycleTokens (bm_tokenizer m') n buffers)"
      using tokenizer.release_nonzero_spec by (simp add: recycleTokens_def)
  qed
  then show ?thesis using assms False unbind_all [OF p, of ?ts] d p
    by (auto simp: glDeleteBuffers_def upd_arrays_def buffers_ok_def bm_deleteBuffers_def Let_def m'_def [symmetric])
qed (use assms in \<open>simp add: glDeleteBuffers_def\<close>)

lemma bound_live: "buffers_ok c \<Longrightarrow> bound_buffer c target = Some a \<Longrightarrow> \<exists>bo. bo_heap (c_buffers c) a = Some bo"
  by (auto simp: buffers_ok_def bound_buffer_def bo_ptrs_def split: if_splits)

lemma bufferData_returns:
  assumes "buffers_ok c"
  shows "\<exists>c'. glBufferData al c target sz data usage = Some c' \<and> buffers_ok c'"
proof (cases "(target \<noteq> GL_ARRAY_BUFFER \<and> target \<noteq> GL_ELEMENT_ARRAY_BUFFER) \<or> sz < 0 \<or>
    (usage \<noteq> GL_STATIC_DRAW \<and> usage \<noteq> GL_DYNAMIC_DRAW) \<or> bound_buffer c target = None")
  case True
  then show ?thesis using assms by (auto simp: glBufferData_def)
next
  case False
  then obtain a where a: "bound_buffer c target = Some a" by auto
  obtain bo where bo: "bo_heap (c_buffers c) a = Some bo" using bound_live [OF assms a] by blast
  have m: "mgr_ok (c_buffers c)" using assms by (simp add: buffers_ok_def)
  obtain r m' bo' where al: "bm_allocateStore al (c_buffers c) a sz usage = Some (r, m')"
    and cs: "if sz \<noteq> bo_size bo \<and> \<not> al sz then r \<noteq> 0 \<and> m' = c_buffers c
      else r = 0 \<and> m' = (c_buffers c)\<lparr>bo_heap := (bo_heap (c_buffers c))(a \<mapsto> bo')\<rparr> \<and> bo_ok bo' \<and>
        bo_name bo' = bo_name bo \<and> bo_size bo' = sz \<and> bo_usage bo' = usage"
    using allocateStore_ok [OF m bo, of sz al usage] False by fastforce
  show ?thesis
  proof (cases "r = 0")
    case True
    then have m': "m' = (c_buffers c)\<lparr>bo_heap := (bo_heap (c_buffers c))(a \<mapsto> bo')\<rparr>" "bo_ok bo'"
      "bo_name bo' = bo_name bo" "bo_size bo' = sz" using cs by (auto split: if_splits)
    have mok: "mgr_ok m'" unfolding m'(1) using heap_update_ok [OF m bo m'(2,3)] .
    have ok: "buffers_ok (c\<lparr>c_buffers := m'\<rparr>)" using assms mok m'(1) by (auto simp: buffers_ok_def)
    show ?thesis
    proof (cases data)
      case None
      then show ?thesis using False a al True ok by (auto simp: glBufferData_def)
    next
      case (Some src)
      have "0 + nat sz \<le> length (bo_data bo')" using m' False by (auto simp: bo_ok_def)
      then obtain d where "write_store (c\<lparr>c_buffers := m'\<rparr>) a 0 src (nat sz) =
          Some (c\<lparr>c_buffers := m'\<lparr>bo_heap := (bo_heap m')(a \<mapsto> bo'\<lparr>bo_data := d\<rparr>)\<rparr>\<rparr>)"
        "mgr_ok (m'\<lparr>bo_heap := (bo_heap m')(a \<mapsto> bo'\<lparr>bo_data := d\<rparr>)\<rparr>)"
        using write_store_ok [of "c\<lparr>c_buffers := m'\<rparr>" a bo' 0 "nat sz" src] mok m'(1) by auto
      then show ?thesis using False a al True Some ok by (auto simp: glBufferData_def buffers_ok_def)
    qed
  qed (use False a al assms in \<open>auto simp: glBufferData_def\<close>)
qed

lemma s64_id: "0 \<le> x \<Longrightarrow> x < 2 ^ 63 \<Longrightarrow> s64 x = x"
  by (simp add: s64_def)

lemma bufferSubData_returns:
  assumes "buffers_ok c" "offset + sz < 2 ^ 63"
  shows "\<exists>c'. glBufferSubData c target offset sz data = Some c' \<and> buffers_ok c'"
proof (cases "(target \<noteq> GL_ARRAY_BUFFER \<and> target \<noteq> GL_ELEMENT_ARRAY_BUFFER) \<or> offset < 0 \<or> sz < 0 \<or>
    data = None \<or> bound_buffer c target = None")
  case True
  then show ?thesis using assms by (auto simp: glBufferSubData_def)
next
  case False
  then obtain a where a: "bound_buffer c target = Some a" by auto
  obtain bo where bo: "bo_heap (c_buffers c) a = Some bo" using bound_live [OF assms(1) a] by blast
  have m: "mgr_ok (c_buffers c)" using assms by (simp add: buffers_ok_def)
  have s: "s64 (offset + sz) = offset + sz" using False assms by (intro s64_id) auto
  show ?thesis
  proof (cases "offset + sz > bo_size bo")
    case False
    then have "nat offset + nat sz \<le> length (bo_data bo)"
      using bo_okD [OF m bo] \<open>\<not> (_ \<or> _)\<close> by (auto simp: bo_ok_def)
    from write_store_ok [OF m bo this, of "the data"] obtain d where
      "write_store c a (nat offset) (the data) (nat sz) =
        Some (c\<lparr>c_buffers := (c_buffers c)\<lparr>bo_heap := (bo_heap (c_buffers c))(a \<mapsto> bo\<lparr>bo_data := d\<rparr>)\<rparr>\<rparr>)"
      "mgr_ok ((c_buffers c)\<lparr>bo_heap := (bo_heap (c_buffers c))(a \<mapsto> bo\<lparr>bo_data := d\<rparr>)\<rparr>)" by blast
    then show ?thesis using False \<open>\<not> (_ \<or> _)\<close> a bo s assms by (auto simp: glBufferSubData_def buffers_ok_def)
  qed (use False a bo s assms in \<open>auto simp: glBufferSubData_def\<close>)
qed

text \<open>A state of the arrays and buffers that a sequence of calls can produce. Names are generated while
  fewer than \<open>2 ^ 32 - 1\<close> are in use.\<close>

inductive buf_reachable :: "(int \<Rightarrow> bool) \<Rightarrow> array_context \<Rightarrow> bool" for al where
  init: "buf_reachable al (ogles_init_array vc array_context_zero)"
| vertex: "buf_reachable al c \<Longrightarrow> buf_reachable al (glVertexPointer c sz ty st ptr)"
| color: "buf_reachable al c \<Longrightarrow> buf_reachable al (glColorPointer c sz ty st ptr)"
| normal: "buf_reachable al c \<Longrightarrow> buf_reachable al (glNormalPointer c ty st ptr)"
| texcoord: "buf_reachable al c \<Longrightarrow> buf_reachable al (glTexCoordPointer c sz ty st ptr)"
| enable: "buf_reachable al c \<Longrightarrow> buf_reachable al (enableDisableClientState c arr en)"
| active: "buf_reachable al c \<Longrightarrow> buf_reachable al (glClientActiveTexture c tx)"
| bind: "buf_reachable al c \<Longrightarrow> buf_reachable al (glBindBuffer c target name)"
| data: "buf_reachable al c \<Longrightarrow> glBufferData al c target sz src usage = Some c' \<Longrightarrow> buf_reachable al c'"
| subdata: "buf_reachable al c \<Longrightarrow> off + sz < 2 ^ 63 \<Longrightarrow> glBufferSubData c target off sz src = Some c' \<Longrightarrow>
    buf_reachable al c'"
| delete: "buf_reachable al c \<Longrightarrow> buf_reachable al (glDeleteBuffers c n names)"
| gen: "buf_reachable al c \<Longrightarrow> card (tokens (bm_tokenizer (c_buffers c))) + nat n < 2 ^ 32 \<Longrightarrow>
    buf_reachable al (snd (glGenBuffers c n))"

lemma init_buffers_ok: "buffers_ok (ogles_init_array vc array_context_zero)"
  using mgr_ok_init
  by (simp add: ogles_init_array_def array_context_zero_def upd_arrays_def Let_def buffers_ok_def
      bo_ptrs_def zero_array_def)

lemma genBuffers_keeps:
  assumes "buffers_ok c" "card (tokens (bm_tokenizer (c_buffers c))) + nat n < 2 ^ 32"
  shows "buffers_ok (snd (glGenBuffers c n))"
proof -
  obtain ts tk where g: "getToken (bm_tokenizer (c_buffers c)) n = (ts, tk)" by force
  have r: "runs_ok (bm_tokenizer (c_buffers c))" using assms(1) by (simp add: buffers_ok_def mgr_ok_def)
  from tokenizer.acquire_n_spec [OF r assms(2)] g have "runs_ok tk" by (simp add: getToken_def)
  then show ?thesis using assms(1) g mgr_ok_tokens
    by (auto simp: glGenBuffers_def buffers_ok_def)
qed

lemma buf_reachable_ok: "buf_reachable al c \<Longrightarrow> buffers_ok c"
proof (induction rule: buf_reachable.induct)
  case (data c target sz src usage c')
  then show ?case using bufferData_returns [of c al target sz src usage] by auto
next
  case (subdata c off sz target src c')
  then show ?case using bufferSubData_returns [of c off sz target src] by auto
qed (simp_all add: init_buffers_ok pointers_keep bindBuffer_keeps deleteBuffers_keeps genBuffers_keeps)

text \<open>C10. Memory safety of buffer objects. In every state that calls of the client-array and
  buffer entry points produce, no pointer the context keeps (bound buffers and the buffers of the
  vertex, normal, color and texture arrays) dangles, every buffer object is registered under its own
  name and its storage has the size it records; so \<^verbatim>\<open>glBufferData\<close> always completes, and
  \<^verbatim>\<open>glBufferSubData\<close> does whenever \<^verbatim>\<open>offset+size\<close> does not overflow.\<close>

theorem buffer_objects_safe:
  assumes "buf_reachable al c"
  shows "bo_ptrs (c_arrays c) \<subseteq> dom (bo_heap (c_buffers c)) \<and>
    (\<forall>a bo. bo_heap (c_buffers c) a = Some bo \<longrightarrow>
       kv_valueFor (mBuffers (c_buffers c)) (bo_name bo) = Some a \<and> int (length (bo_data bo)) = bo_size bo) \<and>
    glBufferData al c target sz src usage \<noteq> None \<and>
    (off + sz < 2 ^ 63 \<longrightarrow> glBufferSubData c target off sz src \<noteq> None)"
proof -
  have ok: "buffers_ok c" using assms by (rule buf_reachable_ok)
  then have "mgr_ok (c_buffers c)" by (simp add: buffers_ok_def)
  then have "\<forall>a bo. bo_heap (c_buffers c) a = Some bo \<longrightarrow>
       kv_valueFor (mBuffers (c_buffers c)) (bo_name bo) = Some a \<and> bo_ok bo"
    using bo_okD by (auto simp: mgr_ok_def)
  then show ?thesis
    using ok bufferData_returns [OF ok, of al target sz src usage]
      bufferSubData_returns [OF ok, of off sz target src] by (auto simp: buffers_ok_def bo_ok_def)
qed

text \<open>Two buffers, bound to the two targets.\<close>

definition demo_context :: array_context where
  "demo_context = glBindBuffer (glBindBuffer (ogles_init_array True array_context_zero) GL_ARRAY_BUFFER 7)
     GL_ELEMENT_ARRAY_BUFFER 9"

lemma demo_reachable: "buf_reachable al demo_context"
  unfolding demo_context_def by (intro buf_reachable.bind buf_reachable.init)

lemma demo_parts:
  "array_buffer (c_arrays demo_context) = Some 0" "element_array_buffer (c_arrays demo_context) = Some 1"
  "bo_ptrs (c_arrays demo_context) = {0, 1}"
  "map_option bo_name (bo_heap (c_buffers demo_context) 0) = Some 7"
  "map_option bo_name (bo_heap (c_buffers demo_context) 1) = Some 9"
  by (simp_all add: demo_context_def glBindBuffer_def bm_bind_def ogles_init_array_def array_context_zero_def
      EGLBufferObjectManager_init_def upd_arrays_def Let_def kv_put_law zero_array_def bo_ptrs_def insert_commute)

lemma demo_bound: "bound_buffer demo_context GL_ARRAY_BUFFER = Some 0"
  by (simp add: bound_buffer_def demo_parts)

theorem buffer_objects_safe_witness:
  "bo_ptrs (c_arrays demo_context) \<subseteq> dom (bo_heap (c_buffers demo_context)) \<and>
   bo_ptrs (c_arrays demo_context) = {0, 1} \<and>
   glBufferData (\<lambda>_. True) demo_context GL_ARRAY_BUFFER 4 (Some (\<lambda>i. 5)) GL_STATIC_DRAW \<noteq> None"
proof -
  show ?thesis
    using demo_parts buffer_objects_safe [OF demo_reachable [of "\<lambda>_. True"], of GL_ARRAY_BUFFER 4 "Some (\<lambda>i. 5)" GL_STATIC_DRAW]
    by simp
qed



text \<open>C12. Deleting buffers. After \<^verbatim>\<open>glDeleteBuffers\<close> every non-zero name given is unknown to
  the manager and free for reuse, no pointer of the context refers to a deleted buffer, and every
  other buffer, name and pointer is as before.\<close>

theorem delete_buffers_exact:
  assumes "buf_reachable al c" "0 \<le> n" "ts = take (nat n) names" "c' = glDeleteBuffers c n names"
  shows "(\<forall>t. kv_valueFor (mBuffers (c_buffers c')) t =
           (if t \<in> set ts - {0} then None else kv_valueFor (mBuffers (c_buffers c)) t)) \<and>
    tokens (bm_tokenizer (c_buffers c')) = tokens (bm_tokenizer (c_buffers c)) - (set ts - {0}) \<and>
    (\<forall>a. bo_heap (c_buffers c') a = (case bo_heap (c_buffers c) a of None \<Rightarrow> None
        | Some bo \<Rightarrow> if bo_name bo \<in> set ts - {0} then None else Some bo)) \<and>
    bo_ptrs (c_arrays c') = {a \<in> bo_ptrs (c_arrays c). bo_heap (c_buffers c') a \<noteq> None}"
proof -
  have ok: "buffers_ok c" using assms(1) by (rule buf_reachable_ok)
  then have m: "mgr_ok (c_buffers c)" and p: "bo_ptrs (c_arrays c) \<subseteq> dom (bo_heap (c_buffers c))"
    by (auto simp: buffers_ok_def)
  define m' where "m' = del_nonzero bm_delete ts (c_buffers c)"
  note d = deleteBuffers_ok [OF m, of ts, folded m'_def]
  have heap: "bo_heap m' a = (case bo_heap (c_buffers c) a of None \<Rightarrow> None
        | Some bo \<Rightarrow> if bo_name bo \<in> set ts - {0} then None else Some bo)" for a
  proof (cases "a \<in> dom (bo_heap m')")
    case True
    then have "bo_heap m' a = bo_heap (c_buffers c) a" "bo_name (the (bo_heap (c_buffers c) a)) \<notin> set ts - {0}"
      using d by blast+
    then show ?thesis using True by (auto split: option.splits)
  next
    case False
    then have "bo_heap m' a = None" by auto
    moreover have "a \<notin> dom (bo_heap (c_buffers c)) \<or> bo_name (the (bo_heap (c_buffers c) a)) \<in> set ts - {0}"
      using False d by blast
    ultimately show ?thesis by (auto split: option.splits)
  qed
  have c': "c_buffers c' = m'\<lparr>bm_tokenizer := recycleTokens (bm_tokenizer m') n names\<rparr>"
    "c_arrays c' = fold (unbind_name (c_buffers c)) ts (c_arrays c)"
    using assms(2-4) by (simp_all add: glDeleteBuffers_def upd_arrays_def bm_deleteBuffers_def Let_def m'_def)
  have "mgr_ok m'" using d by blast
  then have "runs_ok (bm_tokenizer m')" by (simp add: mgr_ok_def)
  then have "tokens (bm_tokenizer (c_buffers c')) = tokens (bm_tokenizer (c_buffers c)) - (set ts - {0})"
    using tokenizer.release_nonzero_spec [of "bm_tokenizer m'" ts] d assms(3) by (simp add: c' recycleTokens_def)
  moreover have "bo_ptrs (c_arrays c') = {a \<in> bo_ptrs (c_arrays c). bo_heap (c_buffers c') a \<noteq> None}"
    using unbind_all [OF p, of ts] p by (auto simp: c' heap split: option.splits)
  ultimately show ?thesis using d heap by (auto simp: c')
qed

theorem delete_buffers_exact_witness:
  "bo_ptrs (c_arrays (glDeleteBuffers demo_context 2 [7, 0])) = {1} \<and>
   bo_heap (c_buffers (glDeleteBuffers demo_context 2 [7, 0])) 0 = None"
proof -
  note p = demo_parts(3) and h = demo_parts(4,5)
  note d = delete_buffers_exact [OF demo_reachable, of 2 "[7, 0]" "[7, 0]" "glDeleteBuffers demo_context 2 [7, 0]"]
  have "bo_heap (c_buffers (glDeleteBuffers demo_context 2 [7, 0])) 0 = None"
    "bo_heap (c_buffers (glDeleteBuffers demo_context 2 [7, 0])) 1 \<noteq> None"
    using d h by (auto split: option.splits)
  then show ?thesis using d p by auto
qed

text \<open>The size check of \<^verbatim>\<open>glBufferSubData\<close> passes when the 64-bit sum overflows, and the copy then
  leaves the storage.\<close>

lemma subdata_overflow_unchecked:
  "glBufferSubData demo_context GL_ARRAY_BUFFER (2 ^ 63 - 1) 1 (Some (\<lambda>i. 0)) = None"
  by (simp add: glBufferSubData_def bound_buffer_def s64_def write_store_def bo_memcpy_def
      demo_context_def glBindBuffer_def bm_bind_def ogles_init_array_def array_context_zero_def
      EGLBufferObjectManager_init_def upd_arrays_def Let_def kv_put_law zero_array_def)

end
