(* ===== verification/TextureObjects.thy ===== *)
theory TextureObjects
  imports BufferObjects Fixed
begin

text \<open>
  Texture objects: \<^verbatim>\<open>EGLTextureObject\<close> and \<^verbatim>\<open>EGLSurfaceManager\<close> of
  \<^verbatim>\<open>swrender/TextureObjectManager.cpp\<close>. The storage behind \<^verbatim>\<open>GGLSurface::data\<close> is kept as its
  origin: no storage, a block of a given size from \<^verbatim>\<open>malloc\<close> that the texture owns, or memory of
  somebody else. A mip level that cannot be allocated is decided by the parameter \<open>al\<close>. Releasing
  memory that the texture does not own is \<^term>\<open>None\<close>.
\<close>

subsection \<open>State\<close>

datatype surf_data = No_data | Owned nat | Foreign nat

record surface_t =
  s_width :: nat
  s_height :: nat
  s_stride :: int
  s_data :: surf_data
  s_format :: nat
  s_compressedFormat :: int

definition zero_surface :: surface_t where
  "zero_surface = \<lparr>s_width = 0, s_height = 0, s_stride = 0, s_data = No_data, s_format = 0, s_compressedFormat = 0\<rparr>"

record tex_obj =
  mSize :: nat
  mMipmaps :: "surface_t list option"
  mNumExtraLod :: int
  mIsComplete :: bool
  surface :: surface_t
  wraps :: nat
  wrapt :: nat
  min_filter :: nat
  mag_filter :: nat
  internalformat :: nat
  crop_rect :: "int list"
  generate_mipmap :: bool
  direct :: bool
  native_buffer :: "nat option"

abbreviation (input) GL_REPEAT :: nat where "GL_REPEAT \<equiv> 0x2901"
abbreviation (input) GL_LINEAR :: nat where "GL_LINEAR \<equiv> 0x2601"

subsection \<open>Operations\<close>

definition tex_init :: "nat \<Rightarrow> tex_obj" where
  "tex_init msize =
     \<lparr>mSize = msize, mMipmaps = None, mNumExtraLod = 0, mIsComplete = False, surface = zero_surface,
      wraps = GL_REPEAT, wrapt = GL_REPEAT, min_filter = GL_LINEAR, mag_filter = GL_LINEAR,
      internalformat = 0, crop_rect = [0, 0, 0, 0], generate_mipmap = False, direct = False,
      native_buffer = None\<rparr>"

definition new_EGLTextureObject :: tex_obj where
  "new_EGLTextureObject = tex_init 0"

definition tex_copyParameters :: "tex_obj \<Rightarrow> tex_obj \<Rightarrow> tex_obj" where
  "tex_copyParameters t old =
     t\<lparr>wraps := wraps old, wrapt := wrapt old, min_filter := min_filter old, mag_filter := mag_filter old,
       crop_rect := crop_rect old, generate_mipmap := generate_mipmap old, direct := direct old\<rparr>"

definition tex_allocateMipmaps :: "(nat \<Rightarrow> bool) \<Rightarrow> tex_obj \<Rightarrow> int \<times> tex_obj" where
  "tex_allocateMipmaps al t =
     (if s_data (surface t) = No_data then (NO_INIT, t)
      else
        let w = int (s_width (surface t)); h = int (s_height (surface t));
            numLods = 31 - gglClz (max w h)
        in if numLods \<le> 0 then (NO_ERROR, t)
           else if \<not> al (nat numLods) then (NO_MEMORY, t\<lparr>mMipmaps := None\<rparr>)
           else (NO_ERROR, t\<lparr>mMipmaps := Some (replicate (nat numLods) zero_surface), mNumExtraLod := numLods\<rparr>))"

definition tex_freeMipmaps :: "tex_obj \<Rightarrow> tex_obj" where
  "tex_freeMipmaps t =
     (case mMipmaps t of None \<Rightarrow> t | Some _ \<Rightarrow> t\<lparr>mMipmaps := None, mNumExtraLod := 0\<rparr>)"

definition mip_index :: "tex_obj \<Rightarrow> int \<Rightarrow> nat option" where
  "mip_index t lod =
     (if lod \<le> 0 \<or> mMipmaps t = None then None else Some (nat (min (lod - 1) (mNumExtraLod t - 1))))"

definition tex_mip :: "tex_obj \<Rightarrow> int \<Rightarrow> surface_t" where
  "tex_mip t lod =
     (case mip_index t lod of None \<Rightarrow> surface t | Some k \<Rightarrow> the (mMipmaps t) ! k)"

definition tex_editMip :: "tex_obj \<Rightarrow> int \<Rightarrow> (surface_t \<Rightarrow> surface_t) \<Rightarrow> tex_obj" where
  "tex_editMip t lod f =
     (case mip_index t lod of
        None \<Rightarrow> t\<lparr>surface := f (surface t)\<rparr>
      | Some k \<Rightarrow> t\<lparr>mMipmaps := Some ((the (mMipmaps t))[k := f (the (mMipmaps t) ! k)])\<rparr>)"

definition free_ok :: "surf_data \<Rightarrow> bool" where
  "free_ok d \<longleftrightarrow> (case d of Foreign _ \<Rightarrow> False | _ \<Rightarrow> True)"

definition tex_setSurface :: "tex_obj \<Rightarrow> surface_t \<Rightarrow> (int \<times> tex_obj) option" where
  "tex_setSurface t s =
     (if mSize t \<noteq> 0 \<and> s_data (surface t) \<noteq> No_data \<and> \<not> free_ok (s_data (surface t)) then None
      else
        let t = t\<lparr>surface := s, internalformat := 0, native_buffer := None, crop_rect := [0, 0, 0, 0],
                 generate_mipmap := False, direct := True, mSize := 0\<rparr>;
            t = (if mMipmaps t \<noteq> None then tex_freeMipmaps t else t)
        in Some (NO_ERROR, t\<lparr>mIsComplete := True\<rparr>))"

definition tex_setImage :: "tex_obj \<Rightarrow> nat \<Rightarrow> nat \<times> nat \<times> int \<times> nat \<Rightarrow> (int \<times> tex_obj) option" where
  "tex_setImage t buf = (\<lambda>(w, h, st, fmt).
     case tex_setSurface t \<lparr>s_width = w, s_height = h, s_stride = st, s_data = No_data, s_format = fmt,
                            s_compressedFormat = 0\<rparr> of
       None \<Rightarrow> None
     | Some (_, t) \<Rightarrow> Some (NO_ERROR, t\<lparr>native_buffer := Some buf\<rparr>))"

text \<open>The completeness check at the end of \<^verbatim>\<open>reallocate\<close>: \<open>prev\<close> is the level above.\<close>

definition half :: "nat \<Rightarrow> nat" where
  "half n = (if n div 2 \<noteq> 0 then n div 2 else 1)"

fun tex_check_complete :: "nat \<Rightarrow> surface_t \<Rightarrow> surface_t list \<Rightarrow> bool" where
  "tex_check_complete fmt prev [] = True"
| "tex_check_complete fmt prev (m # ms) =
     (if s_format m \<noteq> fmt then False
      else if half (s_width prev) \<noteq> s_width m \<or> half (s_height prev) \<noteq> s_height m then False
      else tex_check_complete fmt m ms)"

definition tex_reallocate ::
  "(nat \<Rightarrow> bool) \<Rightarrow> tex_obj \<Rightarrow> int \<Rightarrow> nat \<Rightarrow> nat \<Rightarrow> int \<Rightarrow> nat \<Rightarrow> int \<Rightarrow> int \<Rightarrow> (int \<times> tex_obj) option" where
  "tex_reallocate al t level w h s format compressedFormat bpr =
     (let sz = nat (s32 (int h * bpr) mod 2 ^ 64);
          set_dims = (\<lambda>m. m\<lparr>s_width := w, s_height := h, s_stride := s, s_format := format,
                            s_compressedFormat := compressedFormat\<rparr>)
      in if level = 0 then
           if sz \<noteq> mSize t \<or> s_data (surface t) = No_data then
             if mSize t \<noteq> 0 \<and> s_data (surface t) \<noteq> No_data \<and> \<not> free_ok (s_data (surface t)) then None
             else if \<not> al sz then
               Some (NO_MEMORY, t\<lparr>surface := (surface t)\<lparr>s_data := No_data\<rparr>, mSize := 0, mIsComplete := False\<rparr>)
             else
               let t = t\<lparr>surface := set_dims ((surface t)\<lparr>s_data := Owned sz\<rparr>), mSize := sz\<rparr>;
                   t = (if mMipmaps t \<noteq> None then tex_freeMipmaps t else t)
               in Some (NO_ERROR, t\<lparr>mIsComplete := True\<rparr>)
           else
             let t = t\<lparr>surface := set_dims (surface t)\<rparr>;
                 t = (if mMipmaps t \<noteq> None then tex_freeMipmaps t else t)
             in Some (NO_ERROR, t\<lparr>mIsComplete := True\<rparr>)
         else
           let (err, t) = (if mMipmaps t = None then tex_allocateMipmaps al t else (NO_ERROR, t)) in
           if err \<noteq> NO_ERROR then Some (NO_MEMORY, t)
           else if s_data (tex_mip t level) \<noteq> No_data \<and> \<not> free_ok (s_data (tex_mip t level)) then None
           else if \<not> al sz then
             Some (NO_MEMORY, (tex_editMip t level (\<lambda>_. zero_surface))\<lparr>mIsComplete := False\<rparr>)
           else
             let t = tex_editMip t level (\<lambda>m. set_dims (m\<lparr>s_data := Owned sz\<rparr>))
             in Some (NO_ERROR, t\<lparr>mIsComplete := tex_check_complete (s_format (surface t)) (surface t)
                       (take (nat (mNumExtraLod t)) (case mMipmaps t of None \<Rightarrow> [] | Some ms \<Rightarrow> ms))\<rparr>))"

definition tex_setImageBits :: "tex_obj \<Rightarrow> nat \<Rightarrow> tex_obj" where
  "tex_setImageBits t vaddr = t\<lparr>surface := (surface t)\<lparr>s_data := (if vaddr = 0 then No_data else Foreign vaddr)\<rparr>\<rparr>"

subsection \<open>The texture manager\<close>

text \<open>\<^verbatim>\<open>sp<EGLTextureObject>\<close> is an address; the store keeps the object and its strong count.
  An operation that returns an \<^verbatim>\<open>sp\<close> has counted that reference.\<close>

record surface_manager =
  mTextures :: "(u32 \<times> nat) vectorImpl"
  tex_heap :: "nat \<rightharpoonup> tex_obj \<times> nat"
  tex_next :: nat

definition incStrong :: "surface_manager \<Rightarrow> nat \<Rightarrow> surface_manager" where
  "incStrong m a = (case tex_heap m a of None \<Rightarrow> m
     | Some (t, n) \<Rightarrow> m\<lparr>tex_heap := (tex_heap m)(a \<mapsto> (t, n + 1))\<rparr>)"

definition decStrong :: "surface_manager \<Rightarrow> nat \<Rightarrow> surface_manager" where
  "decStrong m a = (case tex_heap m a of None \<Rightarrow> m
     | Some (t, n) \<Rightarrow> m\<lparr>tex_heap := (if n \<le> 1 then (tex_heap m)(a := None) else (tex_heap m)(a \<mapsto> (t, n - 1)))\<rparr>)"

definition EGLSurfaceManager_init :: surface_manager where
  "EGLSurfaceManager_init = \<lparr>mTextures = vec_empty False, tex_heap = Map.empty, tex_next = 0\<rparr>"

text \<open>\<^verbatim>\<open>new EGLTextureObject()\<close>, held by one \<^verbatim>\<open>sp\<close> and entered into the table (a second one).\<close>

definition add_texture :: "surface_manager \<Rightarrow> u32 \<Rightarrow> tex_obj \<Rightarrow> nat \<times> surface_manager" where
  "add_texture m name t =
     (let a = tex_next m in
      (a, m\<lparr>mTextures := kv_put (mTextures m) name a, tex_heap := (tex_heap m)(a \<mapsto> (t, 2)), tex_next := a + 1\<rparr>))"

definition createTexture :: "surface_manager \<Rightarrow> u32 \<Rightarrow> nat option \<times> surface_manager" where
  "createTexture m name =
     (if kv_valueFor (mTextures m) name \<noteq> None then (None, m)
      else let (a, m) = add_texture m name new_EGLTextureObject in (Some a, m))"

definition removeTexture :: "surface_manager \<Rightarrow> u32 \<Rightarrow> nat option \<times> surface_manager" where
  "removeTexture m name =
     (case kv_valueFor (mTextures m) name of
        Some a \<Rightarrow>
          let m = incStrong m a; m = decStrong (m\<lparr>mTextures := kv_del (mTextures m) name\<rparr>) a in (Some a, m)
      | None \<Rightarrow> (None, m))"

definition replaceTexture :: "surface_manager \<Rightarrow> u32 \<Rightarrow> nat option \<times> surface_manager" where
  "replaceTexture m name =
     (case kv_valueFor (mTextures m) name of
        Some a \<Rightarrow>
         (case tex_heap m a of
            None \<Rightarrow> (None, m)
          | Some (old, refs) \<Rightarrow>
              if refs = 1 then (Some a, incStrong m a)
              else
                let m = decStrong (m\<lparr>mTextures := kv_del (mTextures m) name\<rparr>) a;
                    (b, m) = add_texture m name (tex_copyParameters new_EGLTextureObject old)
                in (Some b, m))
      | None \<Rightarrow> (None, m))"

definition remove_name :: "surface_manager \<Rightarrow> u32 \<Rightarrow> surface_manager" where
  "remove_name m t =
     (case kv_valueFor (mTextures m) t of
        Some a \<Rightarrow> decStrong (m\<lparr>mTextures := kv_del (mTextures m) t\<rparr>) a
      | None \<Rightarrow> m)"

definition deleteTextures :: "surface_manager \<Rightarrow> int \<Rightarrow> u32 list \<Rightarrow> surface_manager" where
  "deleteTextures m n ts = del_nonzero remove_name (take (nat n) ts) m"

definition get_texture :: "surface_manager \<Rightarrow> u32 \<Rightarrow> nat option \<times> surface_manager" where
  "get_texture m name =
     (case kv_valueFor (mTextures m) name of
        Some a \<Rightarrow> (Some a, incStrong m a)
      | None \<Rightarrow> (None, m))"

subsection \<open>Ownership of storage\<close>

fun owned_size :: "surf_data \<Rightarrow> nat" where
  "owned_size (Owned n) = n"
| "owned_size No_data = 0"
| "owned_size (Foreign a) = 0"

definition mips :: "tex_obj \<Rightarrow> surface_t list" where
  "mips t = (case mMipmaps t of None \<Rightarrow> [] | Some ms \<Rightarrow> ms)"

definition tex_ok :: "tex_obj \<Rightarrow> bool" where
  "tex_ok t \<longleftrightarrow> mSize t = owned_size (s_data (surface t)) \<and> mNumExtraLod t = int (length (mips t)) \<and>
     mMipmaps t \<noteq> Some [] \<and> (\<forall>m \<in> set (mips t). free_ok (s_data m)) \<and>
     (mMipmaps t \<noteq> None \<longrightarrow>
        int (length (mips t)) = 31 - gglClz (max (int (s_width (surface t))) (int (s_height (surface t)))))"

lemma tex_ok_new: "tex_ok new_EGLTextureObject"
  by (simp add: tex_ok_def mips_def new_EGLTextureObject_def tex_init_def zero_surface_def)

lemma tex_ok_copyParameters: "tex_ok t \<Longrightarrow> tex_ok (tex_copyParameters t old)"
  by (simp add: tex_ok_def mips_def tex_copyParameters_def)

lemma tex_ok_setSurface:
  assumes "tex_ok t" "\<forall>n. s_data s \<noteq> Owned n"
  shows "\<exists>t'. tex_setSurface t s = Some (NO_ERROR, t') \<and> tex_ok t' \<and> surface t' = s \<and> mIsComplete t'"
  using assms
  by (cases "mMipmaps t"; cases "s_data (surface t)"; cases "s_data s")
     (simp_all add: tex_setSurface_def tex_ok_def mips_def tex_freeMipmaps_def free_ok_def Let_def)

lemma free_ok_zero [simp]: "free_ok No_data" "free_ok (Owned n)"
  by (simp_all add: free_ok_def)

lemma mip_index_bound:
  assumes "tex_ok t" "mMipmaps t = Some ms" "1 \<le> level"
  shows "\<exists>k. mip_index t level = Some k \<and> k < length ms"
  using assms by (cases ms) (auto simp: tex_ok_def mips_def mip_index_def)

lemma tex_ok_editMip:
  assumes "tex_ok t" "mMipmaps t = Some ms" "1 \<le> level" "\<And>m. free_ok (s_data (f m))"
  shows "tex_ok (tex_editMip t level f) \<and> surface (tex_editMip t level f) = surface t \<and> free_ok (s_data (tex_mip t level))"
proof -
  obtain k where k: "mip_index t level = Some k" "k < length ms" using mip_index_bound [OF assms(1-3)] by blast
  have "\<forall>m \<in> set (ms[k := f (ms ! k)]). free_ok (s_data m)"
    using assms(1,2,4) set_update_subset_insert [of ms k "f (ms ! k)"] by (auto simp: tex_ok_def mips_def)
  moreover have "ms ! k \<in> set ms" using k by simp
  ultimately show ?thesis using assms(1,2) k by (simp add: tex_ok_def mips_def tex_editMip_def tex_mip_def)
qed

lemma numLods_log:
  assumes "0 < n" "n < 2 ^ 31"
  shows "\<exists>k. 31 - gglClz (int n) = int k \<and> 2 ^ k \<le> n \<and> n < 2 ^ Suc k"
proof -
  have "0 < int n" "int n < 2 ^ 31" using assms of_nat_less_iff [of n "2 ^ 31", where 'a = int] by simp_all
  from clz_top [OF this] obtain k where k: "gglClz (int n) = 31 - int k" "2 ^ k \<le> int n" "int n < 2 ^ Suc k" .
  then have "2 ^ k \<le> n" "n < 2 ^ Suc k"
    using of_nat_le_iff [of "2 ^ k" n, where 'a = int] of_nat_less_iff [of n "2 ^ Suc k", where 'a = int] by simp_all
  then show ?thesis using k(1) by auto
qed

lemma tex_ok_allocateMipmaps:
  assumes "tex_ok t" "mMipmaps t = None" "tex_allocateMipmaps al t = (err, t')"
    and "1 < max (s_width (surface t)) (s_height (surface t))" "max (s_width (surface t)) (s_height (surface t)) < 2 ^ 31"
  shows "tex_ok t' \<and> surface t' = surface t \<and> (err = NO_ERROR \<longrightarrow> mMipmaps t' \<noteq> None)"
proof -
  obtain k where k: "31 - gglClz (int (max (s_width (surface t)) (s_height (surface t)))) = int k"
    "max (s_width (surface t)) (s_height (surface t)) < 2 ^ Suc k"
    using numLods_log [OF _ assms(5)] assms(4) by auto
  have "k \<noteq> 0" if "M < 2 ^ Suc k" "1 < M" for M :: nat using that by (cases k) auto
  from this [OF k(2) assms(4)] have "k \<noteq> 0" .
  then show ?thesis using assms(1-3) k(1)
    by (auto simp: tex_allocateMipmaps_def tex_ok_def mips_def Let_def zero_surface_def of_nat_max split: if_splits option.splits)
qed

lemma tex_ok_reallocate:
  assumes ok: "tex_ok t" and lv: "0 \<le> level"
    and big: "level \<noteq> 0 \<Longrightarrow> 1 < max (s_width (surface t)) (s_height (surface t))"
             "max (s_width (surface t)) (s_height (surface t)) < 2 ^ 31"
  shows "\<exists>err t'. tex_reallocate al t level w h s format cf bpr = Some (err, t') \<and> tex_ok t'"
proof (cases "level = 0")
  case True
  define sz where "sz = nat (s32 (int h * bpr) mod 2 ^ 64)"
  define dims where "dims = (\<lambda>m :: surface_t. m\<lparr>s_width := w, s_height := h, s_stride := s, s_format := format, s_compressedFormat := cf\<rparr>)"
  define finish where "finish = (\<lambda>u. (if mMipmaps u \<noteq> None then tex_freeMipmaps u else u)\<lparr>mIsComplete := True\<rparr>)"
  have fin: "tex_ok (finish u)" if "mSize u = owned_size (s_data (surface u))" "mMipmaps u = None \<Longrightarrow> mNumExtraLod u = 0" for u
    using that by (cases "mMipmaps u") (simp_all add: finish_def tex_ok_def mips_def tex_freeMipmaps_def)
  have fr: "free_ok (s_data (surface t))" if "mSize t \<noteq> 0"
    using ok that by (cases "s_data (surface t)") (simp_all add: tex_ok_def mips_def)
  have r: "tex_reallocate al t level w h s format cf bpr =
     (if sz \<noteq> mSize t \<or> s_data (surface t) = No_data then
        if mSize t \<noteq> 0 \<and> s_data (surface t) \<noteq> No_data \<and> \<not> free_ok (s_data (surface t)) then None
        else if \<not> al sz then
          Some (NO_MEMORY, t\<lparr>surface := (surface t)\<lparr>s_data := No_data\<rparr>, mSize := 0, mIsComplete := False\<rparr>)
        else Some (NO_ERROR, finish (t\<lparr>surface := dims ((surface t)\<lparr>s_data := Owned sz\<rparr>), mSize := sz\<rparr>))
      else Some (NO_ERROR, finish (t\<lparr>surface := dims (surface t)\<rparr>)))"
    using True unfolding tex_reallocate_def Let_def sz_def [symmetric] dims_def finish_def by simp
  have "tex_ok (t\<lparr>surface := (surface t)\<lparr>s_data := No_data\<rparr>, mSize := 0, mIsComplete := False\<rparr>)"
    using ok by (simp add: tex_ok_def mips_def)
  moreover have "tex_ok (finish (t\<lparr>surface := dims ((surface t)\<lparr>s_data := Owned sz\<rparr>), mSize := sz\<rparr>))"
    "tex_ok (finish (t\<lparr>surface := dims (surface t)\<rparr>))"
    using ok by (intro fin; simp add: tex_ok_def mips_def dims_def)+
  ultimately show ?thesis using fr unfolding r by auto
next
  case False
  obtain err t1 where t1: "(if mMipmaps t = None then tex_allocateMipmaps al t else (NO_ERROR, t)) = (err, t1)" by force
  have 1: "tex_ok t1" "err = NO_ERROR \<Longrightarrow> mMipmaps t1 \<noteq> None"
    using tex_ok_allocateMipmaps [OF ok _ _ big(1) [OF False] big(2), of al err t1] t1 ok by (auto split: if_splits)
  show ?thesis
  proof (cases "err = NO_ERROR")
    case True
    then obtain ms where ms: "mMipmaps t1 = Some ms" using 1 by auto
    have e: "tex_ok (tex_editMip t1 level f) \<and> free_ok (s_data (tex_mip t1 level))"
      if "\<And>m. free_ok (s_data (f m))" for f
      using tex_ok_editMip [OF 1(1) ms _ that] lv False by auto
    have c: "tex_ok (x\<lparr>mIsComplete := b\<rparr>) = tex_ok x" for x b by (simp add: tex_ok_def mips_def)
    show ?thesis using False True t1 e [of "\<lambda>_. zero_surface"] e
      by (auto simp: tex_reallocate_def Let_def c zero_surface_def)
  qed (use False t1 1 in \<open>auto simp: tex_reallocate_def Let_def\<close>)
qed

subsection \<open>Mip chains\<close>

lemma half_iterate: "half (max 1 (n div 2 ^ k)) = max 1 (n div 2 ^ Suc k)"
proof -
  have "n div 2 ^ Suc k = n div 2 ^ k div 2" unfolding power_Suc2 by (rule div_mult2_eq)
  then show ?thesis by (auto simp: half_def max_def)
qed

definition mip_level_ok :: "surface_t \<Rightarrow> nat \<Rightarrow> surface_t \<Rightarrow> bool" where
  "mip_level_ok base k m \<longleftrightarrow> s_format m = s_format base \<and>
     s_width m = max 1 (s_width base div 2 ^ k) \<and> s_height m = max 1 (s_height base div 2 ^ k)"

lemma check_complete_from:
  "s_width prev = max 1 (s_width base div 2 ^ k) \<Longrightarrow> s_height prev = max 1 (s_height base div 2 ^ k) \<Longrightarrow>
   tex_check_complete (s_format base) prev ms \<longleftrightarrow> (\<forall>i < length ms. mip_level_ok base (Suc (k + i)) (ms ! i))"
proof (induction ms arbitrary: prev k)
  case (Cons m ms)
  have split: "(\<forall>i < length (m # ms). mip_level_ok base (Suc (k + i)) ((m # ms) ! i)) \<longleftrightarrow>
      mip_level_ok base (Suc k) m \<and> (\<forall>i < length ms. mip_level_ok base (Suc (Suc k + i)) (ms ! i))"
    using less_Suc_eq_0_disj by auto
  have step: "tex_check_complete (s_format base) prev (m # ms) \<longleftrightarrow>
      mip_level_ok base (Suc k) m \<and> tex_check_complete (s_format base) m ms"
    using Cons.prems half_iterate by (auto simp: mip_level_ok_def simp del: power_Suc One_nat_def)
  show ?case
  proof (cases "mip_level_ok base (Suc k) m")
    case True
    then have "s_width m = max 1 (s_width base div 2 ^ Suc k)" "s_height m = max 1 (s_height base div 2 ^ Suc k)"
      by (simp_all add: mip_level_ok_def)
    from Cons.IH [OF this] show ?thesis unfolding split step by simp
  next
    case False
    then show ?thesis unfolding split step by simp
  qed
qed simp

lemma check_complete:
  assumes "0 < s_width base" "0 < s_height base"
  shows "tex_check_complete (s_format base) base ms \<longleftrightarrow> (\<forall>i < length ms. mip_level_ok base (Suc i) (ms ! i))"
  using check_complete_from [of base base 0 ms] assms by simp

lemma reallocate_level:
  assumes "tex_reallocate al t level w h s format cf bpr = Some (NO_ERROR, t')" "level \<noteq> 0" "tex_ok t'"
  shows "mIsComplete t' \<longleftrightarrow> tex_check_complete (s_format (surface t')) (surface t') (mips t')"
proof -
  obtain err t1 where t1: "(if mMipmaps t = None then tex_allocateMipmaps al t else (NO_ERROR, t)) = (err, t1)" by force
  have "\<exists>u. t' = u\<lparr>mIsComplete := tex_check_complete (s_format (surface u)) (surface u)
           (take (nat (mNumExtraLod u)) (mips u))\<rparr>"
    using assms(1,2) t1 unfolding tex_reallocate_def Let_def mips_def by (auto split: if_splits)
  then obtain u where u: "t' = u\<lparr>mIsComplete := tex_check_complete (s_format (surface u)) (surface u)
           (take (nat (mNumExtraLod u)) (mips u))\<rparr>" by blast
  then have "mips t' = mips u" "surface t' = surface u" by (simp_all add: mips_def)
  moreover have "take (nat (mNumExtraLod u)) (mips u) = mips u" using assms(3) u by (simp add: tex_ok_def mips_def)
  ultimately show ?thesis using u by simp
qed

lemma log_halves:
  assumes "2 ^ k \<le> max w h" "max w h < 2 ^ Suc k" "0 < w" "0 < h"
  shows "max 1 (w div 2 ^ k) = 1" "max 1 (h div 2 ^ k) = (1 :: nat)"
proof -
  have "w < 2 * 2 ^ k" "h < 2 * 2 ^ k" using assms(2) by simp_all
  then have "w div 2 ^ k < 2" "h div 2 ^ k < 2" by (simp_all add: less_mult_imp_div_less)
  then show "max 1 (w div 2 ^ k) = 1" "max 1 (h div 2 ^ k) = 1" by auto
qed

text \<open>C13. Mipmap completeness. A texture is reported complete after a mip level has been
  specified exactly when every level of its chain has the format of the base level and the dimensions
  of the base level halved once per level and never below one; a complete chain ends with a level of
  one by one texels.\<close>

theorem mip_chain_complete:
  assumes ok: "tex_ok t" "0 < level" "1 < max (s_width (surface t)) (s_height (surface t))"
    "max (s_width (surface t)) (s_height (surface t)) < 2 ^ 31"
    and re: "tex_reallocate al t level w h s format cf bpr = Some (NO_ERROR, t')"
    and dims: "0 < s_width (surface t')" "0 < s_height (surface t')" "max (s_width (surface t')) (s_height (surface t')) < 2 ^ 31"
  shows "(mIsComplete t' \<longleftrightarrow> (\<forall>i < length (mips t'). mip_level_ok (surface t') (Suc i) (mips t' ! i))) \<and>
    (mIsComplete t' \<and> mips t' \<noteq> [] \<longrightarrow> s_width (last (mips t')) = 1 \<and> s_height (last (mips t')) = 1)"
proof -
  have ok': "tex_ok t'" using tex_ok_reallocate [of t level al w h s format cf bpr] assms by force
  have c: "mIsComplete t' \<longleftrightarrow> (\<forall>i < length (mips t'). mip_level_ok (surface t') (Suc i) (mips t' ! i))"
    using reallocate_level [OF re _ ok'] check_complete [OF dims(1,2)] ok(2) by simp
  have "s_width (last (mips t')) = 1 \<and> s_height (last (mips t')) = 1" if cm: "mIsComplete t'" and ne: "mips t' \<noteq> []"
  proof -
    obtain k where k: "31 - gglClz (int (max (s_width (surface t')) (s_height (surface t')))) = int k"
      "2 ^ k \<le> max (s_width (surface t')) (s_height (surface t'))" "max (s_width (surface t')) (s_height (surface t')) < 2 ^ Suc k"
      using numLods_log [OF _ dims(3)] dims(1) by (metis less_max_iff_disj)
    have "length (mips t') = k" using ok' ne k(1) by (auto simp: tex_ok_def mips_def of_nat_max split: option.splits)
    moreover then have "k \<noteq> 0" using ne by auto
    ultimately have "mip_level_ok (surface t') k (last (mips t'))"
      using cm c ne by (auto simp: last_conv_nth dest: spec [of _ "k - 1"])
    then show ?thesis using log_halves [OF k(2,3) dims(1,2)] by (simp add: mip_level_ok_def)
  qed
  then show ?thesis using c by blast
qed

text \<open>A texture of four by two texels, whose first and second mip level are then specified.\<close>

definition demo_realloc :: "tex_obj \<Rightarrow> int \<Rightarrow> nat \<Rightarrow> nat \<Rightarrow> tex_obj" where
  "demo_realloc t level w h = snd (the (tex_reallocate (\<lambda>_. True) t level w h (int w) 1 0 (4 * int w)))"

lemmas demo_simps = demo_realloc_def tex_reallocate_def tex_allocateMipmaps_def tex_editMip_def tex_mip_def
  mip_index_def tex_freeMipmaps_def new_EGLTextureObject_def tex_init_def zero_surface_def gglClz_def clz_step_def
  s32_def half_def Let_def mips_def

definition demo_base :: tex_obj where "demo_base = demo_realloc new_EGLTextureObject 0 4 2"
definition demo_mip1 :: tex_obj where "demo_mip1 = demo_realloc demo_base 1 2 1"
definition demo_mip2 :: tex_obj where "demo_mip2 = demo_realloc demo_mip1 2 1 1"

lemma demo_base_eq:
  "mMipmaps demo_base = None" "mNumExtraLod demo_base = 0" "mSize demo_base = 32"
  "surface demo_base = \<lparr>s_width = 4, s_height = 2, s_stride = 4, s_data = Owned 32, s_format = 1, s_compressedFormat = 0\<rparr>"
  by (simp_all add: demo_base_def demo_simps)

lemma demo_mip1_eq:
  "mMipmaps demo_mip1 = Some [\<lparr>s_width = 2, s_height = 1, s_stride = 2, s_data = Owned 8, s_format = 1, s_compressedFormat = 0\<rparr>, zero_surface]"
  "mNumExtraLod demo_mip1 = 2" "surface demo_mip1 = surface demo_base" "mSize demo_mip1 = 32" "\<not> mIsComplete demo_mip1"
  by (simp_all add: demo_mip1_def demo_base_eq demo_simps numeral_2_eq_2)

lemma demo_mip2_eq:
  "tex_reallocate (\<lambda>_. True) demo_mip1 2 1 1 1 1 0 4 = Some (NO_ERROR, demo_mip2)"
  "surface demo_mip2 = surface demo_base"
  by (simp_all add: demo_mip2_def demo_mip1_eq demo_base_eq demo_simps)

lemma demo_mip2_complete: "mIsComplete demo_mip2" "length (mips demo_mip2) = 2"
  by (simp_all add: demo_mip2_def demo_mip1_eq demo_base_eq demo_simps nth_Cons')

theorem mip_chain_complete_witness:
  "mIsComplete demo_mip2 \<and> s_width (last (mips demo_mip2)) = 1 \<and> s_height (last (mips demo_mip2)) = 1"
proof -
  have "tex_ok demo_mip1"
    by (simp add: tex_ok_def mips_def demo_mip1_eq demo_base_eq gglClz_def clz_step_def zero_surface_def)
  from mip_chain_complete [OF this _ _ _ demo_mip2_eq(1)] show ?thesis
    using demo_mip2_complete by (auto simp: demo_mip1_eq demo_mip2_eq demo_base_eq)
qed



text \<open>A base level of one texel has no mip levels, and a level specified for it replaces the storage
  of the base level: the recorded size is then not the size of the block.\<close>

definition demo_texel :: tex_obj where "demo_texel = demo_realloc new_EGLTextureObject 0 1 1"

lemma one_texel_level_overwrites_base:
  "mSize demo_texel = 4" "s_data (surface demo_texel) = Owned 4"
  "mSize (snd (the (tex_reallocate (\<lambda>_. True) demo_texel 1 1 1 1 6 0 1))) = 4"
  "s_data (surface (snd (the (tex_reallocate (\<lambda>_. True) demo_texel 1 1 1 1 6 0 1)))) = Owned 1"
  by (simp_all add: demo_texel_def demo_simps)

subsection \<open>References to textures\<close>

text \<open>\<open>held a\<close> counts the references to \<open>a\<close> that the callers of the manager keep; a caller gives back
  only a reference it holds.\<close>

inductive tex_reachable :: "surface_manager \<Rightarrow> (nat \<Rightarrow> nat) \<Rightarrow> bool" where
  init: "tex_reachable EGLSurfaceManager_init (\<lambda>_. 0)"
| create: "tex_reachable m held \<Longrightarrow> createTexture m name = (Some a, m') \<Longrightarrow> tex_reachable m' (held(a := held a + 1))"
| create_none: "tex_reachable m held \<Longrightarrow> createTexture m name = (None, m') \<Longrightarrow> tex_reachable m' held"
| remove: "tex_reachable m held \<Longrightarrow> removeTexture m name = (Some a, m') \<Longrightarrow> tex_reachable m' (held(a := held a + 1))"
| remove_none: "tex_reachable m held \<Longrightarrow> removeTexture m name = (None, m') \<Longrightarrow> tex_reachable m' held"
| replace: "tex_reachable m held \<Longrightarrow> replaceTexture m name = (Some a, m') \<Longrightarrow> tex_reachable m' (held(a := held a + 1))"
| replace_none: "tex_reachable m held \<Longrightarrow> replaceTexture m name = (None, m') \<Longrightarrow> tex_reachable m' held"
| get: "tex_reachable m held \<Longrightarrow> get_texture m name = (Some a, m') \<Longrightarrow> tex_reachable m' (held(a := held a + 1))"
| get_none: "tex_reachable m held \<Longrightarrow> get_texture m name = (None, m') \<Longrightarrow> tex_reachable m' held"
| delete: "tex_reachable m held \<Longrightarrow> tex_reachable (deleteTextures m n ts) held"
| release: "tex_reachable m held \<Longrightarrow> 0 < held a \<Longrightarrow> tex_reachable (decStrong m a) (held(a := held a - 1))"

definition listed :: "surface_manager \<Rightarrow> nat \<Rightarrow> nat" where
  "listed m a = (if \<exists>k. kv_valueFor (mTextures m) k = Some a then 1 else 0)"

definition refs :: "surface_manager \<Rightarrow> nat \<Rightarrow> nat" where
  "refs m a = (case tex_heap m a of None \<Rightarrow> 0 | Some (t, n) \<Rightarrow> n)"

definition refs_ok :: "surface_manager \<Rightarrow> (nat \<Rightarrow> nat) \<Rightarrow> bool" where
  "refs_ok m held \<longleftrightarrow> kv_ok (mTextures m) \<and>
     (\<forall>j k a. kv_valueFor (mTextures m) j = Some a \<longrightarrow> kv_valueFor (mTextures m) k = Some a \<longrightarrow> j = k) \<and>
     (\<forall>a. refs m a = held a + listed m a) \<and> (\<forall>a t n. tex_heap m a = Some (t, n) \<longrightarrow> 0 < n) \<and>
     (\<forall>a. tex_next m \<le> a \<longrightarrow> tex_heap m a = None)"

lemma refs_inc: "refs (incStrong m a) b = (if b = a \<and> tex_heap m a \<noteq> None then refs m a + 1 else refs m b)"
  by (auto simp: refs_def incStrong_def split: option.splits)

lemma refs_dec: "refs (decStrong m a) b = (if b = a then refs m a - 1 else refs m b)"
  by (auto simp: refs_def decStrong_def split: option.splits)

lemma incdec_frame [simp]:
  "mTextures (incStrong m a) = mTextures m" "mTextures (decStrong m a) = mTextures m"
  "tex_next (incStrong m a) = tex_next m" "tex_next (decStrong m a) = tex_next m"
  by (simp_all add: incStrong_def decStrong_def split: option.splits)

lemma listed_frame: "mTextures m' = mTextures m \<Longrightarrow> listed m' a = listed m a"
  by (simp add: listed_def)

lemma refs_ok_inc:
  assumes "refs_ok m held" "0 < refs m a"
  shows "refs_ok (incStrong m a) (held(a := held a + 1))"
proof -
  have "tex_heap m a \<noteq> None" using assms(2) by (auto simp: refs_def split: option.splits)
  then show ?thesis using assms
    by (auto simp: refs_ok_def refs_inc listed_frame [of "incStrong m a" m] split: if_splits)
       (auto simp: incStrong_def split: option.splits if_splits)
qed

lemma refs_ok_release:
  assumes "refs_ok m held" "0 < held a"
  shows "refs_ok (decStrong m a) (held(a := held a - 1))"
proof -
  have "refs m a = held a + listed m a" using assms(1) by (simp add: refs_ok_def)
  then have "refs m a - 1 = held a - 1 + listed m a" using assms(2) by simp
  then show ?thesis using assms
    by (auto simp: refs_ok_def refs_dec listed_frame [of "decStrong m a" m] split: if_splits)
       (auto simp: decStrong_def split: option.splits if_splits)
qed

lemma refs_ok_unlist:
  assumes "refs_ok m held" "kv_valueFor (mTextures m) k = Some a"
  shows "refs_ok (decStrong (m\<lparr>mTextures := kv_del (mTextures m) k\<rparr>) a) held"
proof -
  let ?m = "m\<lparr>mTextures := kv_del (mTextures m) k\<rparr>"
  have kv: "kv_ok (kv_del (mTextures m) k)" "kv_valueFor (kv_del (mTextures m) k) = (kv_valueFor (mTextures m))(k := None)"
    using assms(1) kv.del_law [of "mTextures m"] by (auto simp: refs_ok_def)
  have inj: "\<forall>j k a. kv_valueFor (mTextures m) j = Some a \<longrightarrow> kv_valueFor (mTextures m) k = Some a \<longrightarrow> j = k"
    using assms(1) by (simp add: refs_ok_def)
  have l: "listed ?m b = (if b = a then 0 else listed m b)" for b
    using inj assms(2) by (auto simp: listed_def kv) (metis option.inject)
  have la: "listed m a = 1" using assms(2) by (auto simp: listed_def)
  have r: "refs (decStrong ?m a) b = held b + listed (decStrong ?m a) b" for b
    using assms(1) la by (auto simp: refs_dec l listed_frame [of "decStrong ?m a" ?m] refs_ok_def) (simp_all add: refs_def)
  have h: "\<forall>b t n. tex_heap (decStrong ?m a) b = Some (t, n) \<longrightarrow> 0 < n"
    "\<forall>b. tex_next m \<le> b \<longrightarrow> tex_heap (decStrong ?m a) b = None"
    using assms(1) by (auto simp: refs_ok_def decStrong_def split: option.splits if_splits)
  show ?thesis using kv inj r h by (auto simp: refs_ok_def)
qed

lemma refs_ok_add:
  assumes "refs_ok m held" "kv_valueFor (mTextures m) k = None" "add_texture m k t = (a, m')"
  shows "refs_ok m' (held(a := held a + 1))"
proof -
  have a: "a = tex_next m" using assms(3) by (simp add: add_texture_def Let_def)
  have kv: "kv_ok (kv_put (mTextures m) k a)" "kv_valueFor (kv_put (mTextures m) k a) = (kv_valueFor (mTextures m))(k \<mapsto> a)"
    using assms(1) kv.put_law [of "mTextures m"] by (auto simp: refs_ok_def)
  have "tex_heap m a = None" using assms(1) a by (simp add: refs_ok_def)
  then have "refs m a = 0" by (simp add: refs_def)
  then have z: "held a = 0" "listed m a = 0" using assms(1) by (auto simp: refs_ok_def)
  then have nl: "kv_valueFor (mTextures m) j \<noteq> Some a" for j by (auto simp: listed_def split: if_splits)
  have m': "mTextures m' = kv_put (mTextures m) k a" "tex_heap m' = (tex_heap m)(a \<mapsto> (t, 2))" "tex_next m' = a + 1"
    using assms(3) a by (auto simp: add_texture_def Let_def)
  have l: "listed m' b = (if b = a then 1 else listed m b)" for b
  proof -
    have "(\<exists>j. kv_valueFor (mTextures m') j = Some b) \<longleftrightarrow> b = a \<or> (\<exists>j. kv_valueFor (mTextures m) j = Some b)"
      unfolding m'(1) kv(2) fun_upd_apply using assms(2) by (metis option.distinct(1) option.inject)
    then show ?thesis by (simp add: listed_def)
  qed
  have r: "refs m' b = (if b = a then 2 else refs m b)" for b by (simp add: refs_def m')
  have inj: "\<forall>i j b. kv_valueFor (mTextures m') i = Some b \<longrightarrow> kv_valueFor (mTextures m') j = Some b \<longrightarrow> i = j"
    using assms(1) nl unfolding refs_ok_def m' kv by (auto split: if_splits)
  have cnt: "\<forall>b. refs m' b = (held(a := held a + 1)) b + listed m' b"
    using assms(1) z unfolding refs_ok_def l r by simp
  have "\<forall>b t n. tex_heap m' b = Some (t, n) \<longrightarrow> 0 < n" "\<forall>b. tex_next m' \<le> b \<longrightarrow> tex_heap m' b = None"
    using assms(1) a unfolding refs_ok_def m' by auto
  then show ?thesis unfolding refs_ok_def using inj cnt kv(1) m'(1) by simp
qed

lemma refs_ok_listed: "refs_ok m held \<Longrightarrow> kv_valueFor (mTextures m) k = Some a \<Longrightarrow> 0 < refs m a"
  by (auto simp: refs_ok_def listed_def)

lemma refs_ok_delete: "refs_ok m held \<Longrightarrow> refs_ok (del_nonzero remove_name ts m) held"
proof (induction ts arbitrary: m)
  case (Cons t ts)
  have "refs_ok (remove_name m t) held"
    using Cons.prems refs_ok_unlist by (auto simp: remove_name_def split: option.splits)
  then show ?case using Cons by simp
qed simp

lemma refs_ok_replace:
  assumes ok: "refs_ok m held" and r: "replaceTexture m name = (p, m')"
  shows "refs_ok m' (case p of None \<Rightarrow> held | Some a \<Rightarrow> held(a := held a + 1))"
proof (cases "kv_valueFor (mTextures m) name")
  case None
  then show ?thesis using ok r by (simp add: replaceTexture_def)
next
  case (Some a)
  have pos: "0 < refs m a" using refs_ok_listed [OF ok Some] .
  then obtain old n where h: "tex_heap m a = Some (old, n)" by (auto simp: refs_def split: option.splits)
  show ?thesis
  proof (cases "n = 1")
    case True
    then have "p = Some a" "m' = incStrong m a" using r Some h by (simp_all add: replaceTexture_def)
    then show ?thesis using refs_ok_inc [OF ok pos] by simp
  next
    case False
    let ?m = "decStrong (m\<lparr>mTextures := kv_del (mTextures m) name\<rparr>) a"
    have "kv_valueFor (mTextures ?m) name = None"
      using kv.del_law [of "mTextures m" name] ok by (simp add: refs_ok_def)
    from refs_ok_add [OF refs_ok_unlist [OF ok Some] this] show ?thesis
      using False r Some h by (auto simp: replaceTexture_def Let_def split: prod.splits)
  qed
qed

lemma refs_ok_remove:
  assumes ok: "refs_ok m held" and r: "removeTexture m name = (Some a, m')"
  shows "refs_ok m' (held(a := held a + 1))"
proof -
  have k: "kv_valueFor (mTextures m) name = Some a"
    and m': "m' = decStrong ((incStrong m a)\<lparr>mTextures := kv_del (mTextures m) name\<rparr>) a"
    using r by (auto simp: removeTexture_def Let_def split: option.splits)
  have "refs_ok (incStrong m a) (held(a := held a + 1))" using refs_ok_inc [OF ok refs_ok_listed [OF ok k]] .
  from refs_ok_unlist [OF this, of name a] show ?thesis using k m' by simp
qed

lemma refs_ok_init: "refs_ok EGLSurfaceManager_init (\<lambda>_. 0)"
  by (simp add: refs_ok_def EGLSurfaceManager_init_def refs_def listed_def)

lemma tex_reachable_ok: "tex_reachable m held \<Longrightarrow> refs_ok m held"
proof (induction rule: tex_reachable.induct)
  case (create m held name a m')
  then have "kv_valueFor (mTextures m) name = None" "add_texture m name new_EGLTextureObject = (a, m')"
    by (auto simp: createTexture_def split: prod.splits if_splits)
  then show ?case using refs_ok_add create by blast
next
  case (replace m held name a m')
  from refs_ok_replace [OF replace.IH replace.hyps(2)] show ?case by (simp only: option.case)
next
  case (replace_none m held name m')
  from refs_ok_replace [OF replace_none.IH replace_none.hyps(2)] show ?case by simp
next
  case (get m held name a m')
  then have "kv_valueFor (mTextures m) name = Some a" "m' = incStrong m a"
    by (auto simp: get_texture_def split: option.splits)
  then show ?case using refs_ok_inc refs_ok_listed get.IH by blast
next
  case (remove m held name a m')
  from refs_ok_remove [OF remove.IH remove.hyps(2)] show ?case .
next
  case (release m held a)
  from refs_ok_release [OF release.IH release.hyps(2)] show ?case .
next
  case (delete m held n ts)
  then show ?case by (simp add: deleteTextures_def refs_ok_delete)
qed (auto simp: refs_ok_init createTexture_def removeTexture_def get_texture_def Let_def
      split: prod.splits if_splits option.splits)



end
