(* ===== verification/GGLContext.thy ===== *)
theory GGLContext
  imports Fixed
begin

text \<open>
  The state of the software rasteriser: the structures of \<^verbatim>\<open>include/ggl_context.h\<close> and
  \<^verbatim>\<open>include/pixelflinger.h\<close> as records of the same nesting, the pixel format table of
  \<^verbatim>\<open>libpixelflinger/format.cpp\<close>, and the small helpers those headers define (needs fields,
  blend factor and environment codes).

  Enumerants are numbers. Flag words (\<^verbatim>\<open>enables\<close>, \<^verbatim>\<open>dirty\<close>, needs) and packed pixels are
  32-bit words. \<^verbatim>\<open>GGLfixed\<close> and \<^verbatim>\<open>GGLcolor\<close> are \<^typ>\<open>int\<close>. The function pointers of a
  surface are the names of the functions they can point to. \<^verbatim>\<open>activeTMU\<close>, a pointer to an
  element of \<^verbatim>\<open>state.texture\<close>, is that element's index. Memory is a function from addresses to
  bytes; \<^verbatim>\<open>coverage\<close> is the content of the coverage buffer, indexed by column, whose presence and
  size are in the frame buffer.
\<close>

subsection \<open>Enumerants\<close>

abbreviation (input) GGL_SCISSOR_TEST :: nat where "GGL_SCISSOR_TEST \<equiv> 0x0C11"
abbreviation (input) GGL_TEXTURE_2D :: nat where "GGL_TEXTURE_2D \<equiv> 0x0DE1"
abbreviation (input) GGL_ALPHA_TEST :: nat where "GGL_ALPHA_TEST \<equiv> 0x0BC0"
abbreviation (input) GGL_BLEND :: nat where "GGL_BLEND \<equiv> 0x0BE2"
abbreviation (input) GGL_COLOR_LOGIC_OP :: nat where "GGL_COLOR_LOGIC_OP \<equiv> 0x0BF2"
abbreviation (input) GGL_DITHER :: nat where "GGL_DITHER \<equiv> 0x0BD0"
abbreviation (input) GGL_STENCIL_TEST :: nat where "GGL_STENCIL_TEST \<equiv> 0x0B90"
abbreviation (input) GGL_DEPTH_TEST :: nat where "GGL_DEPTH_TEST \<equiv> 0x0B71"
abbreviation (input) GGL_AA :: nat where "GGL_AA \<equiv> 0x80000001"
abbreviation (input) GGL_W_LERP :: nat where "GGL_W_LERP \<equiv> 0x80000004"
abbreviation (input) GGL_POINT_SMOOTH_NICE :: nat where "GGL_POINT_SMOOTH_NICE \<equiv> 0x80000005"
abbreviation (input) GGL_FOG :: nat where "GGL_FOG \<equiv> 0x0B60"
abbreviation (input) GGL_FLAT :: nat where "GGL_FLAT \<equiv> 0x1D00"
abbreviation (input) GGL_SMOOTH :: nat where "GGL_SMOOTH \<equiv> 0x1D01"
abbreviation (input) GGL_TEXTURE_MAG_FILTER :: nat where "GGL_TEXTURE_MAG_FILTER \<equiv> 0x2800"
abbreviation (input) GGL_TEXTURE_MIN_FILTER :: nat where "GGL_TEXTURE_MIN_FILTER \<equiv> 0x2801"
abbreviation (input) GGL_TEXTURE_WRAP_S :: nat where "GGL_TEXTURE_WRAP_S \<equiv> 0x2802"
abbreviation (input) GGL_TEXTURE_WRAP_T :: nat where "GGL_TEXTURE_WRAP_T \<equiv> 0x2803"
abbreviation (input) GGL_NEAREST :: nat where "GGL_NEAREST \<equiv> 0x2600"
abbreviation (input) GGL_LINEAR :: nat where "GGL_LINEAR \<equiv> 0x2601"
abbreviation (input) GGL_NEAREST_MIPMAP_NEAREST :: nat where "GGL_NEAREST_MIPMAP_NEAREST \<equiv> 0x2700"
abbreviation (input) GGL_LINEAR_MIPMAP_NEAREST :: nat where "GGL_LINEAR_MIPMAP_NEAREST \<equiv> 0x2701"
abbreviation (input) GGL_NEAREST_MIPMAP_LINEAR :: nat where "GGL_NEAREST_MIPMAP_LINEAR \<equiv> 0x2702"
abbreviation (input) GGL_LINEAR_MIPMAP_LINEAR :: nat where "GGL_LINEAR_MIPMAP_LINEAR \<equiv> 0x2703"
abbreviation (input) GGL_CLAMP :: nat where "GGL_CLAMP \<equiv> 0x2900"
abbreviation (input) GGL_REPEAT :: nat where "GGL_REPEAT \<equiv> 0x2901"
abbreviation (input) GGL_CLAMP_TO_EDGE :: nat where "GGL_CLAMP_TO_EDGE \<equiv> 0x812F"
abbreviation (input) GGL_REPLACE :: nat where "GGL_REPLACE \<equiv> 0x1E01"
abbreviation (input) GGL_MODULATE :: nat where "GGL_MODULATE \<equiv> 0x2100"
abbreviation (input) GGL_DECAL :: nat where "GGL_DECAL \<equiv> 0x2101"
abbreviation (input) GGL_ADD :: nat where "GGL_ADD \<equiv> 0x0104"
abbreviation (input) GGL_TEXTURE_ENV_MODE :: nat where "GGL_TEXTURE_ENV_MODE \<equiv> 0x2200"
abbreviation (input) GGL_TEXTURE_ENV_COLOR :: nat where "GGL_TEXTURE_ENV_COLOR \<equiv> 0x2201"
abbreviation (input) GGL_TEXTURE_ENV :: nat where "GGL_TEXTURE_ENV \<equiv> 0x2300"
abbreviation (input) GGL_TEXTURE_GEN_MODE :: nat where "GGL_TEXTURE_GEN_MODE \<equiv> 0x2500"
abbreviation (input) GGL_S :: nat where "GGL_S \<equiv> 0x2000"
abbreviation (input) GGL_T :: nat where "GGL_T \<equiv> 0x2001"
abbreviation (input) GGL_ONE_TO_ONE :: nat where "GGL_ONE_TO_ONE \<equiv> 0x80000002"
abbreviation (input) GGL_AUTOMATIC :: nat where "GGL_AUTOMATIC \<equiv> 0x80000003"
abbreviation (input) GGL_NEVER :: nat where "GGL_NEVER \<equiv> 0x0200"
abbreviation (input) GGL_LESS :: nat where "GGL_LESS \<equiv> 0x0201"
abbreviation (input) GGL_ALWAYS :: nat where "GGL_ALWAYS \<equiv> 0x0207"
abbreviation (input) GGL_CLEAR :: nat where "GGL_CLEAR \<equiv> 0x1500"
abbreviation (input) GGL_COPY :: nat where "GGL_COPY \<equiv> 0x1503"
abbreviation (input) GGL_SET :: nat where "GGL_SET \<equiv> 0x150F"
abbreviation (input) GGL_DST_ALPHA :: nat where "GGL_DST_ALPHA \<equiv> 0x0304"
abbreviation (input) GGL_ONE_MINUS_DST_ALPHA :: nat where "GGL_ONE_MINUS_DST_ALPHA \<equiv> 0x0305"
abbreviation (input) GGL_DEPTH_BUFFER_BIT :: u32 where "GGL_DEPTH_BUFFER_BIT \<equiv> 0x100"
abbreviation (input) GGL_STENCIL_BUFFER_BIT :: u32 where "GGL_STENCIL_BUFFER_BIT \<equiv> 0x400"
abbreviation (input) GGL_COLOR_BUFFER_BIT :: u32 where "GGL_COLOR_BUFFER_BIT \<equiv> 0x4000"

abbreviation (input) GGL_TMU_STATE :: u32 where "GGL_TMU_STATE \<equiv> 1"
abbreviation (input) GGL_CB_STATE :: u32 where "GGL_CB_STATE \<equiv> 2"
abbreviation (input) GGL_PIXEL_PIPELINE_STATE :: u32 where "GGL_PIXEL_PIPELINE_STATE \<equiv> 4"

abbreviation (input) GGL_ENABLE_BLENDING :: u32 where "GGL_ENABLE_BLENDING \<equiv> 0x1"
abbreviation (input) GGL_ENABLE_SMOOTH :: u32 where "GGL_ENABLE_SMOOTH \<equiv> 0x2"
abbreviation (input) GGL_ENABLE_AA :: u32 where "GGL_ENABLE_AA \<equiv> 0x4"
abbreviation (input) GGL_ENABLE_LOGIC_OP :: u32 where "GGL_ENABLE_LOGIC_OP \<equiv> 0x8"
abbreviation (input) GGL_ENABLE_ALPHA_TEST :: u32 where "GGL_ENABLE_ALPHA_TEST \<equiv> 0x10"
abbreviation (input) GGL_ENABLE_SCISSOR_TEST :: u32 where "GGL_ENABLE_SCISSOR_TEST \<equiv> 0x20"
abbreviation (input) GGL_ENABLE_TMUS :: u32 where "GGL_ENABLE_TMUS \<equiv> 0x40"
abbreviation (input) GGL_ENABLE_DEPTH_TEST :: u32 where "GGL_ENABLE_DEPTH_TEST \<equiv> 0x80"
abbreviation (input) GGL_ENABLE_W :: u32 where "GGL_ENABLE_W \<equiv> 0x200"
abbreviation (input) GGL_ENABLE_DITHER :: u32 where "GGL_ENABLE_DITHER \<equiv> 0x400"
abbreviation (input) GGL_ENABLE_FOG :: u32 where "GGL_ENABLE_FOG \<equiv> 0x800"
abbreviation (input) GGL_ENABLE_POINT_AA_NICE :: u32 where "GGL_ENABLE_POINT_AA_NICE \<equiv> 0x1000"

subsection \<open>Pixel formats\<close>

text \<open>A component is the position after its highest bit and the position of its lowest bit; the four
  components are alpha, red, green and blue.\<close>

record GGLFormat =
  fm_size :: nat
  fm_bitsPerPixel :: nat
  fm_c :: "(nat \<times> nat) list"
  fm_components :: nat

abbreviation (input) GGL_STENCIL_INDEX :: nat where "GGL_STENCIL_INDEX \<equiv> 0x1901"
abbreviation (input) GGL_DEPTH_COMPONENT :: nat where "GGL_DEPTH_COMPONENT \<equiv> 0x1902"
abbreviation (input) GGL_ALPHA :: nat where "GGL_ALPHA \<equiv> 0x1906"
abbreviation (input) GGL_RGB :: nat where "GGL_RGB \<equiv> 0x1907"
abbreviation (input) GGL_RGBA :: nat where "GGL_RGBA \<equiv> 0x1908"
abbreviation (input) GGL_LUMINANCE :: nat where "GGL_LUMINANCE \<equiv> 0x1909"
abbreviation (input) GGL_LUMINANCE_ALPHA :: nat where "GGL_LUMINANCE_ALPHA \<equiv> 0x190A"

abbreviation (input) GGL_PIXEL_FORMAT_NONE :: nat where "GGL_PIXEL_FORMAT_NONE \<equiv> 0"
abbreviation (input) GGL_PIXEL_FORMAT_RGBA_8888 :: nat where "GGL_PIXEL_FORMAT_RGBA_8888 \<equiv> 1"
abbreviation (input) GGL_PIXEL_FORMAT_RGB_565 :: nat where "GGL_PIXEL_FORMAT_RGB_565 \<equiv> 4"
abbreviation (input) GGL_PIXEL_FORMAT_Z_16 :: nat where "GGL_PIXEL_FORMAT_Z_16 \<equiv> 0x18"

definition mk_format :: "nat \<Rightarrow> nat \<Rightarrow> (nat \<times> nat) list \<Rightarrow> nat \<Rightarrow> GGLFormat" where
  "mk_format sz bpp cs comps = \<lparr>fm_size = sz, fm_bitsPerPixel = bpp, fm_c = cs, fm_components = comps\<rparr>"

definition format_none :: GGLFormat where
  "format_none = mk_format 0 0 [(0, 0), (0, 0), (0, 0), (0, 0)] 0"

definition gPixelFormatInfos :: "GGLFormat list" where
  "gPixelFormatInfos =
    [format_none,
     mk_format 4 32 [(32, 24), (8, 0), (16, 8), (24, 16)] GGL_RGBA,
     mk_format 4 24 [(0, 0), (8, 0), (16, 8), (24, 16)] GGL_RGB,
     mk_format 3 24 [(0, 0), (8, 0), (16, 8), (24, 16)] GGL_RGB,
     mk_format 2 16 [(0, 0), (16, 11), (11, 5), (5, 0)] GGL_RGB,
     mk_format 4 32 [(32, 24), (24, 16), (16, 8), (8, 0)] GGL_RGBA,
     mk_format 2 16 [(1, 0), (16, 11), (11, 6), (6, 1)] GGL_RGBA,
     mk_format 2 16 [(4, 0), (16, 12), (12, 8), (8, 4)] GGL_RGBA,
     mk_format 1 8 [(8, 0), (0, 0), (0, 0), (0, 0)] GGL_ALPHA,
     mk_format 1 8 [(0, 0), (8, 0), (8, 0), (8, 0)] GGL_LUMINANCE,
     mk_format 2 16 [(16, 8), (8, 0), (8, 0), (8, 0)] GGL_LUMINANCE_ALPHA,
     mk_format 1 8 [(0, 0), (8, 5), (5, 2), (2, 0)] GGL_RGB,
     format_none, format_none, format_none, format_none,
     format_none, format_none, format_none, format_none,
     format_none, format_none, format_none, format_none,
     mk_format 2 16 [(0, 0), (16, 0), (0, 0), (0, 0)] GGL_DEPTH_COMPONENT,
     mk_format 1 8 [(8, 0), (0, 0), (0, 0), (0, 0)] GGL_STENCIL_INDEX,
     mk_format 4 24 [(0, 0), (24, 0), (0, 0), (0, 0)] GGL_DEPTH_COMPONENT,
     mk_format 4 8 [(32, 24), (0, 0), (0, 0), (0, 0)] GGL_STENCIL_INDEX,
     format_none, format_none, format_none, format_none,
     format_none, format_none]"

definition fm_h :: "GGLFormat \<Rightarrow> nat \<Rightarrow> nat" where "fm_h f i = fst (fm_c f ! i)"
definition fm_l :: "GGLFormat \<Rightarrow> nat \<Rightarrow> nat" where "fm_l f i = snd (fm_c f ! i)"

definition format_mask :: "GGLFormat \<Rightarrow> nat \<Rightarrow> u32" where
  "format_mask f i = push_bit (fm_l f i) (push_bit (fm_h f i - fm_l f i) 1 - 1)"

definition format_bits :: "GGLFormat \<Rightarrow> nat \<Rightarrow> nat" where
  "format_bits f i = fm_h f i - fm_l f i"

subsection \<open>Structures\<close>

datatype read_proc = No_read | readABGR8888_proc | readRGB565_proc | read_pixel_proc
datatype write_proc = No_write | write_pixel_proc

text \<open>The values the drawing procedures of the context point to.\<close>

datatype point_proc = No_point | pointx_validate_proc | pointx_proc | aa_pointx_proc | aa_nice_pointx_proc
datatype line_proc = No_line | linex_validate_proc | linex_proc | aa_linex_proc
datatype rect_proc = No_rect | recti_validate_proc | recti_proc
datatype triangle_proc = No_triangle | trianglex_validate_proc | trianglex_big_proc | aa_trianglex_proc

text \<open>The values of \<^verbatim>\<open>init_y\<close>, \<^verbatim>\<open>step_y\<close>, \<^verbatim>\<open>scanline\<close> and \<^verbatim>\<open>rect\<close>.\<close>

datatype init_y_proc = No_init_y | Init_y | Init_y_noop | Init_y_packed | Init_y_error
datatype step_y_proc = No_step_y | Step_y_generic | Step_y_nop | Step_y_smooth | Step_y_tmu | Step_y_w
datatype blit_proc = No_blit | Rect_generic | Rect_memcpy
datatype scanline_proc = No_scanline | Scanline | Scanline_perspective | Scanline_perspective_single
  | Scanline_t32cb16blend | Scanline_t32cb16blend_dither | Scanline_t32cb16blend_srca
  | Scanline_t32cb16blend_clamp | Scanline_t32cb16blend_clamp_dither | Scanline_t32cb16blend_clamp_mod
  | Scanline_x32cb16blend_clamp_mod | Scanline_t32cb16blend_clamp_mod_dither | Scanline_x32cb16blend_clamp_mod_dither
  | Scanline_t32cb16 | Scanline_t32cb16_dither | Scanline_t32cb16_clamp | Scanline_t32cb16_clamp_dither
  | Scanline_col32cb16blend | Scanline_t16cb16_clamp | Scanline_t16cb16blend_clamp_mod | Scanline_memcpy
  | Scanline_memset8 | Scanline_memset16 | Scanline_memset32 | Scanline_noop | Scanline_set | Scanline_clear

record GGLSurface =
  gs_width :: u32
  gs_height :: u32
  gs_stride :: int
  gs_data :: int
  gs_format :: nat

record surface_t =
  sf_width :: u32
  sf_height :: u32
  sf_stride :: int
  sf_data :: int
  sf_format :: nat
  sf_dirty :: bool
  sf_read :: read_proc
  sf_write :: write_proc

record pixel_t =
  px_c :: "u32 list"
  px_s :: "nat list"

record texture_shade_t =
  is0 :: int
  idsdx :: int
  idsdy :: int
  sscale :: int
  it0 :: int
  idtdx :: int
  idtdy :: int
  tscale :: int

record texture_iterators_t =
  ti_ydsdy :: int
  ti_dsdx :: int
  ti_dsdy :: int
  ti_sscale :: int
  ti_ydtdy :: int
  ti_dtdx :: int
  ti_dtdy :: int
  ti_tscale :: int

record texture_t =
  tx_surface :: surface_t
  tx_iterators :: texture_iterators_t
  tx_shade :: texture_shade_t
  tx_s_coord :: nat
  tx_t_coord :: nat
  tx_s_wrap :: nat
  tx_t_wrap :: nat
  tx_min_filter :: nat
  tx_mag_filter :: nat
  tx_env :: nat
  tx_env_color :: "nat list"
  tx_enable :: bool

record framebuffer_t =
  fb_color :: surface_t
  fb_read :: surface_t
  fb_depth :: surface_t
  fb_stencil :: surface_t
  fb_coverage :: bool
  fb_coverageBufferSize :: nat

record scissor_t =
  user_left :: int
  user_right :: int
  user_top :: int
  user_bottom :: int
  sc_left :: u32
  sc_right :: u32
  sc_top :: u32
  sc_bottom :: u32

record blend_state_t =
  bl_src :: nat
  bl_dst :: nat
  bl_src_alpha :: nat
  bl_dst_alpha :: nat
  bl_alpha_separate :: bool

record mask_state_t =
  mk_color :: u32
  mk_depth :: nat
  mk_stencil :: u32

record clear_state_t =
  cl_r :: int
  cl_g :: int
  cl_b :: int
  cl_a :: int
  cl_depth :: int
  cl_stencil :: int
  cl_colorPacked :: u32
  cl_depthPacked :: u32
  cl_dirty :: u32

record needs_t =
  nd_n :: u32
  nd_p :: u32
  nd_t :: "u32 list"

record needs_filter_t =
  nf_value :: needs_t
  nf_mask :: needs_t

record state_t =
  buffers :: framebuffer_t
  texture :: "texture_t list"
  scissor :: scissor_t
  raster_x :: int
  raster_y :: int
  blend :: blend_state_t
  alpha_func :: nat
  alpha_ref :: int
  depth_func :: nat
  depth_clearValue :: int
  mask_state :: mask_state_t
  clear_state :: clear_state_t
  fog_color :: "nat list"
  logic_opcode :: nat
  enables :: u32
  enabled_tmu :: u32
  needs :: needs_t

record shade_t =
  sh_a0 :: int
  sh_dadx :: int
  sh_dady :: int
  sh_r0 :: int
  sh_drdx :: int
  sh_drdy :: int
  sh_g0 :: int
  sh_dgdx :: int
  sh_dgdy :: int
  sh_b0 :: int
  sh_dbdx :: int
  sh_dbdy :: int
  sh_z0 :: u32
  sh_dzdx :: int
  sh_dzdy :: int
  sh_w0 :: int
  sh_dwdx :: int
  sh_dwdy :: int
  sh_f0 :: u32
  sh_dfdx :: int
  sh_dfdy :: int

record iterators_t =
  it_xl :: int
  it_xr :: int
  it_y :: int
  it_ydady :: int
  it_ydrdy :: int
  it_ydgdy :: int
  it_ydbdy :: int
  it_ydzdy :: int
  it_ydwdy :: int
  it_ydfdy :: int

text \<open>The mirror for generated code; its words \<^verbatim>\<open>aref\<close>, \<^verbatim>\<open>zbase\<close>, \<^verbatim>\<open>spill\<close>, \<^verbatim>\<open>rt\<close> and \<^verbatim>\<open>lb\<close>
  are written by generated code only.\<close>

record generated_tex_vars_t =
  gt_width :: u32
  gt_height :: u32
  gt_stride :: int
  gt_data :: int
  gt_dsdx :: int
  gt_dtdx :: int

record generated_vars_t =
  gv_argb :: "(int \<times> int) list"
  gv_dzdx :: int
  gv_f :: int
  gv_dfdx :: int

record procs_t =
  pr_pointx :: point_proc
  pr_linex :: line_proc
  pr_recti :: rect_proc
  pr_trianglex :: triangle_proc

record context_t =
  procs :: procs_t
  state :: state_t
  shade :: shade_t
  iterators :: iterators_t
  generated_vars :: generated_vars_t
  packed :: u32
  packed8888 :: u32
  init_y_ptr :: init_y_proc
  step_y_ptr :: step_y_proc
  scanline_ptr :: scanline_proc
  span_ptr :: scanline_proc
  rect_ptr :: blit_proc
  generated_tex :: "generated_tex_vars_t list"
  ditherMatrix :: "nat list"
  dirty :: u32
  activeTMU :: nat
  activeTMUIndex :: nat
  ggl_err :: nat
  coverage :: "int \<Rightarrow> int"
  memory :: "int \<Rightarrow> u8"

subsection \<open>Needs\<close>

text \<open>A field of a needs word is its position and its width (\<^verbatim>\<open>GGL_RESERVE_NEEDS\<close>).\<close>

abbreviation (input) CB_FORMAT :: "nat \<times> nat" where "CB_FORMAT \<equiv> (0, 6)"
abbreviation (input) SHADE :: "nat \<times> nat" where "SHADE \<equiv> (6, 1)"
abbreviation (input) W :: "nat \<times> nat" where "W \<equiv> (7, 1)"
abbreviation (input) BLEND_SRC :: "nat \<times> nat" where "BLEND_SRC \<equiv> (8, 4)"
abbreviation (input) BLEND_DST :: "nat \<times> nat" where "BLEND_DST \<equiv> (12, 4)"
abbreviation (input) BLEND_SRCA :: "nat \<times> nat" where "BLEND_SRCA \<equiv> (16, 4)"
abbreviation (input) BLEND_DSTA :: "nat \<times> nat" where "BLEND_DSTA \<equiv> (20, 4)"
abbreviation (input) LOGIC_OP :: "nat \<times> nat" where "LOGIC_OP \<equiv> (24, 4)"
abbreviation (input) MASK_ARGB :: "nat \<times> nat" where "MASK_ARGB \<equiv> (28, 4)"
abbreviation (input) P_ALPHA_TEST :: "nat \<times> nat" where "P_ALPHA_TEST \<equiv> (0, 3)"
abbreviation (input) P_AA :: "nat \<times> nat" where "P_AA \<equiv> (3, 1)"
abbreviation (input) P_DEPTH_TEST :: "nat \<times> nat" where "P_DEPTH_TEST \<equiv> (4, 3)"
abbreviation (input) P_MASK_Z :: "nat \<times> nat" where "P_MASK_Z \<equiv> (7, 1)"
abbreviation (input) P_DITHER :: "nat \<times> nat" where "P_DITHER \<equiv> (8, 1)"
abbreviation (input) P_FOG :: "nat \<times> nat" where "P_FOG \<equiv> (9, 1)"
abbreviation (input) T_FORMAT :: "nat \<times> nat" where "T_FORMAT \<equiv> (0, 6)"
abbreviation (input) T_POT :: "nat \<times> nat" where "T_POT \<equiv> (7, 1)"
abbreviation (input) T_S_WRAP :: "nat \<times> nat" where "T_S_WRAP \<equiv> (8, 2)"
abbreviation (input) T_T_WRAP :: "nat \<times> nat" where "T_T_WRAP \<equiv> (10, 2)"
abbreviation (input) T_ENV :: "nat \<times> nat" where "T_ENV \<equiv> (12, 3)"
abbreviation (input) T_LINEAR :: "nat \<times> nat" where "T_LINEAR \<equiv> (15, 1)"

definition NEEDS_MASK :: "nat \<times> nat \<Rightarrow> u32" where
  "NEEDS_MASK f = push_bit (fst f) (mask (snd f))"

definition GGL_BUILD_NEEDS :: "nat \<Rightarrow> nat \<times> nat \<Rightarrow> u32" where
  "GGL_BUILD_NEEDS val f = push_bit (fst f) (word_of_nat val) AND NEEDS_MASK f"

definition GGL_READ_NEEDS :: "nat \<times> nat \<Rightarrow> u32 \<Rightarrow> nat" where
  "GGL_READ_NEEDS f n = unat (drop_bit (fst f) (n AND NEEDS_MASK f))"

abbreviation (input) GGL_NEEDS_WRAP_CLAMP_TO_EDGE :: nat where "GGL_NEEDS_WRAP_CLAMP_TO_EDGE \<equiv> 0"
abbreviation (input) GGL_NEEDS_WRAP_REPEAT :: nat where "GGL_NEEDS_WRAP_REPEAT \<equiv> 1"
abbreviation (input) GGL_NEEDS_WRAP_11 :: nat where "GGL_NEEDS_WRAP_11 \<equiv> 2"

definition ggl_wrap_to_needs :: "nat \<Rightarrow> nat" where
  "ggl_wrap_to_needs e =
     (if e = GGL_CLAMP then GGL_NEEDS_WRAP_CLAMP_TO_EDGE
      else if e = GGL_REPEAT then GGL_NEEDS_WRAP_REPEAT else 0)"

definition ggl_blendfactor_to_needs :: "nat \<Rightarrow> nat" where
  "ggl_blendfactor_to_needs b = (if b \<le> 1 then b else (b AND 0xF) + 2)"

definition ggl_needs_to_blendfactor :: "nat \<Rightarrow> nat" where
  "ggl_needs_to_blendfactor n = (if n \<le> 1 then n else (n - 2) + 0x300)"

definition ggl_env_to_needs :: "nat \<Rightarrow> nat" where
  "ggl_env_to_needs e =
     (if e = GGL_REPLACE then 0 else if e = GGL_MODULATE then 1 else if e = GGL_DECAL then 2
      else if e = GGL_BLEND then 3 else if e = GGL_ADD then 4 else 0)"

definition ggl_needs_to_env :: "nat \<Rightarrow> nat option" where
  "ggl_needs_to_env n =
     (let envs = [GGL_REPLACE, GGL_MODULATE, GGL_DECAL, GGL_BLEND, GGL_ADD]
      in if n < length envs then Some (envs ! n) else None)"

definition needs_match :: "needs_t \<Rightarrow> needs_filter_t \<Rightarrow> bool" where
  "needs_match x f =
     (((nd_n (nf_value f) XOR nd_n x) AND nd_n (nf_mask f)) OR
      ((nd_p (nf_value f) XOR nd_p x) AND nd_p (nf_mask f)) OR
      ((nd_t (nf_value f) ! 0 XOR nd_t x ! 0) AND nd_t (nf_mask f) ! 0) OR
      ((nd_t (nf_value f) ! 1 XOR nd_t x ! 1) AND nd_t (nf_mask f) ! 1) = 0)"

subsection \<open>Errors and state changes\<close>

definition ggl_error :: "context_t \<Rightarrow> nat \<Rightarrow> context_t" where
  "ggl_error c err = (if ggl_err c = GL_NO_ERROR then c\<lparr>ggl_err := err\<rparr> else c)"

text \<open>The first change since the last validation puts the validating procedures in place.\<close>

definition validate_procs :: procs_t where
  "validate_procs = \<lparr>pr_pointx = pointx_validate_proc, pr_linex = linex_validate_proc,
     pr_recti = recti_validate_proc, pr_trianglex = trianglex_validate_proc\<rparr>"

definition ggl_state_changed :: "context_t \<Rightarrow> u32 \<Rightarrow> context_t" where
  "ggl_state_changed c flags =
     (let c = (if dirty c = 0 then c\<lparr>procs := validate_procs\<rparr> else c)
      in c\<lparr>dirty := dirty c OR flags\<rparr>)"

definition upd_state :: "(state_t \<Rightarrow> state_t) \<Rightarrow> context_t \<Rightarrow> context_t" where
  "upd_state f c = c\<lparr>state := f (state c)\<rparr>"

definition upd_tmu :: "nat \<Rightarrow> (texture_t \<Rightarrow> texture_t) \<Rightarrow> context_t \<Rightarrow> context_t" where
  "upd_tmu i f = upd_state (\<lambda>s. s\<lparr>texture := (texture s)[i := f (texture s ! i)]\<rparr>)"

definition has_flag :: "u32 \<Rightarrow> u32 \<Rightarrow> bool" where
  "has_flag w f \<longleftrightarrow> w AND f \<noteq> 0"

definition the_format :: "nat \<Rightarrow> GGLFormat" where
  "the_format fmt = gPixelFormatInfos ! fmt"

lemmas [ctx_defs] = ggl_error_def ggl_state_changed_def upd_state_def upd_tmu_def

subsection \<open>The zeroed context\<close>

text \<open>\<^verbatim>\<open>memset(c, 0, sizeof(context_t))\<close>; \<open>m\<close> is the memory outside the structure.\<close>

definition surface_zero :: surface_t where
  "surface_zero = \<lparr>sf_width = 0, sf_height = 0, sf_stride = 0, sf_data = 0, sf_format = 0, sf_dirty = False,
     sf_read = No_read, sf_write = No_write\<rparr>"

definition texture_zero :: texture_t where
  "texture_zero = \<lparr>tx_surface = surface_zero,
     tx_iterators = \<lparr>ti_ydsdy = 0, ti_dsdx = 0, ti_dsdy = 0, ti_sscale = 0,
       ti_ydtdy = 0, ti_dtdx = 0, ti_dtdy = 0, ti_tscale = 0\<rparr>,
     tx_shade = \<lparr>is0 = 0, idsdx = 0, idsdy = 0, sscale = 0, it0 = 0, idtdx = 0, idtdy = 0, tscale = 0\<rparr>,
     tx_s_coord = 0, tx_t_coord = 0, tx_s_wrap = 0, tx_t_wrap = 0, tx_min_filter = 0, tx_mag_filter = 0,
     tx_env = 0, tx_env_color = [0, 0, 0, 0], tx_enable = False\<rparr>"

definition state_zero :: state_t where
  "state_zero =
     \<lparr>buffers = \<lparr>fb_color = surface_zero, fb_read = surface_zero, fb_depth = surface_zero, fb_stencil = surface_zero,
        fb_coverage = False, fb_coverageBufferSize = 0\<rparr>,
      texture = [texture_zero, texture_zero],
      scissor = \<lparr>user_left = 0, user_right = 0, user_top = 0, user_bottom = 0,
        sc_left = 0, sc_right = 0, sc_top = 0, sc_bottom = 0\<rparr>,
      raster_x = 0, raster_y = 0,
      blend = \<lparr>bl_src = 0, bl_dst = 0, bl_src_alpha = 0, bl_dst_alpha = 0, bl_alpha_separate = False\<rparr>,
      alpha_func = 0, alpha_ref = 0, depth_func = 0, depth_clearValue = 0,
      mask_state = \<lparr>mk_color = 0, mk_depth = 0, mk_stencil = 0\<rparr>,
      clear_state = \<lparr>cl_r = 0, cl_g = 0, cl_b = 0, cl_a = 0, cl_depth = 0, cl_stencil = 0,
        cl_colorPacked = 0, cl_depthPacked = 0, cl_dirty = 0\<rparr>,
      fog_color = [0, 0, 0, 0], logic_opcode = 0, enables = 0, enabled_tmu = 0,
      needs = \<lparr>nd_n = 0, nd_p = 0, nd_t = [0, 0]\<rparr>\<rparr>"

definition shade_zero :: shade_t where
  "shade_zero = \<lparr>sh_a0 = 0, sh_dadx = 0, sh_dady = 0, sh_r0 = 0, sh_drdx = 0, sh_drdy = 0,
     sh_g0 = 0, sh_dgdx = 0, sh_dgdy = 0, sh_b0 = 0, sh_dbdx = 0, sh_dbdy = 0, sh_z0 = 0, sh_dzdx = 0, sh_dzdy = 0,
     sh_w0 = 0, sh_dwdx = 0, sh_dwdy = 0, sh_f0 = 0, sh_dfdx = 0, sh_dfdy = 0\<rparr>"

definition context_zero :: "(int \<Rightarrow> u8) \<Rightarrow> context_t" where
  "context_zero m =
    \<lparr>procs = \<lparr>pr_pointx = No_point, pr_linex = No_line, pr_recti = No_rect, pr_trianglex = No_triangle\<rparr>,
     state = state_zero, shade = shade_zero,
     iterators = \<lparr>it_xl = 0, it_xr = 0, it_y = 0, it_ydady = 0, it_ydrdy = 0, it_ydgdy = 0, it_ydbdy = 0,
       it_ydzdy = 0, it_ydwdy = 0, it_ydfdy = 0\<rparr>,
     generated_vars = \<lparr>gv_argb = replicate 4 (0, 0), gv_dzdx = 0, gv_f = 0, gv_dfdx = 0\<rparr>,
     packed = 0, packed8888 = 0, init_y_ptr = No_init_y, step_y_ptr = No_step_y, scanline_ptr = No_scanline,
     span_ptr = No_scanline, rect_ptr = No_blit,
     generated_tex = replicate 2 \<lparr>gt_width = 0, gt_height = 0, gt_stride = 0, gt_data = 0, gt_dsdx = 0, gt_dtdx = 0\<rparr>,
     ditherMatrix = replicate 64 0, dirty = 0, activeTMU = 0, activeTMUIndex = 0, ggl_err = 0, coverage = (\<lambda>_. 0), memory = m\<rparr>"

lemma context_zero_simps [simp]:
  "state (context_zero m) = state_zero" "memory (context_zero m) = m" "shade (context_zero m) = shade_zero"
  "dirty (context_zero m) = 0" "ggl_err (context_zero m) = 0" "activeTMU (context_zero m) = 0"
  "activeTMUIndex (context_zero m) = 0" "length (generated_tex (context_zero m)) = 2"
  by (simp_all add: context_zero_def)

lemma state_zero_simps [simp]:
  "enables state_zero = 0" "texture state_zero = [texture_zero, texture_zero]" "enabled_tmu state_zero = 0"
  by (simp_all add: state_zero_def)

subsection \<open>Facts about formats and needs\<close>

text \<open>Every component of every format of the table lies inside the pixel.\<close>

definition format_ok :: "GGLFormat \<Rightarrow> bool" where
  "format_ok f \<longleftrightarrow> fm_size f \<le> 4 \<and> length (fm_c f) = 4 \<and>
     list_all (\<lambda>(h, l). l \<le> h \<and> h \<le> 8 * fm_size f) (fm_c f)"

lemma formats_ok: "list_all format_ok gPixelFormatInfos"
  by (simp add: gPixelFormatInfos_def mk_format_def format_none_def format_ok_def)

lemma format_fields:
  assumes "f \<in> set gPixelFormatInfos" "i < 4"
  shows "fm_l f i \<le> fm_h f i \<and> fm_h f i \<le> 8 * fm_size f \<and> fm_size f \<le> 4"
proof -
  have "format_ok f" using formats_ok assms(1) by (simp add: list_all_iff)
  moreover then have "fm_c f ! i \<in> set (fm_c f)" using assms(2) by (simp add: format_ok_def)
  ultimately show ?thesis by (cases "fm_c f ! i") (auto simp: format_ok_def fm_h_def fm_l_def list_all_iff)
qed

lemma length_formats: "length gPixelFormatInfos = 34"
  by (simp add: gPixelFormatInfos_def)

lemma bit_NEEDS_MASK: "bit (NEEDS_MASK f) k \<longleftrightarrow> fst f \<le> k \<and> k < fst f + snd f \<and> k < 32"
  by (auto simp: NEEDS_MASK_def bit_simps)

lemma build_read_needs:
  assumes "val < 2 ^ snd f" "fst f + snd f \<le> 32"
  shows "GGL_READ_NEEDS f (GGL_BUILD_NEEDS val f) = val"
proof -
  have b: "k < snd f" if "bit val k" for k
    using assms(1) that by (metis bit_take_bit_iff take_bit_nat_eq_self_iff)
  have "drop_bit (fst f) (GGL_BUILD_NEEDS val f AND NEEDS_MASK f) = (word_of_nat val :: u32)"
    by (rule bit_word_eqI) (use assms(2) b in \<open>fastforce simp: GGL_BUILD_NEEDS_def bit_simps bit_NEEDS_MASK\<close>)
  moreover have "val < 2 ^ 32" using assms by (metis add_leD2 less_le_trans one_le_numeral power_increasing)
  ultimately show ?thesis by (simp add: GGL_READ_NEEDS_def unsigned_of_nat take_bit_nat_eq_self)
qed

lemma blendfactor_roundtrip:
  "b \<in> {0, 1} \<union> {0x300..0x308} \<Longrightarrow> ggl_needs_to_blendfactor (ggl_blendfactor_to_needs b) = b \<and> ggl_blendfactor_to_needs b < 16"
proof -
  assume "b \<in> {0, 1} \<union> {0x300..0x308}"
  then have "b \<in> {0, 1, 0x300, 0x301, 0x302, 0x303, 0x304, 0x305, 0x306, 0x307, 0x308}" by auto
  then show ?thesis by (auto simp: ggl_needs_to_blendfactor_def ggl_blendfactor_to_needs_def)
qed

lemma env_roundtrip:
  "e \<in> {GGL_REPLACE, GGL_MODULATE, GGL_DECAL, GGL_BLEND, GGL_ADD} \<Longrightarrow> ggl_needs_to_env (ggl_env_to_needs e) = Some e"
  by (auto simp: ggl_needs_to_env_def ggl_env_to_needs_def)

text \<open>A match compares exactly the bits of the filter's mask.\<close>

lemma needs_match_bits:
  "needs_match x f \<longleftrightarrow>
     (\<forall>k. bit (nd_n (nf_mask f)) k \<longrightarrow> bit (nd_n x) k = bit (nd_n (nf_value f)) k) \<and>
     (\<forall>k. bit (nd_p (nf_mask f)) k \<longrightarrow> bit (nd_p x) k = bit (nd_p (nf_value f)) k) \<and>
     (\<forall>i < 2. \<forall>k. bit (nd_t (nf_mask f) ! i) k \<longrightarrow> bit (nd_t x ! i) k = bit (nd_t (nf_value f) ! i) k)"
proof -
  have z: "(a XOR b) AND m = 0 \<longleftrightarrow> (\<forall>k. bit m k \<longrightarrow> bit b k = bit a k)" for a b m :: u32
    by (auto simp: bit_eq_iff bit_simps) (use bit_imp_le_length [of m] in force)+
  have o: "a OR b = 0 \<longleftrightarrow> a = 0 \<and> b = 0" for a b :: u32 by (auto simp: bit_eq_iff bit_simps)
  show ?thesis unfolding needs_match_def by (simp add: o z numeral_2_eq_2 less_Suc_eq all_conj_distrib)
qed

end
