(* ===== verification/PixelBuffer.thy ===== *)
theory PixelBuffer
  imports GGLContext
begin

text \<open>
  Pixel access: \<^verbatim>\<open>libpixelflinger/buffer.cpp\<close>. The routines that take a word apart and put it
  together (\<^verbatim>\<open>extract\<close>, \<^verbatim>\<open>expand\<close>, \<^verbatim>\<open>downshift_component\<close>, \<^verbatim>\<open>logic_op\<close>), the readers and
  the writer of a surface, and the colour packing used by the clear operation. A failed
  \<^verbatim>\<open>assert\<close> and a shift by a count outside the width of the word are \<^term>\<open>None\<close>. The machine is
  little-endian, so \<^verbatim>\<open>GGL_RGBA_TO_HOST\<close> and \<^verbatim>\<open>GGL_HOST_TO_RGBA\<close> are the identity.
\<close>

subsection \<open>Components\<close>

definition extract_field :: "u32 \<Rightarrow> nat \<Rightarrow> nat \<Rightarrow> nat \<Rightarrow> u32 option" where
  "extract_field v h l bits =
     (if h = 0 then None
      else
        let v = (if l \<noteq> 0 then drop_bit l v else v)
        in Some (if h \<noteq> bits then v AND (push_bit (h - l) 1 - 1) else v))"

text \<open>The two loops of \<^verbatim>\<open>expand\<close>; \<open>sbits\<close> is at least two, so \<open>dbits\<close> decreases.\<close>

function expand_down :: "u32 \<Rightarrow> int \<Rightarrow> int \<Rightarrow> u32" where
  "expand_down v sbits dbits =
     (let v = v OR drop_bit (nat sbits) v in
      if dbits - sbits > 0 \<and> sbits > 0 then expand_down v (sbits * 2) (dbits - sbits) else v)"
  by pat_completeness auto
termination
  by (relation "measure (\<lambda>(v, s, d). nat d)") auto

function expand_up :: "u32 \<Rightarrow> int \<Rightarrow> int \<Rightarrow> u32" where
  "expand_up v sbits dbits =
     (let v = v OR push_bit (nat sbits) v; dbits = dbits - sbits;
          sbits' = (if sbits * 2 < dbits then sbits * 2 else sbits)
      in if dbits > 0 \<and> sbits > 0 then expand_up v sbits' dbits else v)"
  by pat_completeness auto
termination
  by (relation "measure (\<lambda>(v, s, d). nat d)") auto

definition expand :: "u32 \<Rightarrow> int \<Rightarrow> int \<Rightarrow> u32 option" where
  "expand v sbits dbits =
     (if dbits > sbits then
        if sbits \<le> 0 then None
        else if sbits = 1 then Some (push_bit (nat dbits) v - v)
        else if dbits mod sbits \<noteq> 0 then
          Some (expand_down (push_bit (nat (dbits - sbits)) v) sbits (dbits - sbits))
        else Some (expand_up v sbits (dbits - sbits))
      else Some v)"

definition ggl_expand :: "u32 \<Rightarrow> int \<Rightarrow> int \<Rightarrow> u32 option" where
  "ggl_expand v sbits dbits = expand v sbits dbits"

definition shl :: "u32 \<Rightarrow> int \<Rightarrow> u32 option" where
  "shl v k = (if 0 \<le> k \<and> k < 32 then Some (push_bit (nat k) v) else None)"

definition shr :: "u32 \<Rightarrow> int \<Rightarrow> u32 option" where
  "shr v k = (if 0 \<le> k \<and> k < 32 then Some (drop_bit (nat k) v) else None)"

definition dither_component :: "u32 \<Rightarrow> int \<Rightarrow> int \<Rightarrow> int \<Rightarrow> int \<Rightarrow> u32" where
  "dither_component v sbits dbits sl dither =
     (let v = v - drop_bit (nat dbits) v;
          shift = 6 - (sbits - dbits)
      in if shift \<ge> 0 then v + word_of_int (dither div 2 ^ nat shift * 2 ^ nat sl)
         else v + word_of_int (dither * 2 ^ nat (- shift) * 2 ^ nat sl))"

definition downshift_component ::
  "u32 \<Rightarrow> u32 \<Rightarrow> int \<Rightarrow> int \<Rightarrow> int \<Rightarrow> int \<Rightarrow> bool \<Rightarrow> bool \<Rightarrow> int \<Rightarrow> u32 option" where
  "downshift_component inp v sh sl dh dl ch cl dither =
     (let sbits = sh - sl; dbits = dh - dl in
      if sbits < dbits then None
      else
        let v = (if sbits > dbits \<and> dither \<ge> 0 then dither_component v sbits dbits sl dither else v);
            (v, sl, sh) = (if ch then (push_bit (nat (32 - sh)) v, sl + 32 - sh, 32) else (v, sl, sh))
        in if dl \<noteq> 0 then
             if cl \<or> sbits > dbits then do { w \<leftarrow> shr v (sh - dbits); w \<leftarrow> shl w dl; Some (inp OR w) }
             else do { w \<leftarrow> shl v (dh - sh); Some (inp OR w) }
           else
             let shift = sh - dh in
             if shift > 0 then do { w \<leftarrow> shr v shift; Some (inp OR w) }
             else if shift < 0 then do { w \<leftarrow> shl v shift; Some (inp OR w) }
             else Some (inp OR v))"

definition logic_op :: "nat \<Rightarrow> u32 \<Rightarrow> u32 \<Rightarrow> u32" where
  "logic_op op s d =
     (if op = 0x1500 then 0
      else if op = 0x1501 then s AND d
      else if op = 0x1502 then s AND NOT d
      else if op = 0x1503 then s
      else if op = 0x1504 then NOT s AND d
      else if op = 0x1505 then d
      else if op = 0x1506 then s XOR d
      else if op = 0x1507 then s OR d
      else if op = 0x1508 then NOT (s OR d)
      else if op = 0x1509 then NOT (s XOR d)
      else if op = 0x150A then NOT d
      else if op = 0x150B then s OR NOT d
      else if op = 0x150C then NOT s
      else if op = 0x150D then NOT s OR d
      else if op = 0x150E then NOT (s AND d)
      else if op = 0x150F then NOT 0
      else s)"

definition ggl_pack_color :: "nat \<Rightarrow> int \<Rightarrow> int \<Rightarrow> int \<Rightarrow> int \<Rightarrow> u32 option" where
  "ggl_pack_color format r g b a =
     (let f = the_format format;
          comp = (\<lambda>i v p. downshift_component p (word_of_int v) 24 16 (int (fm_h f i)) (int (fm_l f i)) False True (- 1))
      in do {
        p \<leftarrow> comp 1 r 0;
        p \<leftarrow> comp 2 g p;
        p \<leftarrow> comp 3 b p;
        p \<leftarrow> comp 0 a p;
        let p = (if fm_size f = 1 then p OR push_bit 8 p else p);
        Some (if fm_size f = 1 \<or> fm_size f = 2 then p OR push_bit 16 p else p)
      })"

subsection \<open>Memory words\<close>

text \<open>The switch over \<^verbatim>\<open>f->size\<close> that loads or stores a pixel.\<close>

definition load_pixel :: "(int \<Rightarrow> u8) \<Rightarrow> int \<Rightarrow> nat \<Rightarrow> u32" where
  "load_pixel m a sz =
     (if sz = 1 then ucast (m a)
      else if sz = 2 then ucast (m a) OR push_bit 8 (ucast (m (a + 1)))
      else if sz = 3 then push_bit 16 (ucast (m (a + 2))) OR push_bit 8 (ucast (m (a + 1))) OR ucast (m a)
      else if sz = 4 then
        ucast (m a) OR push_bit 8 (ucast (m (a + 1))) OR push_bit 16 (ucast (m (a + 2))) OR
        push_bit 24 (ucast (m (a + 3)))
      else 0)"

definition store_pixel :: "(int \<Rightarrow> u8) \<Rightarrow> int \<Rightarrow> nat \<Rightarrow> u32 \<Rightarrow> (int \<Rightarrow> u8)" where
  "store_pixel m a sz v =
     (if sz = 1 then m(a := ucast v)
      else if sz = 2 then m(a := ucast v, a + 1 := ucast (drop_bit 8 v))
      else if sz = 3 then m(a := ucast v, a + 1 := ucast (drop_bit 8 v), a + 2 := ucast (drop_bit 16 v))
      else if sz = 4 then
        m(a := ucast v, a + 1 := ucast (drop_bit 8 v), a + 2 := ucast (drop_bit 16 v),
          a + 3 := ucast (drop_bit 24 v))
      else m)"

definition pixel_address :: "surface_t \<Rightarrow> nat \<Rightarrow> u32 \<Rightarrow> u32 \<Rightarrow> int" where
  "pixel_address s sz x y =
     sf_data s + s32 (uint x + sf_stride s * uint y) * int sz"

text \<open>The two special readers add the unsigned 32-bit index to the pointer.\<close>

definition fast_address :: "surface_t \<Rightarrow> nat \<Rightarrow> u32 \<Rightarrow> u32 \<Rightarrow> int" where
  "fast_address s sz x y = sf_data s + uint (x + word_of_int (sf_stride s) * y) * int sz"

subsection \<open>Readers and writer\<close>

text \<open>\<open>px\<close> is the pixel structure before the call: a component of no bits is not assigned.\<close>

definition read_component :: "GGLFormat \<Rightarrow> u32 \<Rightarrow> pixel_t \<Rightarrow> nat \<Rightarrow> pixel_t option" where
  "read_component f v px i =
     (let n = fm_h f i - fm_l f i; px = px\<lparr>px_s := (px_s px)[i := n]\<rparr> in
      if n \<noteq> 0 then do {
        e \<leftarrow> extract_field v (fm_h f i) (fm_l f i) (fm_size f * 8);
        Some (px\<lparr>px_c := (px_c px)[i := e]\<rparr>)
      } else Some px)"

definition read_pixel :: "context_t \<Rightarrow> surface_t \<Rightarrow> u32 \<Rightarrow> u32 \<Rightarrow> pixel_t \<Rightarrow> pixel_t option" where
  "read_pixel c s x y px =
     (if \<not> (x < sf_width s \<and> y < sf_height s) then None
      else
        let f = the_format (sf_format s);
            v = load_pixel (memory c) (pixel_address s (fm_size f) x y) (fm_size f)
        in do {
          px \<leftarrow> read_component f v px 0;
          px \<leftarrow> read_component f v px 1;
          px \<leftarrow> read_component f v px 2;
          read_component f v px 3
        })"

definition readRGB565 :: "context_t \<Rightarrow> surface_t \<Rightarrow> u32 \<Rightarrow> u32 \<Rightarrow> pixel_t \<Rightarrow> pixel_t" where
  "readRGB565 c s x y px =
     (let v = load_pixel (memory c) (fast_address s 2 x y) 2
      in \<lparr>px_c = [0, drop_bit 11 v, drop_bit 5 v AND 0x3F, v AND 0x1F], px_s = [0, 5, 6, 5]\<rparr>)"

definition readABGR8888 :: "context_t \<Rightarrow> surface_t \<Rightarrow> u32 \<Rightarrow> u32 \<Rightarrow> pixel_t \<Rightarrow> pixel_t" where
  "readABGR8888 c s x y px =
     (let v = load_pixel (memory c) (fast_address s 4 x y) 4
      in \<lparr>px_c = [drop_bit 24 v, v AND 0xFF, drop_bit 8 v AND 0xFF, drop_bit 16 v AND 0xFF],
          px_s = [8, 8, 8, 8]\<rparr>)"

text \<open>One round of the component loop of \<^verbatim>\<open>write_pixel\<close>: the mask and the word so far.\<close>

definition write_component ::
  "context_t \<Rightarrow> GGLFormat \<Rightarrow> pixel_t \<Rightarrow> int \<Rightarrow> nat \<Rightarrow> u32 \<times> u32 \<Rightarrow> (u32 \<times> u32) option" where
  "write_component c f px dither i = (\<lambda>(msk, v).
     if fm_components f \<ge> GGL_LUMINANCE \<and> (i = 2 \<or> i = 3) then Some (msk, v)
     else
       let l = fm_l f i; h = fm_h f i in
       if h \<noteq> 0 \<and> mk_color (mask_state (state c)) AND push_bit i 1 \<noteq> 0 then
         let msk = msk OR push_bit l (push_bit (h - l) 1 - 1); u = px_c px ! i; n = px_s px ! i in do {
           (u, n) \<leftarrow> (if n < h - l then do { u \<leftarrow> expand u (int n) (int (h - l)); Some (u, h - l) } else Some (u, n));
           v \<leftarrow> downshift_component v u (int n) 0 (int h) (int l) False False dither;
           Some (msk, v)
         }
       else Some (msk, v))"

definition dither_at :: "context_t \<Rightarrow> u32 \<Rightarrow> u32 \<Rightarrow> int" where
  "dither_at c x y =
     (if has_flag (enables (state c)) GGL_ENABLE_DITHER
      then int (ditherMatrix c ! unat ((x AND 7) + push_bit 3 (y AND 7))) else - 1)"

definition write_pixel :: "context_t \<Rightarrow> surface_t \<Rightarrow> u32 \<Rightarrow> u32 \<Rightarrow> pixel_t \<Rightarrow> context_t option" where
  "write_pixel c s x y px =
     (if \<not> (x < sf_width s \<and> y < sf_height s) then None
      else
        let dither = dither_at c x y;
            f = the_format (sf_format s);
            a = pixel_address s (fm_size f) x y
        in do {
          mv \<leftarrow> write_component c f px dither 0 (0, 0);
          mv \<leftarrow> write_component c f px dither 1 mv;
          mv \<leftarrow> write_component c f px dither 2 mv;
          (msk, v) \<leftarrow> write_component c f px dither 3 mv;
          let lop = has_flag (enables (state c)) GGL_ENABLE_LOGIC_OP;
          let d = load_pixel (memory c) a (fm_size f);
          let v = (if mk_color (mask_state (state c)) \<noteq> 0xF \<or> lop
                   then (if lop then logic_op (logic_opcode (state c)) v d AND msk else v) OR (d AND NOT msk)
                   else v);
          Some (c\<lparr>memory := store_pixel (memory c) a (fm_size f) v\<rparr>)
        })"

subsection \<open>Surfaces\<close>

definition ggl_init_texture :: "context_t \<Rightarrow> context_t" where
  "ggl_init_texture c =
     (upd_state (\<lambda>s. s\<lparr>texture := map (\<lambda>t. t\<lparr>tx_s_coord := GGL_ONE_TO_ONE, tx_t_coord := GGL_ONE_TO_ONE,
        tx_s_wrap := GGL_REPEAT, tx_t_wrap := GGL_REPEAT, tx_min_filter := GGL_NEAREST,
        tx_mag_filter := GGL_NEAREST, tx_env := GGL_MODULATE\<rparr>) (texture s)\<rparr>) c)\<lparr>activeTMU := 0\<rparr>"

definition ggl_set_surface :: "surface_t \<Rightarrow> GGLSurface \<Rightarrow> surface_t" where
  "ggl_set_surface dst src =
     (let dst = dst\<lparr>sf_width := gs_width src, sf_height := gs_height src, sf_stride := gs_stride src,
                    sf_data := gs_data src, sf_format := gs_format src, sf_dirty := True\<rparr>
      in if sf_stride dst < 0 then
           let bpr = s32 (- sf_stride dst * int (fm_size (the_format (sf_format dst))))
           in dst\<lparr>sf_data := sf_data dst + uint (word_of_int bpr * (sf_height dst - 1))\<rparr>
         else dst)"

definition pick_read_write :: "surface_t \<Rightarrow> surface_t" where
  "pick_read_write s =
     s\<lparr>sf_read := (if sf_format s = GGL_PIXEL_FORMAT_RGBA_8888 then readABGR8888_proc
                   else if sf_format s = GGL_PIXEL_FORMAT_RGB_565 then readRGB565_proc
                   else read_pixel_proc),
       sf_write := write_pixel_proc\<rparr>"

definition pick_texture_unit :: "context_t \<Rightarrow> nat \<Rightarrow> context_t" where
  "pick_texture_unit c i =
     (let t = texture (state c) ! i; s = tx_surface t in
      if \<not> tx_enable t \<or> \<not> sf_dirty s then c
      else
        let s = pick_read_write (s\<lparr>sf_dirty := False\<rparr>);
            c = upd_tmu i (\<lambda>t. t\<lparr>tx_surface := s\<rparr>) c
        in c\<lparr>generated_tex := (generated_tex c)[i := (generated_tex c ! i)\<lparr>gt_width := sf_width s,
               gt_height := sf_height s, gt_stride := sf_stride s mod 2 ^ 32, gt_data := s32 (sf_data s)\<rparr>]\<rparr>)"

definition ggl_pick_texture :: "context_t \<Rightarrow> context_t" where
  "ggl_pick_texture c = pick_texture_unit (pick_texture_unit c 0) 1"

definition ggl_pick_cb :: "context_t \<Rightarrow> context_t" where
  "ggl_pick_cb c =
     (let s = fb_color (buffers (state c)) in
      if sf_dirty s then
        upd_state (\<lambda>st. st\<lparr>buffers := (buffers st)\<lparr>fb_color := pick_read_write (s\<lparr>sf_dirty := False\<rparr>)\<rparr>\<rparr>) c
      else c)"

subsection \<open>Words as sets of bits\<close>

text \<open>A value placed into a field.\<close>

definition field :: "nat \<Rightarrow> nat \<Rightarrow> u32 \<Rightarrow> u32" where
  "field h l u = push_bit l (u AND mask (h - l))"

definition get_field :: "nat \<Rightarrow> nat \<Rightarrow> u32 \<Rightarrow> u32" where
  "get_field h l v = drop_bit l v AND mask (h - l)"

lemma bit_field: "bit (field h l u) k \<longleftrightarrow> l \<le> k \<and> k < h \<and> k < 32 \<and> bit u (k - l)"
  by (auto simp: field_def bit_simps)

lemma bit_get_field: "bit (get_field h l v) k \<longleftrightarrow> k + l < h \<and> k + l < 32 \<and> bit v (k + l)"
  by (auto simp: get_field_def bit_simps add.commute less_diff_conv) (use bit_imp_le_length [of v] in force)

lemma mask_push: "(push_bit n 1 - 1 :: u32) = mask n"
  by (simp add: mask_eq_exp_minus_1 push_bit_eq_mult)

lemma extract_get_field:
  assumes "h \<noteq> 0" "h \<le> bits" "bits \<le> 32" "\<And>k. bit v k \<Longrightarrow> k < bits"
  shows "extract_field v h l bits = Some (get_field h l v)"
proof -
  have "drop_bit l v = get_field h l v" if "h = bits"
    by (rule bit_word_eqI) (use that assms(3,4) in \<open>fastforce simp: bit_get_field bit_simps add.commute\<close>)
  then show ?thesis using assms(1)
    by (auto simp: extract_field_def Let_def mask_eq_exp_minus_1 get_field_def)
qed

lemma byte_cases:
  fixes k :: nat
  obtains "k < 8" "k div 8 = 0" "k mod 8 = k" | "8 \<le> k" "k < 16" "k div 8 = 1" "k mod 8 = k - 8"
  | "16 \<le> k" "k < 24" "k div 8 = 2" "k mod 8 = k - 16" | "24 \<le> k" "k < 32" "k div 8 = 3" "k mod 8 = k - 24"
  | "32 \<le> k"
proof -
  have d: "k div 8 = Suc ((k - 8) div 8) \<and> k mod 8 = (k - 8) mod 8" if "8 \<le> k" for k :: nat
    using that by (simp add: le_div_geq le_mod_geq)
  consider "k < 8" | "8 \<le> k" "k < 16" | "16 \<le> k" "k < 24" | "24 \<le> k" "k < 32" | "32 \<le> k" by linarith
  then show thesis
  proof cases
    case 3
    then show thesis using that(3) d [of k] d [of "k - 8"] by simp
  next
    case 4
    then show thesis using that(4) d [of k] d [of "k - 8"] d [of "k - 16"] by simp
  qed (use that d [of k] in simp_all)
qed

lemma bit_u8: "bit (b :: u8) k \<Longrightarrow> k < 8"
  using bit_imp_le_length [of b k] by simp

lemma bit_load_pixel:
  assumes "sz \<in> {1, 2, 3, 4}"
  shows "bit (load_pixel m a sz) k \<longleftrightarrow> k < 8 * sz \<and> bit (m (a + int (k div 8))) (k mod 8)"
  using assms
  by (cases k rule: byte_cases) (auto simp: load_pixel_def bit_simps dest: bit_u8)

lemma bit_store_pixel:
  assumes "sz \<in> {1, 2, 3, 4}"
  shows "store_pixel m a sz v b = (if a \<le> b \<and> b < a + int sz then ucast (drop_bit (8 * nat (b - a)) v) else m b)"
proof -
  have "b - a \<in> {0, 1, 2, 3}" if "a \<le> b" "b < a + int sz" using that assms by auto
  then show ?thesis using assms by (auto simp: store_pixel_def)
qed

lemma load_store:
  assumes "sz \<in> {1, 2, 3, 4}"
  shows "load_pixel (store_pixel m a sz v) a sz = v AND mask (8 * sz)"
proof (rule bit_word_eqI)
  fix k
  have "k div 8 < sz \<longleftrightarrow> k < 8 * sz" by (simp add: div_less_iff_less_mult mult.commute)
  moreover have "k mod 8 + 8 * (k div 8) = k" by simp
  ultimately show "bit (load_pixel (store_pixel m a sz v) a sz) k = bit (v AND mask (8 * sz)) k"
    using assms by (auto simp: bit_load_pixel bit_store_pixel bit_simps add.commute)
qed

lemma load_outside:
  assumes "sz \<in> {1, 2, 3, 4}" "\<And>b. a \<le> b \<Longrightarrow> b < a + int sz \<Longrightarrow> m b = m' b"
  shows "load_pixel m a sz = load_pixel m' a sz"
  using assms by (auto simp: load_pixel_def)

subsection \<open>Fields of the colour formats\<close>

definition disjoint_fields :: "GGLFormat \<Rightarrow> bool" where
  "disjoint_fields f \<longleftrightarrow> (\<forall>i \<in> {0, 1, 2, 3}. \<forall>j \<in> {0, 1, 2, 3}. i = j \<or> fm_h f i \<le> fm_l f j \<or> fm_h f j \<le> fm_l f i)"

definition color_formats :: "nat list" where
  "color_formats = [1, 2, 3, 4, 5, 6, 7, 8, 11]"

lemma color_format_facts:
  assumes "fmt \<in> set color_formats" "i < 4"
  shows "disjoint_fields (the_format fmt)" "fm_size (the_format fmt) \<in> {1, 2, 3, 4}"
    "fm_components (the_format fmt) < GGL_LUMINANCE"
    "fm_l (the_format fmt) i \<le> fm_h (the_format fmt) i" "fm_h (the_format fmt) i - fm_l (the_format fmt) i \<le> 8"
    "fm_h (the_format fmt) i \<le> 8 * fm_size (the_format fmt)" "fm_l (the_format fmt) i < 32"
    "fm_h (the_format fmt) i = 0 \<longleftrightarrow> fm_h (the_format fmt) i - fm_l (the_format fmt) i = 0"
proof -
  have i: "i \<in> {0, 1, 2, 3}" using assms(2) by auto
  have f: "fmt \<in> {1, 2, 3, 4, 5, 6, 7, 8, 11}" using assms(1) by (simp add: color_formats_def)
  have all: "\<forall>fmt \<in> {1, 2, 3, 4, 5, 6, 7, 8, 11}. disjoint_fields (the_format fmt) \<and>
      fm_size (the_format fmt) \<in> {1, 2, 3, 4} \<and> fm_components (the_format fmt) < GGL_LUMINANCE \<and>
      (\<forall>i \<in> {0, 1, 2, 3}. fm_l (the_format fmt) i \<le> fm_h (the_format fmt) i \<and>
        fm_h (the_format fmt) i - fm_l (the_format fmt) i \<le> 8 \<and>
        fm_h (the_format fmt) i \<le> 8 * fm_size (the_format fmt) \<and> fm_l (the_format fmt) i < 32 \<and>
        (fm_h (the_format fmt) i = 0 \<longleftrightarrow> fm_h (the_format fmt) i - fm_l (the_format fmt) i = 0))"
    by (simp add: the_format_def gPixelFormatInfos_def mk_format_def disjoint_fields_def fm_h_def fm_l_def)
  note f1 = bspec [OF all f]
  note r = bspec [OF f1 [THEN conjunct2, THEN conjunct2, THEN conjunct2] i]
  show "disjoint_fields (the_format fmt)" "fm_size (the_format fmt) \<in> {1, 2, 3, 4}"
    "fm_components (the_format fmt) < GGL_LUMINANCE"
    "fm_l (the_format fmt) i \<le> fm_h (the_format fmt) i" "fm_h (the_format fmt) i - fm_l (the_format fmt) i \<le> 8"
    "fm_h (the_format fmt) i \<le> 8 * fm_size (the_format fmt)" "fm_l (the_format fmt) i < 32"
    "fm_h (the_format fmt) i = 0 \<longleftrightarrow> fm_h (the_format fmt) i - fm_l (the_format fmt) i = 0"
    using f1 r by (simp_all only:)
qed

lemma disjoint_fieldsD:
  "disjoint_fields f \<Longrightarrow> i < 4 \<Longrightarrow> j < 4 \<Longrightarrow> fm_l f i \<le> k \<Longrightarrow> k < fm_h f i \<Longrightarrow> fm_l f j \<le> k \<Longrightarrow> k < fm_h f j \<Longrightarrow> i = j"
proof -
  assume *: "disjoint_fields f" "i < 4" "j < 4" "fm_l f i \<le> k" "k < fm_h f i" "fm_l f j \<le> k" "k < fm_h f j"
  have ij: "i \<in> {0, 1, 2, 3}" "j \<in> {0, 1, 2, 3}" using *(2,3) by auto
  have "i = j \<or> fm_h f i \<le> fm_l f j \<or> fm_h f j \<le> fm_l f i" using bspec [OF bspec [OF *(1) [unfolded disjoint_fields_def] ij(1)] ij(2)] .
  then show "i = j" using *(4-7) by (elim disjE) simp_all
qed

text \<open>Any word whose bit \<open>k\<close> is the union of the components placed at their fields.\<close>

lemma get_field_union:
  assumes d: "disjoint_fields f" and j: "j < 4" and h: "fm_h f j \<le> 32"
    and v: "\<And>k. fm_l f j \<le> k \<Longrightarrow> k < fm_h f j \<Longrightarrow> bit v k \<longleftrightarrow> (\<exists>i < 4. fm_l f i \<le> k \<and> k < fm_h f i \<and> bit (u i) (k - fm_l f i))"
    and u: "\<And>k. bit (u j) k \<Longrightarrow> k < fm_h f j - fm_l f j"
  shows "get_field (fm_h f j) (fm_l f j) v = u j"
proof (rule bit_word_eqI)
  fix k assume "k < LENGTH(32)"
  show "bit (get_field (fm_h f j) (fm_l f j) v) k = bit (u j) k"
  proof
    assume "bit (get_field (fm_h f j) (fm_l f j) v) k"
    then have *: "k + fm_l f j < fm_h f j" "bit v (k + fm_l f j)" by (auto simp: bit_get_field)
    then obtain i where "i < 4" "fm_l f i \<le> k + fm_l f j" "k + fm_l f j < fm_h f i" "bit (u i) (k + fm_l f j - fm_l f i)"
      using v [of "k + fm_l f j"] by auto
    moreover then have "i = j" using disjoint_fieldsD [OF d _ j, of i "k + fm_l f j"] *(1) by simp
    ultimately show "bit (u j) k" by simp
  next
    assume b: "bit (u j) k"
    then have "k + fm_l f j < fm_h f j" using u by (simp add: less_diff_conv)
    then show "bit (get_field (fm_h f j) (fm_l f j) v) k"
      using b v [of "k + fm_l f j"] j h by (auto simp: bit_get_field)
  qed
qed

lemma pack_component:
  assumes "l \<le> h" "h - l \<le> 8" "l < 32"
  shows "downshift_component p v 24 16 (int h) (int l) False True (- 1) =
    Some (p OR push_bit l (drop_bit (24 - (h - l)) v))"
proof (cases "l = 0")
  case True
  have "nat (24 - int h) = 24 - h" by simp
  then show ?thesis using assms True by (simp add: downshift_component_def shr_def Let_def)
next
  case False
  have "nat (24 - (int h - int l)) = 24 - (h - l)" using assms by simp
  then show ?thesis using assms False by (simp add: downshift_component_def shr_def shl_def Let_def)
qed

lemma write_component_shift:
  assumes "l \<le> h" "h \<noteq> 0" "l < 32"
  shows "downshift_component v u (int (h - l)) 0 (int h) (int l) False False (- 1) = Some (v OR push_bit l u)"
  using assms by (simp add: downshift_component_def shl_def Let_def)

subsection \<open>Packing a colour\<close>

definition packed_word :: "GGLFormat \<Rightarrow> (nat \<Rightarrow> u32) \<Rightarrow> u32" where
  "packed_word f u = push_bit (fm_l f 1) (u 1) OR push_bit (fm_l f 2) (u 2) OR push_bit (fm_l f 3) (u 3) OR
     push_bit (fm_l f 0) (u 0)"

lemma ex_less_4: "(\<exists>i < 4. P i) \<longleftrightarrow> P 0 \<or> P 1 \<or> P 2 \<or> P (3 :: nat)"
  by (auto simp: numeral_eq_Suc less_Suc_eq)

lemma all_less_4: "(\<forall>i < 4. P i) \<longleftrightarrow> P 0 \<and> P 1 \<and> P 2 \<and> P (3 :: nat)"
  by (auto simp: numeral_eq_Suc less_Suc_eq)

lemma bit_packed_word:
  assumes "\<And>i k. i < 4 \<Longrightarrow> bit (u i) k \<Longrightarrow> k < fm_h f i - fm_l f i"
  shows "bit (packed_word f u) k \<longleftrightarrow> k < 32 \<and> (\<exists>i < 4. fm_l f i \<le> k \<and> k < fm_h f i \<and> bit (u i) (k - fm_l f i))"
proof -
  have "bit (push_bit (fm_l f i) (u i)) k \<longleftrightarrow> k < 32 \<and> fm_l f i \<le> k \<and> k < fm_h f i \<and> bit (u i) (k - fm_l f i)" if "i < 4" for i
    using assms [OF that, of "k - fm_l f i"] by (auto simp: bit_simps)
  then show ?thesis by (auto simp: packed_word_def bit_or_iff ex_less_4)
qed

lemma pack_color_word:
  assumes "fmt \<in> set color_formats"
  shows "\<exists>p. ggl_pack_color fmt r g b a = Some p \<and>
    (\<forall>k < 8 * fm_size (the_format fmt). bit p k = bit (packed_word (the_format fmt)
       (\<lambda>i. drop_bit (24 - (fm_h (the_format fmt) i - fm_l (the_format fmt) i)) (word_of_int ([a, r, g, b] ! i)))) k)"
proof -
  let ?f = "the_format fmt"
  let ?u = "\<lambda>i. drop_bit (24 - (fm_h ?f i - fm_l ?f i)) (word_of_int ([a, r, g, b] ! i) :: u32)"
  have c: "downshift_component p v 24 16 (int (fm_h ?f i)) (int (fm_l ?f i)) False True (- 1) =
      Some (p OR push_bit (fm_l ?f i) (drop_bit (24 - (fm_h ?f i - fm_l ?f i)) v))" if "i < 4" for i p v
    using color_format_facts [OF assms that] by (intro pack_component) simp_all
  let ?p = "packed_word ?f ?u"
  let ?q = "if fm_size ?f = 1 then ?p OR push_bit 8 ?p else ?p"
  have "ggl_pack_color fmt r g b a = Some (if fm_size ?f = 1 \<or> fm_size ?f = 2 then ?q OR push_bit 16 ?q else ?q)"
    by (simp add: ggl_pack_color_def Let_def c packed_word_def or.assoc)
  moreover have "bit (if fm_size ?f = 1 \<or> fm_size ?f = 2 then ?q OR push_bit 16 ?q else ?q) k = bit ?p k"
    if "k < 8 * fm_size ?f" for k using that by (auto simp: bit_simps)
  ultimately show ?thesis by blast
qed

lemma bits_of_bounded:
  assumes "0 \<le> v" "v < 2 ^ 24" "n \<le> 24" "bit (drop_bit (24 - n) (word_of_int v :: u32)) k"
  shows "k < n"
proof -
  have "bit v (24 - n + k)" using assms(4) by (simp add: bit_simps)
  moreover have "take_bit 24 v = v" using assms(1,2) by (simp add: take_bit_int_eq_self)
  ultimately have "24 - n + k < 24" by (metis bit_take_bit_iff)
  then show ?thesis using assms(3) by simp
qed

text \<open>C16. Packing a colour. For every colour format of the table with distinct component
  fields, packing iterated colours of 8.16 bits puts into each field the most significant bits of
  the component it names, as many as the field has.\<close>

theorem pack_color_fields:
  assumes "fmt \<in> set color_formats" "\<forall>v \<in> {r, g, b, a}. 0 \<le> v \<and> v < 2 ^ 24"
  shows "\<exists>p. ggl_pack_color fmt r g b a = Some p \<and>
    (\<forall>i < 4. get_field (fm_h (the_format fmt) i) (fm_l (the_format fmt) i) p =
       drop_bit (24 - format_bits (the_format fmt) i) (word_of_int ([a, r, g, b] ! i)))"
proof -
  let ?f = "the_format fmt"
  let ?u = "\<lambda>i. drop_bit (24 - (fm_h ?f i - fm_l ?f i)) (word_of_int ([a, r, g, b] ! i) :: u32)"
  obtain p where p: "ggl_pack_color fmt r g b a = Some p"
    "\<And>k. k < 8 * fm_size ?f \<Longrightarrow> bit p k = bit (packed_word ?f ?u) k"
    using pack_color_word [OF assms(1)] by blast
  have u: "k < fm_h ?f i - fm_l ?f i" if "i < 4" "bit (?u i) k" for i k
  proof -
    have "[a, r, g, b] ! i \<in> {r, g, b, a}" using that(1) by (auto simp: numeral_eq_Suc less_Suc_eq)
    then have v: "0 \<le> [a, r, g, b] ! i" "[a, r, g, b] ! i < 2 ^ 24" using assms(2) by blast+
    have "fm_h ?f i - fm_l ?f i \<le> 24" using color_format_facts(5) [OF assms(1) that(1)] by simp
    then show ?thesis using bits_of_bounded [OF v _ that(2)] by simp
  qed
  have "get_field (fm_h ?f j) (fm_l ?f j) p = ?u j" if j: "j < 4" for j
  proof (rule get_field_union [OF _ j])
    note cf = color_format_facts [OF assms(1) j]
    show "disjoint_fields ?f" "fm_h ?f j \<le> 32" using cf by auto
    fix k
    show "bit p k \<longleftrightarrow> (\<exists>i < 4. fm_l ?f i \<le> k \<and> k < fm_h ?f i \<and> bit (?u i) (k - fm_l ?f i))" if "k < fm_h ?f j"
      using bit_packed_word [where u = ?u and f = ?f, OF u] p(2) that cf by auto
    show "bit (?u j) k \<Longrightarrow> k < fm_h ?f j - fm_l ?f j" by (rule u [OF j])
  qed
  then show ?thesis using p(1) by (auto simp: format_bits_def)
qed

theorem pack_color_fields_witness:
  "\<exists>p. ggl_pack_color 4 0xff0000 0x800000 0 0xff0000 = Some p \<and>
     get_field 16 11 p = 31 \<and> get_field 11 5 p = 32 \<and> get_field 5 0 p = 0"
proof -
  obtain p where p: "ggl_pack_color 4 0xff0000 0x800000 0 0xff0000 = Some p"
    "\<forall>i < 4. get_field (fm_h (the_format 4) i) (fm_l (the_format 4) i) p =
       drop_bit (24 - format_bits (the_format 4) i) (word_of_int ([0xff0000, 0xff0000, 0x800000, 0] ! i))"
    using pack_color_fields [of 4 "0xff0000" "0x800000" 0 "0xff0000"] by (auto simp: color_formats_def)
  then show ?thesis
    by (simp add: all_less_4 the_format_def gPixelFormatInfos_def mk_format_def fm_h_def fm_l_def format_bits_def
        drop_bit_eq_div)
qed

subsection \<open>Reading and writing a pixel\<close>

lemma load_bit_bound: "sz \<in> {1, 2, 3, 4} \<Longrightarrow> bit (load_pixel m a sz) k \<Longrightarrow> k < sz * 8"
  using bit_load_pixel [of sz m a k] by simp

text \<open>What \<^verbatim>\<open>read_pixel\<close> returns, a component at a time.\<close>

definition component :: "context_t \<Rightarrow> surface_t \<Rightarrow> u32 \<Rightarrow> u32 \<Rightarrow> nat \<Rightarrow> u32" where
  "component c s x y i =
     (let f = the_format (sf_format s) in
      get_field (fm_h f i) (fm_l f i) (load_pixel (memory c) (pixel_address s (fm_size f) x y) (fm_size f)))"

lemma read_component_value:
  assumes f: "f = the_format fmt" "fmt \<in> set color_formats" "i < 4" and v: "\<And>k. bit v k \<Longrightarrow> k < fm_size f * 8"
  shows "read_component f v px i = Some (px\<lparr>px_s := (px_s px)[i := format_bits f i],
     px_c := if format_bits f i = 0 then px_c px else (px_c px)[i := get_field (fm_h f i) (fm_l f i) v]\<rparr>)"
proof -
  note cf = color_format_facts [OF f(2,3), folded f(1)]
  have "extract_field v (fm_h f i) (fm_l f i) (fm_size f * 8) = Some (get_field (fm_h f i) (fm_l f i) v)"
    if "format_bits f i \<noteq> 0"
    using cf that v by (intro extract_get_field) (auto simp: format_bits_def)
  then show ?thesis by (simp add: read_component_def format_bits_def)
qed

lemma read_pixel_value:
  assumes "sf_format s \<in> set color_formats" "x < sf_width s" "y < sf_height s"
    "length (px_c px) = 4" "length (px_s px) = 4"
  shows "\<exists>px'. read_pixel c s x y px = Some px' \<and> (\<forall>i < 4. px_s px' ! i = format_bits (the_format (sf_format s)) i \<and>
     px_c px' ! i = (if format_bits (the_format (sf_format s)) i = 0 then px_c px ! i else component c s x y i)) \<and>
     length (px_c px') = 4 \<and> length (px_s px') = 4"
proof -
  let ?f = "the_format (sf_format s)"
  let ?v = "load_pixel (memory c) (pixel_address s (fm_size ?f) x y) (fm_size ?f)"
  have sz: "fm_size ?f \<in> {1, 2, 3, 4}" using color_format_facts(2) [OF assms(1), of 0] by simp
  note rc = read_component_value [OF refl assms(1) _ load_bit_bound [OF sz]]
  have "read_pixel c s x y px = do {
      px \<leftarrow> read_component ?f ?v px 0; px \<leftarrow> read_component ?f ?v px 1; px \<leftarrow> read_component ?f ?v px 2;
      read_component ?f ?v px 3}"
    using assms(2,3) by (simp add: read_pixel_def Let_def)
  then show ?thesis using assms(4,5) by (simp add: rc all_less_4 component_def Let_def)
qed

lemma fast_address_eq:
  assumes "0 \<le> sf_stride s" "uint x + sf_stride s * uint y < 2 ^ 31"
  shows "fast_address s sz x y = pixel_address s sz x y"
proof -
  have "uint (x + word_of_int (sf_stride s) * y) = (uint x + sf_stride s * uint y) mod 2 ^ 32"
  proof -
    have "x + word_of_int (sf_stride s) * y = word_of_int (uint x + sf_stride s * uint y)" by simp
    then show ?thesis by (simp only: uint_word_of_int) simp
  qed
  also have "\<dots> = s32 (uint x + sf_stride s * uint y)"
  proof -
    have "0 \<le> uint x + sf_stride s * uint y" using assms(1) by simp
    then show ?thesis using assms(2) by (simp add: s32_id')
  qed
  finally show ?thesis by (simp add: fast_address_def pixel_address_def)
qed

lemma color_format_565: "4 \<in> set color_formats" and color_format_8888: "1 \<in> set color_formats"
  by (simp_all add: color_formats_def)


definition enabled :: "context_t \<Rightarrow> nat \<Rightarrow> bool" where
  "enabled c i \<longleftrightarrow> bit (mk_color (mask_state (state c))) i"

lemma and_push_bit: "w AND push_bit i 1 \<noteq> 0 \<longleftrightarrow> bit w i" for w :: u32
  by (simp add: and_exp_eq_0_iff_not_bit)

definition pixel_fits :: "GGLFormat \<Rightarrow> pixel_t \<Rightarrow> bool" where
  "pixel_fits f px \<longleftrightarrow> length (px_c px) = 4 \<and> length (px_s px) = 4 \<and>
     (\<forall>i < 4. px_s px ! i = format_bits f i \<and> unat (px_c px ! i) < 2 ^ format_bits f i)"

lemma bit_bounded: "unat (u :: u32) < 2 ^ n \<Longrightarrow> bit u k \<Longrightarrow> k < n"
proof -
  assume u: "unat u < 2 ^ n" "bit u k"
  then have "bit (unat u) k" by (simp add: bit_unsigned_iff)
  moreover have "take_bit n (unat u) = unat u" using u(1) by (simp add: take_bit_nat_eq_self)
  ultimately show "k < n" by (metis bit_take_bit_iff)
qed

lemma write_component_value:
  assumes f: "f = the_format fmt" "fmt \<in> set color_formats" "i < 4" and px: "pixel_fits f px"
  shows "write_component c f px (- 1) i (msk, v) =
    Some (if format_bits f i \<noteq> 0 \<and> enabled c i
          then (msk OR push_bit (fm_l f i) (mask (format_bits f i)), v OR push_bit (fm_l f i) (px_c px ! i)) else (msk, v))"
proof -
  note cf = color_format_facts [OF f(2,3), folded f(1)]
  have n: "px_s px ! i = fm_h f i - fm_l f i" using px f(3) by (simp add: pixel_fits_def format_bits_def)
  have h: "fm_h f i \<noteq> 0 \<longleftrightarrow> format_bits f i \<noteq> 0" using cf(8) by (simp add: format_bits_def)
  have e: "mk_color (mask_state (state c)) AND push_bit i 1 \<noteq> 0 \<longleftrightarrow> enabled c i"
    unfolding and_push_bit enabled_def ..
  have d: "fm_h f i \<noteq> 0 \<Longrightarrow> downshift_component v (px_c px ! i) (int (fm_h f i - fm_l f i)) 0 (int (fm_h f i)) (int (fm_l f i)) False False (- 1) =
      Some (v OR push_bit (fm_l f i) (px_c px ! i))"
    using cf by (intro write_component_shift) auto
  show ?thesis
    unfolding write_component_def prod.case e using cf(3) n d h
    by (auto simp: Let_def format_bits_def mask_eq_exp_minus_1)
qed

text \<open>The mask and the word that \<^verbatim>\<open>write_pixel\<close> assembles.\<close>

definition wstep :: "context_t \<Rightarrow> GGLFormat \<Rightarrow> pixel_t \<Rightarrow> nat \<Rightarrow> u32 \<times> u32 \<Rightarrow> u32 \<times> u32" where
  "wstep c f px i st = (if format_bits f i \<noteq> 0 \<and> enabled c i
     then (fst st OR push_bit (fm_l f i) (mask (format_bits f i)), snd st OR push_bit (fm_l f i) (px_c px ! i)) else st)"

lemma bit_field_mask: "bit (push_bit l (mask (h - l) :: u32)) k \<longleftrightarrow> k < 32 \<and> l \<le> k \<and> k < h"
  by (simp add: bit_push_bit_iff bit_mask_iff) linarith

lemma bit_field_value:
  assumes "unat (u :: u32) < 2 ^ (h - l)"
  shows "bit (push_bit l u) k \<longleftrightarrow> k < 32 \<and> l \<le> k \<and> k < h \<and> bit u (k - l)"
proof -
  have "bit u (k - l) \<Longrightarrow> k - l < h - l" by (rule bit_bounded [OF assms])
  then show ?thesis by (simp add: bit_push_bit_iff) linarith
qed

lemma bit_wstep:
  assumes px: "pixel_fits f px" "i < 4"
  shows "bit (fst (wstep c f px i st)) k \<longleftrightarrow> bit (fst st) k \<or> k < 32 \<and> enabled c i \<and> fm_l f i \<le> k \<and> k < fm_h f i" (is ?fst)
    and "bit (snd (wstep c f px i st)) k \<longleftrightarrow>
       bit (snd st) k \<or> k < 32 \<and> enabled c i \<and> fm_l f i \<le> k \<and> k < fm_h f i \<and> bit (px_c px ! i) (k - fm_l f i)" (is ?snd)
proof -
  have u: "unat (px_c px ! i) < 2 ^ (fm_h f i - fm_l f i)"
    using px by (simp add: pixel_fits_def format_bits_def)
  have "?fst \<and> ?snd"
  proof (cases "format_bits f i \<noteq> 0 \<and> enabled c i")
    case True
    then have "wstep c f px i st = (fst st OR push_bit (fm_l f i) (mask (fm_h f i - fm_l f i)), snd st OR push_bit (fm_l f i) (px_c px ! i))"
      by (simp only: wstep_def if_True format_bits_def) simp
    then show ?thesis using True by (simp only: fst_conv snd_conv bit_or_iff bit_field_mask bit_field_value [OF u]) simp
  next
    case False
    then have w: "wstep c f px i st = st" by (simp only: wstep_def if_False)
    have "\<not> (enabled c i \<and> fm_l f i \<le> k \<and> k < fm_h f i)"
    proof
      assume a: "enabled c i \<and> fm_l f i \<le> k \<and> k < fm_h f i"
      then have "format_bits f i \<noteq> 0" unfolding format_bits_def by linarith
      then show False using False a by blast
    qed
    then show ?thesis unfolding w by blast
  qed
  then show ?fst ?snd by blast+
qed

lemma write_components:
  assumes f: "f = the_format fmt" "fmt \<in> set color_formats" and px: "pixel_fits f px"
  obtains msk v where "do {
      mv \<leftarrow> write_component c f px (- 1) 0 (0, 0); mv \<leftarrow> write_component c f px (- 1) 1 mv;
      mv \<leftarrow> write_component c f px (- 1) 2 mv; write_component c f px (- 1) 3 mv} = Some (msk, v)"
    "\<forall>k. bit msk k \<longleftrightarrow> k < 32 \<and> (\<exists>i < 4. enabled c i \<and> fm_l f i \<le> k \<and> k < fm_h f i)"
    "\<forall>k. bit v k \<longleftrightarrow> k < 32 \<and> (\<exists>i < 4. enabled c i \<and> fm_l f i \<le> k \<and> k < fm_h f i \<and> bit (px_c px ! i) (k - fm_l f i))"
proof -
  let ?r = "wstep c f px 3 (wstep c f px 2 (wstep c f px 1 (wstep c f px 0 (0, 0))))"
  have step: "write_component c f px (- 1) i st = Some (wstep c f px i st)" if "i < 4" for i st
    using write_component_value [OF f that px, of c "fst st" "snd st"] by (simp add: wstep_def)
  have r: "Some ?r = Some (fst ?r, snd ?r)" by simp
  have "do {
      mv \<leftarrow> write_component c f px (- 1) 0 (0, 0); mv \<leftarrow> write_component c f px (- 1) 1 mv;
      mv \<leftarrow> write_component c f px (- 1) 2 mv; write_component c f px (- 1) 3 mv} = Some (fst ?r, snd ?r)"
    by (simp add: step)
  moreover have "bit (fst ?r) k \<longleftrightarrow> k < 32 \<and> (\<exists>i < 4. enabled c i \<and> fm_l f i \<le> k \<and> k < fm_h f i)" for k
    unfolding ex_less_4 by (simp only: bit_wstep [OF px] fst_conv bit_0_eq, simp, blast)
  moreover have "bit (snd ?r) k \<longleftrightarrow>
      k < 32 \<and> (\<exists>i < 4. enabled c i \<and> fm_l f i \<le> k \<and> k < fm_h f i \<and> bit (px_c px ! i) (k - fm_l f i))" for k
    unfolding ex_less_4 by (simp only: bit_wstep [OF px] snd_conv, simp, blast)
  ultimately show thesis by (intro that) blast+
qed

lemma written_component:
  assumes fmt: "sf_format s \<in> set color_formats" and i: "i < 4" and px: "pixel_fits f px"
    and mb: "\<forall>k. bit msk k \<longleftrightarrow> k < 32 \<and> (\<exists>i < 4. enabled c i \<and> fm_l f i \<le> k \<and> k < fm_h f i)"
    and vb: "\<forall>k. bit v k \<longleftrightarrow> k < 32 \<and> (\<exists>i < 4. enabled c i \<and> fm_l f i \<le> k \<and> k < fm_h f i \<and> bit (px_c px ! i) (k - fm_l f i))"
    and v': "v' = (if mk_color (mask_state (state c)) \<noteq> 0xF then v OR (load_pixel (memory c) a (fm_size f) AND NOT msk) else v)"
    and f: "f = the_format (sf_format s)" and a: "a = pixel_address s (fm_size f) x y"
    and c': "memory c' = store_pixel (memory c) a (fm_size f) v'"
  shows "component c' s x y i = (if enabled c i then px_c px ! i else component c s x y i)"
proof -
  let ?d = "load_pixel (memory c) a (fm_size f)"
  have sz: "fm_size f \<in> {1, 2, 3, 4}" using color_format_facts(2) [OF fmt, of 0] by (simp add: f)
  have h: "fm_h f i \<le> 8 * fm_size f" using color_format_facts(6) [OF fmt i] by (simp add: f)
  have h32: "fm_h f i \<le> 32" using h sz by auto
  have dj: "disjoint_fields f" using color_format_facts(1) [OF fmt, of 0] by (simp add: f)
  note uniq = disjoint_fieldsD [OF dj _ i]
  have only: "(\<exists>j < 4. enabled c j \<and> fm_l f j \<le> k \<and> k < fm_h f j \<and> P j) \<longleftrightarrow> enabled c i \<and> P i"
    if k: "fm_l f i \<le> k" "k < fm_h f i" for k P
    using uniq [OF _ _ _ k] k i by blast
  have m: "bit msk k \<longleftrightarrow> enabled c i" if k: "fm_l f i \<le> k" "k < fm_h f i" for k
    using mb [rule_format, of k] only [OF k, of "\<lambda>_. True"] k(2) h32 by simp
  have b: "bit v k \<longleftrightarrow> enabled c i \<and> bit (px_c px ! i) (k - fm_l f i)" if k: "fm_l f i \<le> k" "k < fm_h f i" for k
    using vb [rule_format, of k] only [OF k, of "\<lambda>i. bit (px_c px ! i) (k - fm_l f i)"] k(2) h32 by simp
  have all: "enabled c i" if "mk_color (mask_state (state c)) = 0xF"
  proof -
    have "i \<in> {0, 1, 2, 3}" using i by auto
    then show ?thesis by (auto simp: enabled_def that)
  qed
  have old: "bit v' k \<longleftrightarrow> (if enabled c i then bit (px_c px ! i) (k - fm_l f i) else bit ?d k)"
    if k: "fm_l f i \<le> k" "k < fm_h f i" for k
  proof -
    have "k < 32" using k h32 by simp
    then show ?thesis using m [OF k] b [OF k] all by (cases "enabled c i") (auto simp add: v' bit_or_iff bit_and_iff bit_not_iff)
  qed
  have bd: "k + fm_l f i < fm_h f i" if "bit (px_c px ! i) k" for k
  proof -
    have "k < fm_h f i - fm_l f i"
      by (rule bit_bounded [OF _ that]) (use px i in \<open>simp add: pixel_fits_def format_bits_def\<close>)
    then show ?thesis by simp
  qed
  show ?thesis
    unfolding component_def Let_def f [symmetric] a [symmetric] c' load_store [OF sz]
  proof (rule bit_word_eqI)
    fix k :: nat
    show "bit (get_field (fm_h f i) (fm_l f i) (v' AND mask (8 * fm_size f))) k =
        bit (if enabled c i then px_c px ! i else get_field (fm_h f i) (fm_l f i) ?d) k"
    proof (cases "k + fm_l f i < fm_h f i")
      case True
      then have "k + fm_l f i < 8 * fm_size f" "k + fm_l f i < 32" using h h32 by simp_all
      then show ?thesis using True old [of "k + fm_l f i"] by (simp add: bit_get_field bit_and_iff bit_mask_iff)
    next
      case False
      then show ?thesis using bd [of k] by (auto simp: bit_get_field)
    qed
  qed
qed

text \<open>C18. Writing a pixel. With dithering and the logic operation off, writing a pixel whose
  components have the format's widths stores the component in every field the colour mask enables,
  keeps every component the mask disables and every byte outside the pixel, and changes nothing
  else of the context: reading the pixel back gives what was written.\<close>

theorem write_read_pixel:
  assumes fmt: "sf_format s \<in> set color_formats" and xy: "x < sf_width s" "y < sf_height s"
    and px: "pixel_fits (the_format (sf_format s)) px"
    and off: "\<not> has_flag (enables (state c)) GGL_ENABLE_DITHER" "\<not> has_flag (enables (state c)) GGL_ENABLE_LOGIC_OP"
  shows "\<exists>m. write_pixel c s x y px = Some (c\<lparr>memory := m\<rparr>) \<and>
     (\<exists>px'. read_pixel (c\<lparr>memory := m\<rparr>) s x y px = Some px' \<and> px_s px' = px_s px \<and>
        (\<forall>i < 4. px_c px' ! i = (if enabled c i \<or> format_bits (the_format (sf_format s)) i = 0 then px_c px ! i else component c s x y i))) \<and>
     (\<forall>b. b < pixel_address s (fm_size (the_format (sf_format s))) x y \<or>
          pixel_address s (fm_size (the_format (sf_format s))) x y + int (fm_size (the_format (sf_format s))) \<le> b \<longrightarrow> m b = memory c b)"
proof -
  let ?f = "the_format (sf_format s)"
  let ?a = "pixel_address s (fm_size ?f) x y"
  let ?d = "load_pixel (memory c) ?a (fm_size ?f)"
  have sz: "fm_size ?f \<in> {1, 2, 3, 4}" using color_format_facts(2) [OF fmt, of 0] by simp
  obtain msk v where w: "do {
      mv \<leftarrow> write_component c ?f px (- 1) 0 (0, 0); mv \<leftarrow> write_component c ?f px (- 1) 1 mv;
      mv \<leftarrow> write_component c ?f px (- 1) 2 mv; write_component c ?f px (- 1) 3 mv} = Some (msk, v)"
    and mb: "\<forall>k. bit msk k \<longleftrightarrow> k < 32 \<and> (\<exists>i < 4. enabled c i \<and> fm_l ?f i \<le> k \<and> k < fm_h ?f i)"
    and vb: "\<forall>k. bit v k \<longleftrightarrow> k < 32 \<and> (\<exists>i < 4. enabled c i \<and> fm_l ?f i \<le> k \<and> k < fm_h ?f i \<and> bit (px_c px ! i) (k - fm_l ?f i))"
    by (rule write_components [OF refl fmt px])
  define v' where "v' = (if mk_color (mask_state (state c)) \<noteq> 0xF then v OR (?d AND NOT msk) else v)"
  define m where "m = store_pixel (memory c) ?a (fm_size ?f) v'"
  obtain a1 a2 a3 where w1: "write_component c ?f px (- 1) 0 (0, 0) = Some a1" "write_component c ?f px (- 1) 1 a1 = Some a2"
      "write_component c ?f px (- 1) 2 a2 = Some a3" "write_component c ?f px (- 1) 3 a3 = Some (msk, v)"
    using w unfolding Option.bind_eq_Some_conv by blast
  have wr: "write_pixel c s x y px = Some (c\<lparr>memory := m\<rparr>)"
    unfolding write_pixel_def m_def v'_def using xy w1 off
    by (simp add: dither_at_def Let_def)
  have comp: "component (c\<lparr>memory := m\<rparr>) s x y i = (if enabled c i then px_c px ! i else component c s x y i)"
    if i: "i < 4" for i
    by (rule written_component [OF fmt i px mb vb v'_def]) (simp_all add: m_def)
  have len: "length (px_c px) = 4" "length (px_s px) = 4" using px by (simp_all add: pixel_fits_def)
  obtain px' where r: "read_pixel (c\<lparr>memory := m\<rparr>) s x y px = Some px'"
    "\<forall>i < 4. px_s px' ! i = format_bits ?f i \<and>
       px_c px' ! i = (if format_bits ?f i = 0 then px_c px ! i else component (c\<lparr>memory := m\<rparr>) s x y i)"
    "length (px_s px') = 4"
    using read_pixel_value [OF fmt xy len, of "c\<lparr>memory := m\<rparr>"] by blast
  have s': "px_s px' = px_s px"
    by (rule nth_equalityI) (use r len px in \<open>simp_all add: pixel_fits_def\<close>)
  have out: "\<forall>b. b < ?a \<or> ?a + int (fm_size ?f) \<le> b \<longrightarrow> m b = memory c b"
    unfolding m_def using bit_store_pixel [OF sz] by auto
  have c': "\<forall>i < 4. px_c px' ! i = (if enabled c i \<or> format_bits ?f i = 0 then px_c px ! i else component c s x y i)"
    using r(2) comp by simp
  show ?thesis by (rule exI [of _ m], intro conjI exI [of _ px'] wr r(1) s' c' out)
qed


definition demo_565 :: surface_t where
  "demo_565 = surface_zero\<lparr>sf_width := 8, sf_height := 8, sf_stride := 8, sf_format := 4\<rparr>"

definition demo_ctx :: context_t where
  "demo_ctx = (context_zero (\<lambda>_. 0))\<lparr>state := state_zero\<lparr>mask_state := \<lparr>mk_color = 0xF, mk_depth = 0, mk_stencil = 0\<rparr>\<rparr>\<rparr>"

theorem write_read_pixel_witness:
  "\<exists>m px'. write_pixel demo_ctx demo_565 1 2 \<lparr>px_c = [0, 31, 5, 9], px_s = [0, 5, 6, 5]\<rparr> = Some (demo_ctx\<lparr>memory := m\<rparr>) \<and>
     read_pixel (demo_ctx\<lparr>memory := m\<rparr>) demo_565 1 2 \<lparr>px_c = [0, 31, 5, 9], px_s = [0, 5, 6, 5]\<rparr> = Some px' \<and>
     px_c px' ! 1 = 31 \<and> px_c px' ! 2 = 5 \<and> px_c px' ! 3 = 9"
proof -
  have fits: "pixel_fits (the_format (sf_format demo_565)) \<lparr>px_c = [0, 31, 5, 9], px_s = [0, 5, 6, 5]\<rparr>"
    by (simp add: demo_565_def surface_zero_def pixel_fits_def all_less_4 the_format_def gPixelFormatInfos_def mk_format_def
      format_bits_def fm_h_def fm_l_def)
  have en: "enabled demo_ctx 1" "enabled demo_ctx 2" "enabled demo_ctx 3"
    by (simp_all add: enabled_def demo_ctx_def)
  show ?thesis
    using write_read_pixel [of demo_565 1 2 _ demo_ctx, OF _ _ _ fits] en
    by (auto simp: demo_565_def surface_zero_def color_formats_def demo_ctx_def has_flag_def all_less_4)
qed

end
