(* ===== verification/GGLClear.thy ===== *)
theory GGLClear
  imports PixelBuffer Fixed
begin

text \<open>
  Clearing buffers: \<^verbatim>\<open>libpixelflinger/clear.cpp\<close>, with \<^verbatim>\<open>android_memset16\<close> and
  \<^verbatim>\<open>android_memset32\<close> of \<^verbatim>\<open>libpixelflinger/memory_win32.cpp\<close>. The clear colour and depth are packed
  lazily: a setter marks them dirty, \<^verbatim>\<open>ggl_clear\<close> packs them when they are used. The rectangle is
  the scissor's, in 32-bit unsigned arithmetic.
\<close>

subsection \<open>Filling memory\<close>

text \<open>A loop that stores the same element of \<open>sz\<close> bytes \<open>n\<close> times.\<close>

fun fill :: "(int \<Rightarrow> u8) \<Rightarrow> int \<Rightarrow> nat \<Rightarrow> u32 \<Rightarrow> nat \<Rightarrow> (int \<Rightarrow> u8)" where
  "fill m a sz v 0 = m"
| "fill m a sz v (Suc n) = fill (store_pixel m a sz v) (a + int sz) sz v n"

definition memset8 :: "(int \<Rightarrow> u8) \<Rightarrow> int \<Rightarrow> u32 \<Rightarrow> nat \<Rightarrow> (int \<Rightarrow> u8)" where
  "memset8 m dst v n = fill m dst 1 v n"

definition android_memset16 :: "(int \<Rightarrow> u8) \<Rightarrow> int \<Rightarrow> u32 \<Rightarrow> nat \<Rightarrow> (int \<Rightarrow> u8)" where
  "android_memset16 m dst v n = fill m dst 2 v (n div 2)"

definition android_memset32 :: "(int \<Rightarrow> u8) \<Rightarrow> int \<Rightarrow> u32 \<Rightarrow> nat \<Rightarrow> (int \<Rightarrow> u8)" where
  "android_memset32 m dst v n = fill m dst 4 v (n div 4)"

text \<open>The loop \<^verbatim>\<open>do { ... } while (--h)\<close>; a 32-bit \<open>h\<close> of 0 makes it run \<open>2 ^ 32\<close> times.\<close>

fun fill_rows :: "((int \<Rightarrow> u8) \<Rightarrow> int \<Rightarrow> (int \<Rightarrow> u8)) \<Rightarrow> int \<Rightarrow> (int \<Rightarrow> u8) \<Rightarrow> int \<Rightarrow> nat \<Rightarrow> (int \<Rightarrow> u8)" where
  "fill_rows row str m dst 0 = m"
| "fill_rows row str m dst (Suc n) = fill_rows row str (row m dst) (dst + str) n"

definition loop_count :: "u32 \<Rightarrow> nat" where
  "loop_count h = (if h = 0 then 2 ^ 32 else unat h)"

text \<open>The call of the loop body, by the size of a pixel.\<close>

definition memset_row :: "nat \<Rightarrow> u32 \<Rightarrow> nat \<Rightarrow> (int \<Rightarrow> u8) \<Rightarrow> int \<Rightarrow> (int \<Rightarrow> u8)" where
  "memset_row sz v w m dst =
     (if sz = 1 then memset8 m dst v w else if sz = 2 then android_memset16 m dst v w
      else android_memset32 m dst v w)"

definition memset2d :: "context_t \<Rightarrow> surface_t \<Rightarrow> u32 \<Rightarrow> u32 \<Rightarrow> u32 \<Rightarrow> u32 \<Rightarrow> u32 \<Rightarrow> context_t" where
  "memset2d c s pk l t w h =
     (let sz = fm_size (the_format (sf_format s));
          stride = s32 (sf_stride s * int sz);
          dst = sf_data s + uint ((l + t * word_of_int (sf_stride s)) * word_of_nat sz);
          w = w * word_of_nat sz;
          (w, h) = (if s32 (uint w) = stride then (w * h, 1) else (w, h))
      in if sz = 1 \<or> sz = 2 \<or> sz = 4
         then c\<lparr>memory := fill_rows (memset_row sz pk (unat w)) stride (memory c) dst (loop_count h)\<rparr> else c)"

subsection \<open>Clearing\<close>

definition fixedToZ :: "int \<Rightarrow> int" where
  "fixedToZ z = s32 ((z * 2 ^ 16 - z) div 2 ^ 16)"

definition upd_clear :: "(clear_state_t \<Rightarrow> clear_state_t) \<Rightarrow> context_t \<Rightarrow> context_t" where
  "upd_clear f = upd_state (\<lambda>s. s\<lparr>clear_state := f (clear_state s)\<rparr>)"

text \<open>The colour and the depth buffer's part of \<^verbatim>\<open>ggl_clear\<close>, after the checks.\<close>

definition clear_color_buffer :: "context_t \<Rightarrow> u32 \<Rightarrow> u32 \<Rightarrow> u32 \<Rightarrow> u32 \<Rightarrow> context_t option" where
  "clear_color_buffer c l t w h = do {
     c \<leftarrow> (let cl = clear_state (state c) in
       if has_flag (cl_dirty cl) GGL_COLOR_BUFFER_BIT then do {
         p \<leftarrow> ggl_pack_color (sf_format (fb_color (buffers (state c))))
           (gglFixedToIteratedColor (cl_r cl)) (gglFixedToIteratedColor (cl_g cl))
           (gglFixedToIteratedColor (cl_b cl)) (gglFixedToIteratedColor (cl_a cl));
         Some (upd_clear (\<lambda>cl. cl\<lparr>cl_dirty := cl_dirty cl AND NOT GGL_COLOR_BUFFER_BIT, cl_colorPacked := p\<rparr>) c)
       } else Some c);
     Some (memset2d c (fb_color (buffers (state c))) (cl_colorPacked (clear_state (state c))) l t w h)
   }"

definition clear_depth_buffer :: "context_t \<Rightarrow> u32 \<Rightarrow> u32 \<Rightarrow> u32 \<Rightarrow> u32 \<Rightarrow> context_t" where
  "clear_depth_buffer c l t w h =
     (let cl = clear_state (state c);
          c = (if has_flag (cl_dirty cl) GGL_DEPTH_BUFFER_BIT then
                 let depth = word_of_int (fixedToZ (cl_depth cl)) :: u32 in
                 upd_clear (\<lambda>cl. cl\<lparr>cl_dirty := cl_dirty cl AND NOT GGL_DEPTH_BUFFER_BIT,
                                    cl_depthPacked := push_bit 16 depth OR depth\<rparr>) c
               else c)
      in memset2d c (fb_depth (buffers (state c))) (cl_depthPacked (clear_state (state c))) l t w h)"

definition ggl_clear :: "context_t \<Rightarrow> u32 \<Rightarrow> context_t option" where
  "ggl_clear c msk =
     (let sc = scissor (state c); l = sc_left sc; t = sc_top sc; w = sc_right sc - l; h = sc_bottom sc - t;
          fb = buffers (state c);
          msk = (if sf_format (fb_color fb) = 0 then msk AND NOT GGL_COLOR_BUFFER_BIT else msk);
          msk = (if sf_format (fb_depth fb) = 0 then msk AND NOT GGL_DEPTH_BUFFER_BIT else msk);
          msk = (if sf_format (fb_stencil fb) = 0 then msk AND NOT GGL_STENCIL_BUFFER_BIT else msk)
      in if w = 0 \<or> h = 0 then Some c
         else do {
           c \<leftarrow> (if has_flag msk GGL_COLOR_BUFFER_BIT then clear_color_buffer c l t w h else Some c);
           Some (if has_flag msk GGL_DEPTH_BUFFER_BIT then clear_depth_buffer c l t w h else c)
         })"

definition ggl_clearColorx :: "context_t \<Rightarrow> int \<Rightarrow> int \<Rightarrow> int \<Rightarrow> int \<Rightarrow> context_t" where
  "ggl_clearColorx c r g b a =
     upd_clear (\<lambda>cl. cl\<lparr>cl_r := gglClampx r, cl_g := gglClampx g, cl_b := gglClampx b, cl_a := gglClampx a,
       cl_dirty := cl_dirty cl OR GGL_COLOR_BUFFER_BIT\<rparr>) c"

definition ggl_clearDepthx :: "context_t \<Rightarrow> int \<Rightarrow> context_t" where
  "ggl_clearDepthx c depth =
     upd_clear (\<lambda>cl. cl\<lparr>cl_depth := gglClampx depth, cl_dirty := cl_dirty cl OR GGL_DEPTH_BUFFER_BIT\<rparr>) c"

definition ggl_clearStencil :: "context_t \<Rightarrow> int \<Rightarrow> context_t" where
  "ggl_clearStencil c s =
     upd_clear (\<lambda>cl. cl\<lparr>cl_stencil := s, cl_dirty := cl_dirty cl OR GGL_STENCIL_BUFFER_BIT\<rparr>) c"

definition ggl_init_clear :: "context_t \<Rightarrow> context_t" where
  "ggl_init_clear c =
     upd_clear (\<lambda>cl. cl\<lparr>cl_dirty := GGL_STENCIL_BUFFER_BIT OR GGL_COLOR_BUFFER_BIT OR GGL_DEPTH_BUFFER_BIT,
       cl_depth := FIXED_ONE\<rparr>) c"

lemmas [ctx_defs] = upd_clear_def

subsection \<open>What a fill writes\<close>

definition byte_of :: "u32 \<Rightarrow> nat \<Rightarrow> u8" where
  "byte_of v k = ucast (drop_bit (8 * k) v)"

lemma fill_at:
  assumes "sz \<in> {1, 2, 4}"
  shows "fill m a sz v n b = (if a \<le> b \<and> b < a + int (n * sz) then byte_of v (nat ((b - a) mod int sz)) else m b)"
proof (induction n arbitrary: m a)
  case 0
  then show ?case by auto
next
  case (Suc n)
  have sz: "0 < int sz" "sz \<in> {1, 2, 3, 4}" using assms by auto
  have shift: "(b - (a + int sz)) mod int sz = (b - a) mod int sz"
    using mod_add_self2 [of "b - a - int sz" "int sz"] by (simp add: algebra_simps)
  have first: "store_pixel m a sz v b = byte_of v (nat ((b - a) mod int sz))" if "a \<le> b" "b < a + int sz"
    using that bit_store_pixel [OF sz(2), of m a v b] by (simp add: byte_of_def)
  have rest: "store_pixel m a sz v b = m b" if "\<not> (a \<le> b \<and> b < a + int sz)"
    using that bit_store_pixel [OF sz(2), of m a v b] by auto
  have n: "int (Suc n * sz) = int sz + int (n * sz)" by simp
  consider "b < a" | "a \<le> b" "b < a + int sz" | "a + int sz \<le> b" by linarith
  then show ?case
  proof cases
    case 1
    then show ?thesis using Suc.IH [of "store_pixel m a sz v" "a + int sz"] rest sz(1) by simp
  next
    case 2
    then have "b < a + int (Suc n * sz)" unfolding n by linarith
    then show ?thesis using 2 Suc.IH [of "store_pixel m a sz v" "a + int sz"] first by simp
  next
    case 3
    then show ?thesis using sz(1) Suc.IH [of "store_pixel m a sz v" "a + int sz"] rest unfolding n shift
      by (simp add: add.assoc)
  qed
qed

lemma if_if_same: "(if P then x else if Q then x else y) = (if Q \<or> P then x else y)"
  by simp

lemma fill_rows_at:
  assumes row: "\<And>m dst b. row m dst b = (if dst \<le> b \<and> b < dst + len then byte_of v (nat ((b - dst) mod sz)) else m b)"
    and str: "sz dvd str"
  shows "fill_rows row str m dst n b =
    (if \<exists>i < n. dst + int i * str \<le> b \<and> b < dst + int i * str + len then byte_of v (nat ((b - dst) mod sz)) else m b)"
proof (induction n arbitrary: m dst)
  case 0
  then show ?case by simp
next
  case (Suc n)
  have mod: "(b - (dst + str)) mod sz = (b - dst) mod sz"
    using mod_eq_dvd_iff [of "b - (dst + str)" sz "b - dst"] str by simp
  have ex: "(\<exists>i < Suc n. dst + int i * str \<le> b \<and> b < dst + int i * str + len) \<longleftrightarrow>
      (dst \<le> b \<and> b < dst + len) \<or> (\<exists>i < n. dst + str + int i * str \<le> b \<and> b < dst + str + int i * str + len)"
    unfolding Ex_less_Suc2 by (simp add: algebra_simps)
  show ?case unfolding ex fill_rows.simps Suc.IH [of "row m dst" "dst + str"] mod row [of m dst b] by (rule if_if_same)
qed

lemma memset_row_at:
  assumes "sz \<in> {1, 2, 4}" "sz dvd w"
  shows "memset_row sz v w m dst b = (if dst \<le> b \<and> b < dst + int w then byte_of v (nat ((b - dst) mod int sz)) else m b)"
  using assms by (auto simp: memset_row_def memset8_def android_memset16_def android_memset32_def fill_at)

text \<open>A rectangle that lies in the surface: the conditions under which no 32-bit computation of
  \<^verbatim>\<open>memset2d\<close> wraps.\<close>

definition rect_in :: "surface_t \<Rightarrow> u32 \<Rightarrow> u32 \<Rightarrow> u32 \<Rightarrow> u32 \<Rightarrow> bool" where
  "rect_in s l t w h \<longleftrightarrow> 0 < w \<and> 0 < h \<and> uint l + uint w \<le> sf_stride s \<and>
     (uint t + uint h) * (sf_stride s * int (fm_size (the_format (sf_format s)))) < 2 ^ 31"

lemma rect_in_bounds:
  assumes r: "rect_in s l t w h" and sz: "0 < sz" "sz = fm_size (the_format (sf_format s))"
  shows "0 < sf_stride s" "(uint t + uint h) * (sf_stride s * int sz) < 2 ^ 31" "uint l + uint w \<le> sf_stride s"
    "0 < uint w" "0 < uint h" "uint w * int sz \<le> sf_stride s * int sz"
    "uint h * (sf_stride s * int sz) < 2 ^ 31" "sf_stride s * int sz < 2 ^ 31"
    "(uint l + uint t * sf_stride s) * int sz < 2 ^ 31"
proof -
  have "0 \<noteq> uint w" "0 \<noteq> uint h" using r by (auto simp: rect_in_def word_gt_0 uint_0_iff)
  then show w: "0 < uint w" "0 < uint h" using uint_ge_0 [of w] uint_ge_0 [of h] by linarith+
  show lw: "uint l + uint w \<le> sf_stride s"
    and tot: "(uint t + uint h) * (sf_stride s * int sz) < 2 ^ 31"
    using r sz(2) by (simp_all add: rect_in_def)
  show st: "0 < sf_stride s" using lw w(1) uint_ge_0 [of l] by linarith
  have p: "0 < sf_stride s * int sz" using st sz(1) by simp
  have "uint w \<le> sf_stride s" using lw uint_ge_0 [of l] by linarith
  then show "uint w * int sz \<le> sf_stride s * int sz" by (intro mult_right_mono) auto
  have m: "x * (sf_stride s * int sz) < 2 ^ 31" if "x \<le> uint t + uint h" for x
    using mult_right_mono [OF that, of "sf_stride s * int sz"] p tot by linarith
  show "uint h * (sf_stride s * int sz) < 2 ^ 31" by (rule m) simp
  show "sf_stride s * int sz < 2 ^ 31" using m [of 1] w(2) uint_ge_0 [of t] by simp
  have "(uint l + uint t * sf_stride s) * int sz \<le> (uint t + 1) * (sf_stride s * int sz)"
    using mult_right_mono [of "uint l" "sf_stride s" "int sz"] lw w by (simp add: algebra_simps)
  also have "\<dots> < 2 ^ 31" by (rule m) (use w(2) in simp)
  finally show "(uint l + uint t * sf_stride s) * int sz < 2 ^ 31" .
qed

lemma int_unat: "int (unat w) = uint w" for w :: u32
  by simp

lemma uint_mult_small: "uint a * uint b < 2 ^ 32 \<Longrightarrow> uint (a * b) = uint a * uint b" for a b :: u32
  by (simp add: uint_word_arith_bintrs(3) take_bit_int_eq_self)

lemma span_rows:
  assumes "0 < K"
  shows "D \<le> b \<and> b < D + int n * K \<longleftrightarrow> (\<exists>i < n. D + int i * K \<le> b \<and> b < D + int i * K + K)"
proof
  assume b: "D \<le> b \<and> b < D + int n * K"
  let ?i = "nat ((b - D) div K)"
  have i: "int ?i = (b - D) div K" using b assms by (simp add: pos_imp_zdiv_nonneg_iff)
  have "(b - D) div K < int n" using b assms by (simp add: int_div_less_iff)
  moreover have "int ?i * K \<le> b - D" "b - D < int ?i * K + K"
    unfolding i using assms pos_mod_sign [of K "b - D"] pos_mod_bound [of K "b - D"] div_mult_mod_eq [of "b - D" K] by linarith+
  ultimately show "\<exists>i < n. D + int i * K \<le> b \<and> b < D + int i * K + K"
    using i by (intro exI [of _ ?i]) linarith
next
  assume "\<exists>i < n. D + int i * K \<le> b \<and> b < D + int i * K + K"
  then obtain i where i: "i < n" "D + int i * K \<le> b" "b < D + int i * K + K" by blast
  have "(int i + 1) * K \<le> int n * K" using i(1) assms by (intro mult_right_mono) auto
  moreover have "0 \<le> int i * K" using assms by simp
  ultimately show "D \<le> b \<and> b < D + int n * K" using i(2,3) unfolding distrib_right by linarith
qed

lemma memset2d_memory:
  assumes r: "rect_in s l t w h" and sz: "sz \<in> {1, 2, 4}" "sz = fm_size (the_format (sf_format s))"
    and D: "D = sf_data s + (uint l + uint t * sf_stride s) * int sz"
  shows "\<exists>m. memset2d c s v l t w h = c\<lparr>memory := m\<rparr> \<and>
    (\<forall>b. m b = (if \<exists>i < unat h. D + int i * (sf_stride s * int sz) \<le> b \<and> b < D + int i * (sf_stride s * int sz) + uint w * int sz
                then byte_of v (nat ((b - D) mod int sz)) else memory c b))"
proof -
  have sz0: "0 < sz" "sz < 2 ^ 32" using sz(1) by auto
  note rb = rect_in_bounds [OF r sz0(1) sz(2)]
  let ?W = "sf_stride s * int sz"
  have usz: "uint (word_of_nat sz :: u32) = int sz" using sz0(2) by (simp add: unsigned_of_nat take_bit_nat_eq_self)
  have ust: "uint (word_of_int (sf_stride s) :: u32) = sf_stride s"
  proof -
    have "sf_stride s * 1 \<le> ?W" using rb(1) sz0(1) by (intro mult_left_mono) auto
    then have "sf_stride s < 2 ^ 31" using rb(8) by linarith
    then show ?thesis using rb(1) by (simp add: uint_word_of_int)
  qed
  have W0: "0 \<le> ?W" using rb(1) by simp
  have str: "s32 ?W = ?W" using W0 rb(8) by (simp add: s32_id')
  have uw: "uint (w * word_of_nat sz) = uint w * int sz"
    using uint_mult_small [of w "word_of_nat sz"] rb(6,8) by (simp add: usz)
  have usw: "s32 (uint w * int sz) = uint w * int sz"
  proof -
    have "0 \<le> uint w * int sz" "(2 :: int) ^ 31 = 2147483648" by simp_all
    then show ?thesis using rb(6,8) by (intro s32_id') linarith+
  qed
  have dst: "uint ((l + t * word_of_int (sf_stride s)) * word_of_nat sz) = (uint l + uint t * sf_stride s) * int sz"
  proof -
    have "(l + t * word_of_int (sf_stride s)) * word_of_nat sz = (word_of_int ((uint l + uint t * sf_stride s) * int sz) :: u32)"
      by simp
    moreover have "0 \<le> (uint l + uint t * sf_stride s) * int sz" using rb(1) by simp
    ultimately show ?thesis using rb(9) by (simp only: uint_word_of_int) simp
  qed
  have dvd: "int sz dvd ?W" "sz dvd unat (w * word_of_nat sz)"
  proof -
    have "int sz dvd uint (w * word_of_nat sz)" unfolding uw by simp
    then show "sz dvd unat (w * word_of_nat sz)" unfolding uint_nat int_dvd_int_iff .
  qed simp
  have h: "loop_count h = unat h" using rb(5) by (auto simp: loop_count_def)
  show ?thesis
  proof (cases "uint w = sf_stride s")
    case True
    have wh: "uint (w * word_of_nat sz * h) = uint h * ?W"
      using uint_mult_small [of "w * word_of_nat sz" h] rb(7) uw True by (simp add: mult.commute mult.left_commute)
    have "sz dvd unat (w * word_of_nat sz * h)"
    proof -
      have "int sz dvd uint (w * word_of_nat sz * h)" unfolding wh by simp
      then show ?thesis unfolding uint_nat int_dvd_int_iff .
    qed
    note row = memset_row_at [OF sz(1) this, of v, unfolded int_unat wh]
    have m: "memset2d c s v l t w h = c\<lparr>memory := fill_rows (memset_row sz v (unat (w * word_of_nat sz * h))) ?W (memory c) D 1\<rparr>"
      unfolding memset2d_def Let_def sz(2) [symmetric] uw usw str dst D True using sz(1) by (simp add: loop_count_def)
    have span: "(\<exists>i < 1. D + int i * ?W \<le> b \<and> b < D + int i * ?W + uint h * ?W) \<longleftrightarrow>
        (\<exists>i < unat h. D + int i * ?W \<le> b \<and> b < D + int i * ?W + uint w * int sz)" for b
    proof -
      have "(\<exists>i < 1. D + int i * ?W \<le> b \<and> b < D + int i * ?W + uint h * ?W) \<longleftrightarrow> D \<le> b \<and> b < D + uint h * ?W" by auto
      then show ?thesis using span_rows [of ?W D b "unat h"] rb(1) sz0(1) unfolding True int_unat by simp
    qed
    show ?thesis unfolding m span [symmetric]
      by (rule exI, rule conjI [OF refl], rule allI, rule fill_rows_at) (rule row, rule dvd(1))
  next
    case False
    then have n: "\<not> uint w * int sz = ?W" using sz0 by simp
    have m: "memset2d c s v l t w h = c\<lparr>memory := fill_rows (memset_row sz v (unat (w * word_of_nat sz))) ?W (memory c) D (unat h)\<rparr>"
      unfolding memset2d_def Let_def sz(2) [symmetric] uw usw str dst D if_not_P [OF n] prod.case h using sz(1) by simp
    show ?thesis unfolding m
      by (rule exI, rule conjI [OF refl], rule allI,
          rule fill_rows_at) (rule memset_row_at [OF sz(1) dvd(2), of v, unfolded int_unat uw], rule dvd(1))
  qed
qed

lemma uint_word_of_int_small: "0 \<le> k \<Longrightarrow> k < 2 ^ 32 \<Longrightarrow> uint (word_of_int k :: u32) = k"
  by (simp add: uint_word_of_int)

abbreviation (input) GGL_PIXEL_FORMAT_RGB_888 :: nat where "GGL_PIXEL_FORMAT_RGB_888 \<equiv> 3"

definition in_rect :: "u32 \<Rightarrow> u32 \<Rightarrow> u32 \<Rightarrow> u32 \<Rightarrow> u32 \<Rightarrow> u32 \<Rightarrow> bool" where
  "in_rect l t w h x y \<longleftrightarrow> uint l \<le> uint x \<and> uint x < uint l + uint w \<and> uint t \<le> uint y \<and> uint y < uint t + uint h"

lemma in_rect_rows: "in_rect l t w h x y \<Longrightarrow> unat t \<le> unat y \<and> unat y - unat t < unat h \<and> int (unat y - unat t) = uint y - uint t"
  unfolding in_rect_def int_unat [symmetric] by arith

lemma rect_pixel_address:
  assumes r: "rect_in s l t w h" and sz: "0 < sz" "sz = fm_size (the_format (sf_format s))" and xy: "in_rect l t w h x y"
  shows "pixel_address s sz x y = sf_data s + (uint l + uint t * sf_stride s) * int sz
     + int (unat y - unat t) * (sf_stride s * int sz) + (uint x - uint l) * int sz"
proof -
  note rb = rect_in_bounds [OF r sz]
  have y: "int (unat y - unat t) = uint y - uint t" using in_rect_rows [OF xy] by blast
  have b: "0 \<le> uint x + sf_stride s * uint y" using rb(1) by simp
  have "uint x + sf_stride s * uint y \<le> sf_stride s * (uint y + 1)" using xy rb(3) by (simp add: in_rect_def distrib_left)
  also have "\<dots> \<le> sf_stride s * (uint t + uint h)" using xy rb(1) by (intro mult_left_mono) (auto simp: in_rect_def)
  also have "\<dots> * 1 \<le> sf_stride s * (uint t + uint h) * int sz" using rb(1) sz(1) by (intro mult_left_mono) auto
  finally have "uint x + sf_stride s * uint y < 2147483648" using rb(2) by (simp add: algebra_simps)
  then have "s32 (uint x + sf_stride s * uint y) = uint x + sf_stride s * uint y" using b by (intro s32_id') linarith+
  then show ?thesis unfolding pixel_address_def y by (simp add: algebra_simps)
qed

lemma load_bytes:
  assumes sz: "sz \<in> {1, 2, 3, 4}" and m: "\<And>k. k < sz \<Longrightarrow> m (a + int k) = byte_of v k"
  shows "load_pixel m a sz = v AND mask (8 * sz)"
proof -
  have "load_pixel m a sz = load_pixel (store_pixel m a sz v) a sz"
  proof (rule load_outside [OF sz])
    fix b assume b: "a \<le> b" "b < a + int sz"
    then show "m b = store_pixel m a sz v b"
      using m [of "nat (b - a)"] bit_store_pixel [OF sz, of m a v b] by (simp add: byte_of_def)
  qed
  then show ?thesis using load_store [OF sz] by simp
qed

text \<open>\<^verbatim>\<open>memset2d\<close> sets every pixel of the rectangle and no other byte.\<close>

lemma memset2d_pixels:
  assumes r: "rect_in s l t w h" and sz: "sz \<in> {1, 2, 4}" "sz = fm_size (the_format (sf_format s))"
  shows "\<exists>m. memset2d c s v l t w h = c\<lparr>memory := m\<rparr> \<and>
    (\<forall>x y. in_rect l t w h x y \<longrightarrow> load_pixel m (pixel_address s sz x y) sz = v AND mask (8 * sz)) \<and>
    (\<forall>b. (\<forall>x y. in_rect l t w h x y \<longrightarrow> \<not> (pixel_address s sz x y \<le> b \<and> b < pixel_address s sz x y + int sz)) \<longrightarrow> m b = memory c b)"
proof -
  have sz': "0 < sz" "sz \<in> {1, 2, 3, 4}" using sz(1) by auto
  note rb = rect_in_bounds [OF r sz'(1) sz(2)]
  define D where "D = sf_data s + (uint l + uint t * sf_stride s) * int sz"
  let ?W = "sf_stride s * int sz"
  obtain m where m: "memset2d c s v l t w h = c\<lparr>memory := m\<rparr>"
    and mb: "\<And>b. m b = (if \<exists>i < unat h. D + int i * ?W \<le> b \<and> b < D + int i * ?W + uint w * int sz
                then byte_of v (nat ((b - D) mod int sz)) else memory c b)"
    using memset2d_memory [OF r sz D_def, of c v] by blast
  have ad: "pixel_address s sz x y = D + int (unat y - unat t) * ?W + (uint x - uint l) * int sz" if "in_rect l t w h x y" for x y
    using rect_pixel_address [OF r sz'(1) sz(2) that] unfolding D_def .
  have inside: "m (pixel_address s sz x y + int k) = byte_of v k" if xy: "in_rect l t w h x y" and k: "k < sz" for x y k
  proof -
    have i: "unat y - unat t < unat h" using in_rect_rows [OF xy] by blast
    have "(uint x - uint l + 1) * int sz \<le> uint w * int sz" using xy by (intro mult_right_mono) (auto simp: in_rect_def)
    moreover have "0 \<le> (uint x - uint l) * int sz" using xy by (simp add: in_rect_def)
    ultimately have "D + int (unat y - unat t) * ?W \<le> pixel_address s sz x y + int k"
      "pixel_address s sz x y + int k < D + int (unat y - unat t) * ?W + uint w * int sz"
      unfolding ad [OF xy] using k by (simp_all add: distrib_right)
    moreover have "(pixel_address s sz x y + int k - D) mod int sz = int k"
    proof -
      have "pixel_address s sz x y + int k - D = int k + (int (unat y - unat t) * sf_stride s + (uint x - uint l)) * int sz"
        unfolding ad [OF xy] by (simp add: algebra_simps)
      then show ?thesis using k by (simp only: mod_mult_self1) simp
    qed
    ultimately show ?thesis using i mb [of "pixel_address s sz x y + int k"] by auto
  qed
  have outside: "\<exists>x y. in_rect l t w h x y \<and> pixel_address s sz x y \<le> b \<and> b < pixel_address s sz x y + int sz"
    if i: "i < unat h" and b: "D + int i * ?W \<le> b" "b < D + int i * ?W + uint w * int sz" for i b
  proof -
    let ?q = "(b - (D + int i * ?W)) div int sz"
    have q: "0 \<le> ?q" "?q < uint w" using b sz'(1) by (simp_all add: pos_imp_zdiv_nonneg_iff int_div_less_iff)
    have qb: "?q * int sz \<le> b - (D + int i * ?W)" "b - (D + int i * ?W) < ?q * int sz + int sz"
      using sz'(1) pos_mod_sign [of "int sz" "b - (D + int i * ?W)"] pos_mod_bound [of "int sz" "b - (D + int i * ?W)"]
        div_mult_mod_eq [of "b - (D + int i * ?W)" "int sz"] by linarith+
    define x :: u32 where "x = word_of_int (uint l + ?q)"
    define y :: u32 where "y = word_of_int (uint t + int i)"
    have st1: "sf_stride s \<le> ?W" using rb(1) sz'(1) by simp
    then have "1 \<le> ?W" using rb(1) by linarith
    then have "(uint t + uint h) * 1 \<le> (uint t + uint h) * ?W" by (rule mult_left_mono) simp
    note st = st1 this
    have "uint l + ?q < 2 ^ 32" using q(2) rb(3,8) st(1) by simp
    then have x: "uint x = uint l + ?q" using q(1) unfolding x_def by (intro uint_word_of_int_small) simp_all
    have ih: "int i < uint h" using i int_unat [of h] by linarith
    have "uint t + int i < 2 ^ 32" using ih rb(2) st(2) by simp
    then have y: "uint y = uint t + int i" unfolding y_def by (intro uint_word_of_int_small) simp_all
    have r: "in_rect l t w h x y" unfolding in_rect_def x y using q ih by simp
    have "int (unat y - unat t) = int i" using in_rect_rows [OF r] y by simp
    then have "pixel_address s sz x y = D + int i * ?W + ?q * int sz" unfolding ad [OF r] x by simp
    then show ?thesis using r qb by (intro exI [of _ x] exI [of _ y]) linarith
  qed
  show ?thesis
  proof (intro exI [of _ m] conjI m allI impI)
    fix x y assume xy: "in_rect l t w h x y"
    show "load_pixel m (pixel_address s sz x y) sz = v AND mask (8 * sz)"
      by (rule load_bytes [OF sz'(2)]) (rule inside [OF xy])
  next
    fix b assume "\<forall>x y. in_rect l t w h x y \<longrightarrow> \<not> (pixel_address s sz x y \<le> b \<and> b < pixel_address s sz x y + int sz)"
    then have "\<not> (\<exists>i < unat h. D + int i * ?W \<le> b \<and> b < D + int i * ?W + uint w * int sz)" using outside by blast
    then show "m b = memory c b" unfolding mb by (rule if_not_P)
  qed
qed

text \<open>The state a colour clear uses: the scissor rectangle and the colour buffer.\<close>

definition clear_rect :: "context_t \<Rightarrow> u32 \<Rightarrow> u32 \<Rightarrow> bool" where
  "clear_rect c x y =
     (let sc = scissor (state c) in in_rect (sc_left sc) (sc_top sc) (sc_right sc - sc_left sc) (sc_bottom sc - sc_top sc) x y)"

definition clear_ok :: "context_t \<Rightarrow> surface_t \<Rightarrow> bool" where
  "clear_ok c s =
     (let sc = scissor (state c) in
      rect_in s (sc_left sc) (sc_top sc) (sc_right sc - sc_left sc) (sc_bottom sc - sc_top sc))"

lemma has_flag_pow: "has_flag w (2 ^ n) \<longleftrightarrow> bit w n"
  by (simp add: has_flag_def and_exp_eq_0_iff_not_bit)


definition demo_clear :: context_t where
  "demo_clear = ggl_clearColorx (upd_state (\<lambda>s. s\<lparr>
     buffers := (buffers s)\<lparr>fb_color := demo_565\<rparr>,
     scissor := (scissor s)\<lparr>sc_left := 1, sc_right := 5, sc_top := 2, sc_bottom := 4\<rparr>\<rparr>) (context_zero (\<lambda>_. 0)))
     0x10000 0 0 0x10000"


end
