(* ===== verification/GGLState.thy ===== *)
theory GGLState
  imports GGLClear
begin

text \<open>
  The state setters of the rasterizer: \<^verbatim>\<open>libpixelflinger/pixelflinger.cpp\<close>, one definition per
  procedure of the context's table. A setter that changes what the pixel pipeline depends on reports
  it with \<^verbatim>\<open>ggl_state_changed\<close>, so that the next drawing call validates. \<^term>\<open>activeTMU\<close> is the
  index the code's pointer \<^verbatim>\<open>c->activeTMU\<close> has in \<^verbatim>\<open>c->state.texture\<close>. \<open>al\<close> answers whether an
  allocation of that many bytes succeeds.
\<close>

subsection \<open>Flags\<close>

definition set_flag :: "u32 \<Rightarrow> bool \<Rightarrow> context_t \<Rightarrow> context_t" where
  "set_flag f en = upd_state (\<lambda>s. s\<lparr>enables := (if en then enables s OR f else enables s AND NOT f)\<rparr>)"

text \<open>The common shape of the \<^verbatim>\<open>ggl_enable_*\<close> functions.\<close>

definition enable_flag :: "u32 \<Rightarrow> context_t \<Rightarrow> bool \<Rightarrow> context_t" where
  "enable_flag f c en =
     (if has_flag (enables (state c)) f \<noteq> en
      then ggl_state_changed (set_flag f en c) GGL_PIXEL_PIPELINE_STATE else c)"

definition ggl_enable_fog :: "context_t \<Rightarrow> bool \<Rightarrow> context_t" where
  "ggl_enable_fog = enable_flag GGL_ENABLE_FOG"

definition ggl_enable_blending :: "context_t \<Rightarrow> bool \<Rightarrow> context_t" where
  "ggl_enable_blending = enable_flag GGL_ENABLE_BLENDING"

definition ggl_enable_alpha_test :: "context_t \<Rightarrow> bool \<Rightarrow> context_t" where
  "ggl_enable_alpha_test = enable_flag GGL_ENABLE_ALPHA_TEST"

definition ggl_enable_logic_op :: "context_t \<Rightarrow> bool \<Rightarrow> context_t" where
  "ggl_enable_logic_op = enable_flag GGL_ENABLE_LOGIC_OP"

definition ggl_enable_dither :: "context_t \<Rightarrow> bool \<Rightarrow> context_t" where
  "ggl_enable_dither = enable_flag GGL_ENABLE_DITHER"

definition ggl_enable_stencil_test :: "context_t \<Rightarrow> bool \<Rightarrow> context_t" where
  "ggl_enable_stencil_test c en = c"

definition ggl_enable_depth_test :: "context_t \<Rightarrow> bool \<Rightarrow> context_t" where
  "ggl_enable_depth_test c en =
     (let en = (if sf_format (fb_depth (buffers (state c))) = 0 then False else en)
      in enable_flag GGL_ENABLE_DEPTH_TEST c en)"

definition ggl_enable_aa :: "context_t \<Rightarrow> bool \<Rightarrow> context_t" where
  "ggl_enable_aa = enable_flag GGL_ENABLE_AA"

definition ggl_enable_point_aa_nice :: "context_t \<Rightarrow> bool \<Rightarrow> context_t" where
  "ggl_enable_point_aa_nice = enable_flag GGL_ENABLE_POINT_AA_NICE"

definition ggl_enable_w_lerp :: "context_t \<Rightarrow> bool \<Rightarrow> context_t" where
  "ggl_enable_w_lerp = enable_flag GGL_ENABLE_W"

definition ggl_enable_texture2d :: "context_t \<Rightarrow> bool \<Rightarrow> context_t" where
  "ggl_enable_texture2d c en =
     (if tx_enable (texture (state c) ! activeTMU c) \<noteq> en then
        let c = upd_tmu (activeTMU c) (\<lambda>t. t\<lparr>tx_enable := en\<rparr>) c;
            msk = push_bit (activeTMUIndex c) 1;
            c = upd_state (\<lambda>s. s\<lparr>enabled_tmu := (if en then enabled_tmu s OR msk else enabled_tmu s AND NOT msk)\<rparr>) c;
            c = set_flag GGL_ENABLE_TMUS (enabled_tmu (state c) \<noteq> 0) c
        in ggl_state_changed c GGL_TMU_STATE
      else c)"

subsection \<open>Scissor and buffers\<close>

definition upd_scissor :: "(scissor_t \<Rightarrow> scissor_t) \<Rightarrow> context_t \<Rightarrow> context_t" where
  "upd_scissor f = upd_state (\<lambda>s. s\<lparr>scissor := f (scissor s)\<rparr>)"

text \<open>\<^verbatim>\<open>min\<close> and \<^verbatim>\<open>max\<close> are on \<^verbatim>\<open>int\<close>: the unsigned fields are converted on the way in and out.\<close>

definition ggl_set_scissor :: "context_t \<Rightarrow> context_t" where
  "ggl_set_scissor c =
     (let w = sf_width (fb_color (buffers (state c))); h = sf_height (fb_color (buffers (state c))) in
      if has_flag (enables (state c)) GGL_ENABLE_SCISSOR_TEST then
        upd_scissor (\<lambda>sc. sc\<lparr>
          sc_left := word_of_int (max 0 (user_left sc)), sc_right := word_of_int (min (sint w) (user_right sc)),
          sc_top := word_of_int (max 0 (user_top sc)), sc_bottom := word_of_int (min (sint h) (user_bottom sc))\<rparr>) c
      else upd_scissor (\<lambda>sc. sc\<lparr>sc_left := 0, sc_top := 0, sc_right := w, sc_bottom := h\<rparr>) c)"

definition ggl_scissor :: "context_t \<Rightarrow> int \<Rightarrow> int \<Rightarrow> int \<Rightarrow> int \<Rightarrow> context_t" where
  "ggl_scissor c x y width height =
     ggl_set_scissor (upd_scissor (\<lambda>sc. sc\<lparr>user_left := x, user_top := y,
       user_right := s32 (x + width), user_bottom := s32 (y + height)\<rparr>) c)"

definition ggl_enable_scissor_test :: "context_t \<Rightarrow> bool \<Rightarrow> context_t" where
  "ggl_enable_scissor_test c en =
     (if has_flag (enables (state c)) GGL_ENABLE_SCISSOR_TEST \<noteq> en
      then ggl_set_scissor (set_flag GGL_ENABLE_SCISSOR_TEST en c) else c)"

definition upd_buffers :: "(framebuffer_t \<Rightarrow> framebuffer_t) \<Rightarrow> context_t \<Rightarrow> context_t" where
  "upd_buffers f = upd_state (\<lambda>s. s\<lparr>buffers := f (buffers s)\<rparr>)"

definition ggl_bindTexture :: "context_t \<Rightarrow> GGLSurface \<Rightarrow> context_t" where
  "ggl_bindTexture c surface =
     (let c = (if gs_format surface \<noteq> sf_format (tx_surface (texture (state c) ! activeTMU c))
               then ggl_state_changed c GGL_TMU_STATE else c)
      in upd_tmu (activeTMU c) (\<lambda>t. t\<lparr>tx_surface := ggl_set_surface (tx_surface t) surface\<rparr>) c)"

definition ggl_bindTextureLod :: "context_t \<Rightarrow> nat \<Rightarrow> GGLSurface \<Rightarrow> context_t" where
  "ggl_bindTextureLod c tmu surface =
     upd_tmu tmu (\<lambda>t. t\<lparr>tx_surface := ggl_set_surface (tx_surface t) surface\<rparr>) c"

definition alloc_coverage :: "(nat \<Rightarrow> bool) \<Rightarrow> u32 \<Rightarrow> framebuffer_t \<Rightarrow> framebuffer_t" where
  "alloc_coverage al width fb =
     (if unat width > fb_coverageBufferSize fb
      then let ok = al (unat (width * 2)) in
           fb\<lparr>fb_coverage := ok, fb_coverageBufferSize := (if ok then unat width else 0)\<rparr>
      else fb)"

definition ggl_colorBuffer :: "(nat \<Rightarrow> bool) \<Rightarrow> context_t \<Rightarrow> GGLSurface \<Rightarrow> context_t" where
  "ggl_colorBuffer al c surface =
     (let c = (if gs_format surface \<noteq> sf_format (fb_color (buffers (state c)))
               then ggl_state_changed c GGL_CB_STATE else c);
          c = upd_buffers (alloc_coverage al (gs_width surface)) c;
          c = upd_buffers (\<lambda>fb. fb\<lparr>fb_color := ggl_set_surface (fb_color fb) surface\<rparr>) c;
          c = (if sf_format (fb_read (buffers (state c))) = 0
               then upd_buffers (\<lambda>fb. fb\<lparr>fb_read := ggl_set_surface (fb_read fb) surface\<rparr>) c else c)
      in ggl_set_scissor c)"

definition ggl_readBuffer :: "context_t \<Rightarrow> GGLSurface \<Rightarrow> context_t" where
  "ggl_readBuffer c surface = upd_buffers (\<lambda>fb. fb\<lparr>fb_read := ggl_set_surface (fb_read fb) surface\<rparr>) c"

definition ggl_depthBuffer :: "context_t \<Rightarrow> GGLSurface \<Rightarrow> context_t" where
  "ggl_depthBuffer c surface =
     (if gs_format surface = GGL_PIXEL_FORMAT_Z_16
      then upd_buffers (\<lambda>fb. fb\<lparr>fb_depth := ggl_set_surface (fb_depth fb) surface\<rparr>) c
      else ggl_enable_depth_test
             (upd_buffers (\<lambda>fb. fb\<lparr>fb_depth := (fb_depth fb)\<lparr>sf_format := GGL_PIXEL_FORMAT_NONE\<rparr>\<rparr>) c) False)"

definition enable_disable :: "context_t \<Rightarrow> nat \<Rightarrow> bool \<Rightarrow> context_t" where
  "enable_disable c name en =
     (if name = GGL_BLEND then ggl_enable_blending c en
      else if name = GGL_SCISSOR_TEST then ggl_enable_scissor_test c en
      else if name = GGL_ALPHA_TEST then ggl_enable_alpha_test c en
      else if name = GGL_COLOR_LOGIC_OP then ggl_enable_logic_op c en
      else if name = GGL_DITHER then ggl_enable_dither c en
      else if name = GGL_STENCIL_TEST then ggl_enable_stencil_test c en
      else if name = GGL_DEPTH_TEST then ggl_enable_depth_test c en
      else if name = GGL_AA then ggl_enable_aa c en
      else if name = GGL_TEXTURE_2D then ggl_enable_texture2d c en
      else if name = GGL_W_LERP then ggl_enable_w_lerp c en
      else if name = GGL_FOG then ggl_enable_fog c en
      else if name = GGL_POINT_SMOOTH_NICE then ggl_enable_point_aa_nice c en
      else c)"

definition ggl_enable :: "context_t \<Rightarrow> nat \<Rightarrow> context_t" where
  "ggl_enable c name = enable_disable c name True"

definition ggl_disable :: "context_t \<Rightarrow> nat \<Rightarrow> context_t" where
  "ggl_disable c name = enable_disable c name False"

definition ggl_enableDisable :: "context_t \<Rightarrow> nat \<Rightarrow> nat \<Rightarrow> context_t" where
  "ggl_enableDisable c name en = enable_disable c name (en \<noteq> 0)"

subsection \<open>Shading\<close>

definition upd_shade :: "(shade_t \<Rightarrow> shade_t) \<Rightarrow> context_t \<Rightarrow> context_t" where
  "upd_shade f c = c\<lparr>shade := f (shade c)\<rparr>"

definition ggl_shadeModel :: "context_t \<Rightarrow> nat \<Rightarrow> context_t" where
  "ggl_shadeModel c mode =
     (if mode = GGL_FLAT then
        (if has_flag (enables (state c)) GGL_ENABLE_SMOOTH
         then ggl_state_changed (set_flag GGL_ENABLE_SMOOTH False c) GGL_PIXEL_PIPELINE_STATE else c)
      else if mode = GGL_SMOOTH then
        (if \<not> has_flag (enables (state c)) GGL_ENABLE_SMOOTH
         then ggl_state_changed (set_flag GGL_ENABLE_SMOOTH True c) GGL_PIXEL_PIPELINE_STATE else c)
      else ggl_error c GL_INVALID_ENUM)"

definition ggl_color4xv :: "context_t \<Rightarrow> int list \<Rightarrow> context_t" where
  "ggl_color4xv c color =
     upd_shade (\<lambda>s. s\<lparr>sh_r0 := gglFixedToIteratedColor (color ! 0), sh_g0 := gglFixedToIteratedColor (color ! 1),
       sh_b0 := gglFixedToIteratedColor (color ! 2), sh_a0 := gglFixedToIteratedColor (color ! 3)\<rparr>) c"

definition ggl_colorGrad12xv :: "context_t \<Rightarrow> int list \<Rightarrow> context_t" where
  "ggl_colorGrad12xv c grad =
     upd_shade (\<lambda>s. s\<lparr>
       sh_r0 := s32 (grad ! 0 + 0x8000), sh_drdx := grad ! 1, sh_drdy := grad ! 2,
       sh_g0 := s32 (grad ! 3 + 0x8000), sh_dgdx := grad ! 4, sh_dgdy := grad ! 5,
       sh_b0 := s32 (grad ! 6 + 0x8000), sh_dbdx := grad ! 7, sh_dbdy := grad ! 8,
       sh_a0 := s32 (grad ! 9 + 0x8000), sh_dadx := grad ! 10, sh_dady := grad ! 11\<rparr>) c"

definition ggl_zGrad3xv :: "context_t \<Rightarrow> int list \<Rightarrow> context_t" where
  "ggl_zGrad3xv c grad =
     upd_shade (\<lambda>s. s\<lparr>sh_z0 := word_of_int (grad ! 0) + 0x8000, sh_dzdx := grad ! 1, sh_dzdy := grad ! 2\<rparr>) c"

definition ggl_wGrad3xv :: "context_t \<Rightarrow> int list \<Rightarrow> context_t" where
  "ggl_wGrad3xv c grad = upd_shade (\<lambda>s. s\<lparr>sh_w0 := grad ! 0, sh_dwdx := grad ! 1, sh_dwdy := grad ! 2\<rparr>) c"

definition ggl_fogGrad3xv :: "context_t \<Rightarrow> int list \<Rightarrow> context_t" where
  "ggl_fogGrad3xv c grad =
     upd_shade (\<lambda>s. s\<lparr>sh_f0 := word_of_int (grad ! 0), sh_dfdx := grad ! 1, sh_dfdy := grad ! 2\<rparr>) c"

text \<open>A clamped 16.16 colour as a byte: \<^verbatim>\<open>(r - (r>>8))>>8\<close>, stored into a \<^verbatim>\<open>uint8_t\<close>.\<close>

definition color_byte :: "int \<Rightarrow> nat" where
  "color_byte r = nat ((r - r div 2 ^ 8) div 2 ^ 8 mod 256)"

definition ggl_fogColor3xv :: "context_t \<Rightarrow> int list \<Rightarrow> context_t" where
  "ggl_fogColor3xv c color =
     upd_state (\<lambda>s. s\<lparr>fog_color := [0xFF, color_byte (gglClampx (color ! 0)), color_byte (gglClampx (color ! 1)),
       color_byte (gglClampx (color ! 2))]\<rparr>) c"

subsection \<open>Blending\<close>

definition blend_changed :: "context_t \<Rightarrow> context_t" where
  "blend_changed c =
     (if has_flag (enables (state c)) GGL_ENABLE_BLENDING then ggl_state_changed c GGL_PIXEL_PIPELINE_STATE else c)"

definition ggl_blendFunc :: "context_t \<Rightarrow> nat \<Rightarrow> nat \<Rightarrow> context_t" where
  "ggl_blendFunc c src dst =
     blend_changed (upd_state (\<lambda>s. s\<lparr>blend := \<lparr>bl_src = src, bl_dst = dst, bl_src_alpha = src, bl_dst_alpha = dst,
       bl_alpha_separate = False\<rparr>\<rparr>) c)"

definition ggl_blendFuncSeparate :: "context_t \<Rightarrow> nat \<Rightarrow> nat \<Rightarrow> nat \<Rightarrow> nat \<Rightarrow> context_t" where
  "ggl_blendFuncSeparate c src dst srcAlpha dstAlpha =
     blend_changed (upd_state (\<lambda>s. s\<lparr>blend := \<lparr>bl_src = src, bl_dst = dst, bl_src_alpha = srcAlpha,
       bl_dst_alpha = dstAlpha, bl_alpha_separate = True\<rparr>\<rparr>) c)"

subsection \<open>Texture units\<close>

definition active_tx :: "context_t \<Rightarrow> texture_t" where
  "active_tx c = texture (state c) ! activeTMU c"

text \<open>An update of the active unit, reported only when it changes something.\<close>

definition ggl_texEnvi :: "context_t \<Rightarrow> nat \<Rightarrow> nat \<Rightarrow> nat \<Rightarrow> context_t" where
  "ggl_texEnvi c target pname param =
     (if target \<noteq> GGL_TEXTURE_ENV \<or> pname \<noteq> GGL_TEXTURE_ENV_MODE then ggl_error c GL_INVALID_ENUM
      else if param \<in> {GGL_REPLACE, GGL_MODULATE, GGL_DECAL, GGL_BLEND, GGL_ADD} then
        (if tx_env (active_tx c) \<noteq> param
         then ggl_state_changed (upd_tmu (activeTMU c) (\<lambda>t. t\<lparr>tx_env := param\<rparr>) c) GGL_TMU_STATE else c)
      else ggl_error c GL_INVALID_ENUM)"

definition ggl_texEnvxv :: "context_t \<Rightarrow> nat \<Rightarrow> nat \<Rightarrow> int list \<Rightarrow> context_t" where
  "ggl_texEnvxv c target pname params =
     (if target \<noteq> GGL_TEXTURE_ENV then ggl_error c GL_INVALID_ENUM
      else if pname = GGL_TEXTURE_ENV_MODE then ggl_texEnvi c target pname (nat (params ! 0 mod 2 ^ 32))
      else if pname = GGL_TEXTURE_ENV_COLOR then
        upd_tmu (activeTMU c) (\<lambda>t. t\<lparr>tx_env_color := map (\<lambda>i. color_byte (gglClampx (params ! i))) [3, 0, 1, 2]\<rparr>) c
      else ggl_error c GL_INVALID_ENUM)"

datatype tex_param = Tp_s_wrap | Tp_t_wrap | Tp_min_filter | Tp_mag_filter

text \<open>The switch of \<^verbatim>\<open>ggl_texParameteri\<close>: which field \<^verbatim>\<open>what\<close> points to and the value stored.\<close>

definition tex_param_what :: "nat \<Rightarrow> nat \<Rightarrow> (tex_param \<times> nat) option" where
  "tex_param_what pname param =
     (if pname = GGL_TEXTURE_WRAP_S then
        (if param \<in> {GGL_CLAMP, GGL_REPEAT} then Some (Tp_s_wrap, param) else None)
      else if pname = GGL_TEXTURE_WRAP_T then
        (if param \<in> {GGL_CLAMP, GGL_REPEAT} then Some (Tp_t_wrap, param) else None)
      else if pname = GGL_TEXTURE_MIN_FILTER then
        (if param \<in> {GGL_NEAREST, GGL_NEAREST_MIPMAP_NEAREST, GGL_NEAREST_MIPMAP_LINEAR} then Some (Tp_min_filter, GGL_NEAREST)
         else if param \<in> {GGL_LINEAR, GGL_LINEAR_MIPMAP_NEAREST, GGL_LINEAR_MIPMAP_LINEAR} then Some (Tp_min_filter, GGL_LINEAR)
         else None)
      else if pname = GGL_TEXTURE_MAG_FILTER then
        (if param \<in> {GGL_NEAREST, GGL_LINEAR} then Some (Tp_mag_filter, param) else None)
      else None)"

fun get_tex_param :: "tex_param \<Rightarrow> texture_t \<Rightarrow> nat" where
  "get_tex_param Tp_s_wrap t = tx_s_wrap t"
| "get_tex_param Tp_t_wrap t = tx_t_wrap t"
| "get_tex_param Tp_min_filter t = tx_min_filter t"
| "get_tex_param Tp_mag_filter t = tx_mag_filter t"

fun set_tex_param :: "tex_param \<Rightarrow> nat \<Rightarrow> texture_t \<Rightarrow> texture_t" where
  "set_tex_param Tp_s_wrap v t = t\<lparr>tx_s_wrap := v\<rparr>"
| "set_tex_param Tp_t_wrap v t = t\<lparr>tx_t_wrap := v\<rparr>"
| "set_tex_param Tp_min_filter v t = t\<lparr>tx_min_filter := v\<rparr>"
| "set_tex_param Tp_mag_filter v t = t\<lparr>tx_mag_filter := v\<rparr>"

definition ggl_texParameteri :: "context_t \<Rightarrow> nat \<Rightarrow> nat \<Rightarrow> nat \<Rightarrow> context_t" where
  "ggl_texParameteri c target pname param =
     (if target \<noteq> GGL_TEXTURE_2D then ggl_error c GL_INVALID_ENUM
      else
        let param = (if param = GGL_CLAMP_TO_EDGE then GGL_CLAMP else param) in
        case tex_param_what pname param of
          None \<Rightarrow> ggl_error c GL_INVALID_ENUM
        | Some (what, param) \<Rightarrow>
            if get_tex_param what (active_tx c) \<noteq> param
            then ggl_state_changed (upd_tmu (activeTMU c) (set_tex_param what param) c) GGL_TMU_STATE else c)"

definition ggl_texCoordGradScale8xv :: "context_t \<Rightarrow> nat \<Rightarrow> int list \<Rightarrow> context_t" where
  "ggl_texCoordGradScale8xv c tmu grad =
     upd_tmu tmu (\<lambda>u. u\<lparr>tx_shade := \<lparr>is0 = grad ! 0, idsdx = grad ! 1, idsdy = grad ! 2, sscale = grad ! 6,
       it0 = grad ! 3, idtdx = grad ! 4, idtdy = grad ! 5, tscale = grad ! 7\<rparr>\<rparr>) c"

definition ggl_texCoord2x :: "context_t \<Rightarrow> int \<Rightarrow> int \<Rightarrow> context_t" where
  "ggl_texCoord2x c s t =
     upd_tmu (activeTMU c) (\<lambda>u. u\<lparr>tx_shade := (tx_shade u)\<lparr>is0 := s, it0 := t, sscale := 0, tscale := 0\<rparr>\<rparr>) c"

definition ggl_texCoord2i :: "context_t \<Rightarrow> int \<Rightarrow> int \<Rightarrow> context_t" where
  "ggl_texCoord2i c s t = ggl_texCoord2x c (s32 (s * 2 ^ 16)) (s32 (t * 2 ^ 16))"

definition ggl_texGeni :: "context_t \<Rightarrow> nat \<Rightarrow> nat \<Rightarrow> nat \<Rightarrow> context_t" where
  "ggl_texGeni c coord pname param =
     (if pname \<noteq> GGL_TEXTURE_GEN_MODE then ggl_error c GL_INVALID_ENUM
      else if coord = GGL_S then
        (if tx_s_coord (active_tx c) \<noteq> param
         then ggl_state_changed (upd_tmu (activeTMU c) (\<lambda>t. t\<lparr>tx_s_coord := param\<rparr>) c) GGL_TMU_STATE else c)
      else if coord = GGL_T then
        (if tx_t_coord (active_tx c) \<noteq> param
         then ggl_state_changed (upd_tmu (activeTMU c) (\<lambda>t. t\<lparr>tx_t_coord := param\<rparr>) c) GGL_TMU_STATE else c)
      else ggl_error c GL_INVALID_ENUM)"

definition ggl_activeTexture :: "context_t \<Rightarrow> nat \<Rightarrow> context_t" where
  "ggl_activeTexture c tmu =
     (if tmu \<ge> 2 then ggl_error c GL_INVALID_ENUM else c\<lparr>activeTMUIndex := tmu, activeTMU := tmu\<rparr>)"

subsection \<open>Masks and tests\<close>

definition upd_mask :: "(mask_state_t \<Rightarrow> mask_state_t) \<Rightarrow> context_t \<Rightarrow> context_t" where
  "upd_mask f = upd_state (\<lambda>s. s\<lparr>mask_state := f (mask_state s)\<rparr>)"

definition ggl_colorMask :: "context_t \<Rightarrow> bool \<Rightarrow> bool \<Rightarrow> bool \<Rightarrow> bool \<Rightarrow> context_t" where
  "ggl_colorMask c r g b a =
     (let m = (if a then 1 else 0) OR (if r then 2 else 0) OR (if g then 4 else 0) OR (if b then 8 else 0) :: u32 in
      if mk_color (mask_state (state c)) \<noteq> m
      then ggl_state_changed (upd_mask (\<lambda>k. k\<lparr>mk_color := m\<rparr>) c) GGL_PIXEL_PIPELINE_STATE else c)"

text \<open>\<^verbatim>\<open>c->state.mask.depth != flag?1:0\<close> is \<^verbatim>\<open>(c->state.mask.depth != flag)?1:0\<close>.\<close>

definition ggl_depthMask :: "context_t \<Rightarrow> nat \<Rightarrow> context_t" where
  "ggl_depthMask c flag =
     (if mk_depth (mask_state (state c)) \<noteq> flag
      then ggl_state_changed (upd_mask (\<lambda>k. k\<lparr>mk_depth := (if flag \<noteq> 0 then 1 else 0)\<rparr>) c) GGL_PIXEL_PIPELINE_STATE
      else c)"

definition ggl_stencilMask :: "context_t \<Rightarrow> u32 \<Rightarrow> context_t" where
  "ggl_stencilMask c m =
     (if mk_stencil (mask_state (state c)) \<noteq> m
      then ggl_state_changed (upd_mask (\<lambda>k. k\<lparr>mk_stencil := m\<rparr>) c) GGL_PIXEL_PIPELINE_STATE else c)"

definition ggl_alphaFuncx :: "context_t \<Rightarrow> nat \<Rightarrow> int \<Rightarrow> context_t" where
  "ggl_alphaFuncx c func r =
     (if func < GGL_NEVER \<or> func > GGL_ALWAYS then ggl_error c GL_INVALID_ENUM
      else
        let c = upd_state (\<lambda>s. s\<lparr>alpha_ref := gglFixedToIteratedColor (gglClampx r)\<rparr>) c in
        if alpha_func (state c) \<noteq> func
        then ggl_state_changed (upd_state (\<lambda>s. s\<lparr>alpha_func := func\<rparr>) c) GGL_PIXEL_PIPELINE_STATE else c)"

definition ggl_depthFunc :: "context_t \<Rightarrow> nat \<Rightarrow> context_t" where
  "ggl_depthFunc c func =
     (if func < GGL_NEVER \<or> func > GGL_ALWAYS then ggl_error c GL_INVALID_ENUM
      else if depth_func (state c) \<noteq> func
      then ggl_state_changed (upd_state (\<lambda>s. s\<lparr>depth_func := func\<rparr>) c) GGL_PIXEL_PIPELINE_STATE else c)"

definition ggl_logicOp :: "context_t \<Rightarrow> nat \<Rightarrow> context_t" where
  "ggl_logicOp c opcode =
     (if opcode < GGL_CLEAR \<or> opcode > GGL_SET then ggl_error c GL_INVALID_ENUM
      else if logic_opcode (state c) \<noteq> opcode
      then ggl_state_changed (upd_state (\<lambda>s. s\<lparr>logic_opcode := opcode\<rparr>) c) GGL_PIXEL_PIPELINE_STATE else c)"

subsection \<open>Initialisation\<close>

definition gDitherMatrix :: "nat list" where
  "gDitherMatrix =
    [0, 32, 8, 40, 2, 34, 10, 42, 48, 16, 56, 24, 50, 18, 58, 26, 12, 44, 4, 36, 14, 46, 6, 38,
     60, 28, 52, 20, 62, 30, 54, 22, 3, 35, 11, 43, 1, 33, 9, 41, 51, 19, 59, 27, 49, 17, 57, 25,
     15, 47, 7, 39, 13, 45, 5, 37, 63, 31, 55, 23, 61, 29, 53, 21]"

definition ggl_init_trap :: "context_t \<Rightarrow> context_t" where
  "ggl_init_trap c = ggl_state_changed c (GGL_PIXEL_PIPELINE_STATE OR GGL_TMU_STATE OR GGL_CB_STATE)"

definition ggl_init_scanline :: "context_t \<Rightarrow> context_t" where
  "ggl_init_scanline c = c\<lparr>init_y_ptr := Init_y, step_y_ptr := Step_y_generic, scanline_ptr := Scanline\<rparr>"

text \<open>\<^verbatim>\<open>ggl_init_procs\<close> fills the table whose procedures the definitions above are; of the state it
  changes what \<^verbatim>\<open>ggl_init_clear\<close> does. \<^verbatim>\<open>ggl_init_picker\<close> is empty, \<^verbatim>\<open>ggl_init_raster\<close> fills the table.\<close>

definition ggl_init_context :: "(int \<Rightarrow> u8) \<Rightarrow> context_t" where
  "ggl_init_context m =
     (let c = ggl_init_texture (ggl_init_scanline (ggl_init_trap (ggl_init_clear (context_zero m))));
          c = upd_state (\<lambda>s. s\<lparr>
            blend := (blend s)\<lparr>bl_src := 1, bl_dst := 0, bl_src_alpha := 1, bl_dst_alpha := 0\<rparr>,
            mask_state := \<lparr>mk_color = 0xF, mk_depth = 0, mk_stencil = 0xFFFFFFFF\<rparr>,
            logic_opcode := GGL_COPY, alpha_func := GGL_ALWAYS, depth_func := GGL_LESS, depth_clearValue := FIXED_ONE\<rparr>) c
      in upd_shade (\<lambda>s. s\<lparr>sh_w0 := FIXED_ONE\<rparr>) c\<lparr>ditherMatrix := gDitherMatrix\<rparr>)"

definition gglInit :: "(nat \<Rightarrow> bool) \<Rightarrow> nat \<Rightarrow> (int \<Rightarrow> u8) \<Rightarrow> int \<times> context_t option" where
  "gglInit al sz m = (if al (sz + 32) then (0, Some (ggl_init_context m)) else (- 1, None))"

lemmas [ctx_defs] = set_flag_def upd_scissor_def upd_buffers_def upd_shade_def upd_mask_def blend_changed_def active_tx_def

end
