(* ===== verification/GGLPicker.thy ===== *)
theory GGLPicker
  imports GGLState
begin

text \<open>
  Validation: \<^verbatim>\<open>libpixelflinger/picker.cpp\<close>, the scanline selection of
  \<^verbatim>\<open>libpixelflinger/scanline.cpp\<close> and the validating procedures of \<^verbatim>\<open>libpixelflinger/trap.cpp\<close>.
  The needs words are a digest of the state the pixel pipeline depends on; \<^verbatim>\<open>ggl_pick\<close> recomputes the
  parts the dirty flags name and, when they changed, selects the surface accessors and the scanline
  function again.
\<close>

subsection \<open>Needs\<close>

abbreviation flag01 :: "bool \<Rightarrow> nat" where "flag01 b \<equiv> (if b then 1 else 0)"

text \<open>A blend factor on the destination's alpha is one when the buffer has no alpha.\<close>

definition no_alpha_factor :: "bool \<Rightarrow> nat \<Rightarrow> nat" where
  "no_alpha_factor has_alpha f =
     (if \<not> has_alpha \<and> (f = GGL_ONE_MINUS_DST_ALPHA \<or> f = GGL_DST_ALPHA) then 1 else f)"

definition blend_needs :: "state_t \<Rightarrow> u32" where
  "blend_needs s =
     (if has_flag (enables s) GGL_ENABLE_BLENDING then
        let ha = fm_h (the_format (sf_format (fb_color (buffers s)))) 0 \<noteq> 0;
            src = ggl_blendfactor_to_needs (no_alpha_factor ha (bl_src (blend s)));
            dst = ggl_blendfactor_to_needs (no_alpha_factor ha (bl_dst (blend s)));
            src_alpha = ggl_blendfactor_to_needs (no_alpha_factor ha (bl_src_alpha (blend s)));
            dst_alpha = ggl_blendfactor_to_needs (no_alpha_factor ha (bl_dst_alpha (blend s)));
            n = GGL_BUILD_NEEDS src BLEND_SRC OR GGL_BUILD_NEEDS dst BLEND_DST
        in if bl_alpha_separate (blend s)
           then n OR GGL_BUILD_NEEDS src_alpha BLEND_SRCA OR GGL_BUILD_NEEDS dst_alpha BLEND_DSTA
           else n OR GGL_BUILD_NEEDS src BLEND_SRCA OR GGL_BUILD_NEEDS dst BLEND_DSTA
      else GGL_BUILD_NEEDS 1 BLEND_SRC OR GGL_BUILD_NEEDS 0 BLEND_DST OR
           GGL_BUILD_NEEDS 1 BLEND_SRCA OR GGL_BUILD_NEEDS 0 BLEND_DSTA)"

definition pick_needs_n :: "state_t \<Rightarrow> u32" where
  "pick_needs_n s =
     GGL_BUILD_NEEDS (sf_format (fb_color (buffers s))) CB_FORMAT OR blend_needs s OR
     GGL_BUILD_NEEDS (unat (mk_color (mask_state s) XOR 0xF)) MASK_ARGB OR
     GGL_BUILD_NEEDS (flag01 (has_flag (enables s) GGL_ENABLE_SMOOTH)) SHADE OR
     (if has_flag (enables s) GGL_ENABLE_TMUS then GGL_BUILD_NEEDS (flag01 (has_flag (enables s) GGL_ENABLE_W)) W else 0) OR
     (if has_flag (enables s) GGL_ENABLE_LOGIC_OP then GGL_BUILD_NEEDS (logic_opcode s) LOGIC_OP
      else GGL_BUILD_NEEDS GGL_COPY LOGIC_OP)"

definition pick_needs_p :: "state_t \<Rightarrow> u32" where
  "pick_needs_p s =
     GGL_BUILD_NEEDS (flag01 (has_flag (enables s) GGL_ENABLE_DITHER)) P_DITHER OR
     GGL_BUILD_NEEDS (flag01 (has_flag (enables s) GGL_ENABLE_AA)) P_AA OR
     GGL_BUILD_NEEDS (flag01 (has_flag (enables s) GGL_ENABLE_FOG)) P_FOG OR
     (if has_flag (enables s) GGL_ENABLE_ALPHA_TEST then GGL_BUILD_NEEDS (alpha_func s) P_ALPHA_TEST
      else GGL_BUILD_NEEDS GGL_ALWAYS P_ALPHA_TEST) OR
     (if has_flag (enables s) GGL_ENABLE_DEPTH_TEST
      then GGL_BUILD_NEEDS (depth_func s) P_DEPTH_TEST OR GGL_BUILD_NEEDS (mk_depth (mask_state s) mod 2) P_MASK_Z
      else GGL_BUILD_NEEDS GGL_ALWAYS P_DEPTH_TEST)"

definition texture_needs :: "texture_t \<Rightarrow> u32" where
  "texture_needs tx =
     GGL_BUILD_NEEDS (sf_format (tx_surface tx)) T_FORMAT OR GGL_BUILD_NEEDS (ggl_env_to_needs (tx_env tx)) T_ENV OR
     GGL_BUILD_NEEDS 0 T_POT OR
     (if tx_s_coord tx = GGL_ONE_TO_ONE \<and> tx_t_coord tx = GGL_ONE_TO_ONE
      then GGL_BUILD_NEEDS GGL_NEEDS_WRAP_11 T_S_WRAP OR GGL_BUILD_NEEDS GGL_NEEDS_WRAP_11 T_T_WRAP
      else GGL_BUILD_NEEDS (ggl_wrap_to_needs (tx_s_wrap tx)) T_S_WRAP OR
           GGL_BUILD_NEEDS (ggl_wrap_to_needs (tx_t_wrap tx)) T_T_WRAP) OR
     (if tx_mag_filter tx = GGL_LINEAR then GGL_BUILD_NEEDS 1 T_LINEAR else 0) OR
     (if tx_min_filter tx = GGL_LINEAR then GGL_BUILD_NEEDS 1 T_LINEAR else 0)"

text \<open>The loop over the units: an enabled unit is stored at \<^verbatim>\<open>idx++\<close>, a disabled one clears its own slot.\<close>

fun pick_needs_t :: "texture_t list \<Rightarrow> nat \<Rightarrow> nat \<Rightarrow> u32 list \<Rightarrow> u32 list" where
  "pick_needs_t [] i idx t = t"
| "pick_needs_t (tx # txs) i idx t =
     (if tx_enable tx then pick_needs_t txs (Suc i) (Suc idx) (t[idx := texture_needs tx])
      else pick_needs_t txs (Suc i) idx (t[i := 0]))"

subsection \<open>The scanline selection\<close>

definition mk_filter :: "u32 \<Rightarrow> u32 \<Rightarrow> u32 \<Rightarrow> u32 \<Rightarrow> u32 \<Rightarrow> u32 \<Rightarrow> u32 \<Rightarrow> u32 \<Rightarrow> needs_filter_t" where
  "mk_filter n p t0 t1 mn mp mt0 mt1 =
     \<lparr>nf_value = \<lparr>nd_n = n, nd_p = p, nd_t = [t0, t1]\<rparr>, nf_mask = \<lparr>nd_n = mn, nd_p = mp, nd_t = [mt0, mt1]\<rparr>\<rparr>"

text \<open>The filters of the specialised 565 pipelines differ in three words only.\<close>

definition filter565 :: "u32 \<Rightarrow> u32 \<Rightarrow> u32 \<Rightarrow> needs_filter_t" where
  "filter565 n p t0 = mk_filter n p t0 0 0xFFFFFFFF 0xFFFFFFFF 0xFFFFFFFF 0x3F"

definition shortcuts :: "(needs_filter_t \<times> scanline_proc \<times> init_y_proc) list" where
  "shortcuts =
    [(filter565 0x03515104 0x77 0xA01, Scanline_t32cb16blend, Init_y_noop),
     (filter565 0x03010104 0x77 0xA01, Scanline_t32cb16, Init_y_noop),
     (filter565 0x03515104 0x177 0xA01, Scanline_t32cb16blend_dither, Init_y_noop),
     (filter565 0x03010104 0x177 0xA01, Scanline_t32cb16_dither, Init_y_noop),
     (mk_filter 0x03545404 0x77 0xA01 0 0xFFFFFFFF 0xFFFFFEFF 0xFFFFFFFF 0x3F, Scanline_t32cb16blend_srca, Init_y_noop),
     (filter565 0x03515104 0x77 0x1, Scanline_t32cb16blend_clamp, Init_y),
     (filter565 0x03515104 0x177 0x1, Scanline_t32cb16blend_clamp_dither, Init_y),
     (filter565 0x03515104 0x77 0x1001, Scanline_t32cb16blend_clamp_mod, Init_y),
     (filter565 0x03515104 0x77 0x1002, Scanline_x32cb16blend_clamp_mod, Init_y),
     (filter565 0x03515104 0x177 0x1001, Scanline_t32cb16blend_clamp_mod_dither, Init_y),
     (filter565 0x03515104 0x177 0x1002, Scanline_x32cb16blend_clamp_mod_dither, Init_y),
     (filter565 0x03010104 0x77 0x1, Scanline_t32cb16_clamp, Init_y),
     (filter565 0x03010104 0x77 0x2, Scanline_t32cb16_clamp, Init_y),
     (filter565 0x03010104 0x177 0x1, Scanline_t32cb16_clamp_dither, Init_y),
     (filter565 0x03010104 0x177 0x2, Scanline_t32cb16_clamp_dither, Init_y),
     (filter565 0x03010104 0x77 0x4, Scanline_t16cb16_clamp, Init_y),
     (filter565 0x03515104 0x77 0x1004, Scanline_t16cb16blend_clamp_mod, Init_y),
     (mk_filter 0x03515104 0x77 0 0 0xFFFFFFFF 0xFFFFFFFF 0xFFFFFFFF 0xFFFFFFFF, Scanline_col32cb16blend, Init_y_packed),
     (mk_filter 0 0 0 0 0 0x7 0 0, Scanline_noop, Init_y_noop),
     (mk_filter 0 0 0 0 0 0x70 0 0, Scanline_noop, Init_y_noop),
     (mk_filter 0x05000000 0 0 0 0x0F000000 0x80 0 0, Scanline_noop, Init_y_noop),
     (mk_filter 0xF0000000 0 0 0 0xF0000000 0x80 0 0, Scanline_noop, Init_y_noop),
     (mk_filter 0x0F000000 0x77 0 0 0xFF000000 0xF7 0 0, Scanline_set, Init_y_noop),
     (mk_filter 0 0x77 0 0 0xFF000000 0xF7 0 0, Scanline_clear, Init_y_noop),
     (mk_filter 0x03000000 0x77 0 0 0xFFFFFF00 0xF7 0 0, Scanline_clear, Init_y_noop),
     (mk_filter 0 0 0 0 0x3F 0 0 0, Scanline_noop, Init_y_error)]"

definition noblend1to1 :: needs_filter_t where
  "noblend1to1 = mk_filter 0x03010100 0x77 0xA00 0 0xFFFFFFC0 0xFFFFFEFF 0xFFFFFFC0 0x3F"

definition fill16noblend :: needs_filter_t where
  "fill16noblend = mk_filter 0x03010100 0x77 0 0 0xFFFFFFC0 0xFFFFFFFF 0x3F 0x3F"

text \<open>The selection as a function of the needs: the scanline function, the initialiser and whether the
  stepper is reset too.\<close>

definition pick_shortcut :: "needs_t \<Rightarrow> scanline_proc \<times> init_y_proc \<times> bool" where
  "pick_shortcut nd =
     (let cb = GGL_READ_NEEDS CB_FORMAT (nd_n nd); t0 = GGL_READ_NEEDS T_FORMAT (nd_t nd ! 0) in
      if t0 = cb \<and> needs_match nd noblend1to1 \<and>
         fm_components (the_format t0) \<in> {GGL_RGB, GGL_RGBA, GGL_LUMINANCE, GGL_LUMINANCE_ALPHA}
      then (Scanline_memcpy, Init_y_noop, False)
      else if needs_match nd fill16noblend \<and> fm_size (the_format cb) = 1 then (Scanline_memset8, Init_y_packed, False)
      else if needs_match nd fill16noblend \<and> fm_size (the_format cb) = 2 then (Scanline_memset16, Init_y_packed, False)
      else if needs_match nd fill16noblend \<and> fm_size (the_format cb) = 4 then (Scanline_memset32, Init_y_packed, False)
      else case find (\<lambda>(f, _). needs_match nd f) shortcuts of
        Some (_, sl, iy) \<Rightarrow> (sl, iy, False)
      | None \<Rightarrow> (Scanline, Init_y, True))"

definition pick_scanline :: "context_t \<Rightarrow> context_t" where
  "pick_scanline c =
     (let (sl, iy, generic) = pick_shortcut (needs (state c));
          c = c\<lparr>scanline_ptr := sl, init_y_ptr := iy\<rparr>
      in if generic then c\<lparr>step_y_ptr := Step_y_generic\<rparr> else c)"

definition ggl_pick_scanline :: "context_t \<Rightarrow> context_t" where
  "ggl_pick_scanline c =
     (let c = pick_scanline c; s = state c in
      if has_flag (enables s) GGL_ENABLE_W \<and> has_flag (enables s) GGL_ENABLE_TMUS then
        c\<lparr>span_ptr := scanline_ptr c,
          scanline_ptr := (if enabled_tmu s AND (enabled_tmu s - 1) = 0 then Scanline_perspective_single else Scanline_perspective)\<rparr>
      else c)"

subsection \<open>Validation\<close>

definition new_needs :: "state_t \<Rightarrow> u32 \<Rightarrow> needs_t" where
  "new_needs s d =
     (let nd = needs s;
          nd = (if has_flag d GGL_CB_STATE
                then nd\<lparr>nd_n := (nd_n nd AND NOT (NEEDS_MASK CB_FORMAT)) OR GGL_BUILD_NEEDS (sf_format (fb_color (buffers s))) CB_FORMAT\<rparr>
                else nd);
          d = (if has_flag d GGL_CB_STATE \<and> has_flag (enables s) GGL_ENABLE_BLENDING then d OR GGL_PIXEL_PIPELINE_STATE else d);
          nd = (if has_flag d GGL_PIXEL_PIPELINE_STATE then nd\<lparr>nd_n := pick_needs_n s, nd_p := pick_needs_p s\<rparr> else nd)
      in if has_flag d GGL_TMU_STATE then nd\<lparr>nd_t := pick_needs_t (texture s) 0 0 (nd_t nd)\<rparr> else nd)"

definition ggl_pick :: "context_t \<Rightarrow> context_t" where
  "ggl_pick c =
     (if dirty c = 0 then c
      else
        let nd = new_needs (state c) (dirty c);
            c = (if nd \<noteq> needs (state c)
                 then ggl_pick_scanline (ggl_pick_cb (ggl_pick_texture (upd_state (\<lambda>s. s\<lparr>needs := nd\<rparr>) c)))
                 else c)
        in c\<lparr>dirty := 0\<rparr>)"

text \<open>The selection part of the validating procedures.\<close>

definition needs_aa :: "context_t \<Rightarrow> bool" where
  "needs_aa c = has_flag (nd_p (needs (state c))) (NEEDS_MASK P_AA)"

definition pointx_validate :: "context_t \<Rightarrow> context_t" where
  "pointx_validate c =
     (let c = ggl_pick c in
      c\<lparr>procs := (procs c)\<lparr>pr_pointx :=
        (if needs_aa c then (if has_flag (enables (state c)) GGL_ENABLE_POINT_AA_NICE then aa_nice_pointx_proc else aa_pointx_proc)
         else pointx_proc)\<rparr>\<rparr>)"

definition linex_validate :: "context_t \<Rightarrow> context_t" where
  "linex_validate c =
     (let c = ggl_pick c in
      c\<lparr>procs := (procs c)\<lparr>pr_linex := (if needs_aa c then aa_linex_proc else linex_proc)\<rparr>\<rparr>)"

definition recti_validate :: "context_t \<Rightarrow> context_t" where
  "recti_validate c = (let c = ggl_pick c in c\<lparr>procs := (procs c)\<lparr>pr_recti := recti_proc\<rparr>\<rparr>)"

definition trianglex_validate :: "context_t \<Rightarrow> context_t" where
  "trianglex_validate c =
     (let c = ggl_pick c in
      c\<lparr>procs := (procs c)\<lparr>pr_trianglex := (if needs_aa c then aa_trianglex_proc else trianglex_big_proc)\<rparr>\<rparr>)"

end
