(* ===== verification/GGLMachine.thy ===== *)
theory GGLMachine
  imports GGLPicker
begin

text \<open>
  The rasterizer context as a state machine: the calls of the context's table as one step function,
  the contexts reachable from \<^verbatim>\<open>gglInit\<close>, and the invariants the drawing code relies on. The
  dirty-flag discipline is the important one: no procedure other than a validating one is in place
  while the needs words do not describe the state.
\<close>

subsection \<open>Calls\<close>

datatype ggl_call =
    Scissor int int int int | ActiveTexture nat | BindTexture GGLSurface | BindTextureLod nat GGLSurface
  | ColorBuffer GGLSurface | ReadBuffer GGLSurface | DepthBuffer GGLSurface | EnableDisable nat nat
  | ShadeModel nat | Color4xv "int list" | ColorGrad12xv "int list" | ZGrad3xv "int list" | WGrad3xv "int list"
  | FogGrad3xv "int list" | FogColor3xv "int list" | BlendFunc nat nat | BlendFuncSeparate nat nat nat nat
  | TexEnvi nat nat nat | TexEnvxv nat nat "int list" | TexParameteri nat nat nat | TexCoord2x int int | TexCoord2i int int
  | TexCoordGradScale8xv nat "int list" | TexGeni nat nat nat | ColorMask bool bool bool bool | DepthMask nat
  | StencilMask u32 | AlphaFuncx nat int | DepthFunc nat | LogicOp nat
  | ClearColorx int int int int | ClearDepthx int | ClearStencil int
  | ValidatePoint | ValidateLine | ValidateRect | ValidateTriangle

fun ggl_exec :: "(nat \<Rightarrow> bool) \<Rightarrow> context_t \<Rightarrow> ggl_call \<Rightarrow> context_t" where
  "ggl_exec al c (Scissor x y w h) = ggl_scissor c x y w h"
| "ggl_exec al c (ActiveTexture t) = ggl_activeTexture c t"
| "ggl_exec al c (BindTexture s) = ggl_bindTexture c s"
| "ggl_exec al c (BindTextureLod t s) = ggl_bindTextureLod c t s"
| "ggl_exec al c (ColorBuffer s) = ggl_colorBuffer al c s"
| "ggl_exec al c (ReadBuffer s) = ggl_readBuffer c s"
| "ggl_exec al c (DepthBuffer s) = ggl_depthBuffer c s"
| "ggl_exec al c (EnableDisable name en) = ggl_enableDisable c name en"
| "ggl_exec al c (ShadeModel m) = ggl_shadeModel c m"
| "ggl_exec al c (Color4xv v) = ggl_color4xv c v"
| "ggl_exec al c (ColorGrad12xv v) = ggl_colorGrad12xv c v"
| "ggl_exec al c (ZGrad3xv v) = ggl_zGrad3xv c v"
| "ggl_exec al c (WGrad3xv v) = ggl_wGrad3xv c v"
| "ggl_exec al c (FogGrad3xv v) = ggl_fogGrad3xv c v"
| "ggl_exec al c (FogColor3xv v) = ggl_fogColor3xv c v"
| "ggl_exec al c (BlendFunc s d) = ggl_blendFunc c s d"
| "ggl_exec al c (BlendFuncSeparate s d sa da) = ggl_blendFuncSeparate c s d sa da"
| "ggl_exec al c (TexEnvi t p v) = ggl_texEnvi c t p v"
| "ggl_exec al c (TexEnvxv t p v) = ggl_texEnvxv c t p v"
| "ggl_exec al c (TexParameteri t p v) = ggl_texParameteri c t p v"
| "ggl_exec al c (TexCoord2x s t) = ggl_texCoord2x c s t"
| "ggl_exec al c (TexCoord2i s t) = ggl_texCoord2i c s t"
| "ggl_exec al c (TexCoordGradScale8xv t v) = ggl_texCoordGradScale8xv c t v"
| "ggl_exec al c (TexGeni co p v) = ggl_texGeni c co p v"
| "ggl_exec al c (ColorMask r g b a) = ggl_colorMask c r g b a"
| "ggl_exec al c (DepthMask f) = ggl_depthMask c f"
| "ggl_exec al c (StencilMask m) = ggl_stencilMask c m"
| "ggl_exec al c (AlphaFuncx f r) = ggl_alphaFuncx c f r"
| "ggl_exec al c (DepthFunc f) = ggl_depthFunc c f"
| "ggl_exec al c (LogicOp o') = ggl_logicOp c o'"
| "ggl_exec al c (ClearColorx r g b a) = ggl_clearColorx c r g b a"
| "ggl_exec al c (ClearDepthx d) = ggl_clearDepthx c d"
| "ggl_exec al c (ClearStencil s) = ggl_clearStencil c s"
| "ggl_exec al c ValidatePoint = pointx_validate c"
| "ggl_exec al c ValidateLine = linex_validate c"
| "ggl_exec al c ValidateRect = recti_validate c"
| "ggl_exec al c ValidateTriangle = trianglex_validate c"

text \<open>What a caller owes: the unit of an indexed call exists, and a level of detail has the format of
  the texture bound to the unit (the code's comment).\<close>

fun call_ok :: "context_t \<Rightarrow> ggl_call \<Rightarrow> bool" where
  "call_ok c (BindTextureLod t s) \<longleftrightarrow> t < 2 \<and> gs_format s = sf_format (tx_surface (texture (state c) ! t))"
| "call_ok c (TexCoordGradScale8xv t v) \<longleftrightarrow> t < 2"
| "call_ok c _ \<longleftrightarrow> True"

inductive ggl_reachable :: "(nat \<Rightarrow> bool) \<Rightarrow> context_t \<Rightarrow> bool" for al where
  init: "ggl_reachable al (ggl_init_context m)"
| step: "ggl_reachable al c \<Longrightarrow> call_ok c k \<Longrightarrow> ggl_reachable al (ggl_exec al c k)"

inductive_cases ggl_reachableE: "ggl_reachable al c"

subsection \<open>Bits of the flags\<close>

lemma has_flag_bits [simp]:
  "has_flag w 0x1 \<longleftrightarrow> bit w 0" "has_flag w 0x2 \<longleftrightarrow> bit w 1" "has_flag w 0x4 \<longleftrightarrow> bit w 2" "has_flag w 0x8 \<longleftrightarrow> bit w 3"
  "has_flag w 0x10 \<longleftrightarrow> bit w 4" "has_flag w 0x20 \<longleftrightarrow> bit w 5" "has_flag w 0x40 \<longleftrightarrow> bit w 6" "has_flag w 0x80 \<longleftrightarrow> bit w 7"
  "has_flag w 0x200 \<longleftrightarrow> bit w 9" "has_flag w 0x400 \<longleftrightarrow> bit w 10" "has_flag w 0x800 \<longleftrightarrow> bit w 11" "has_flag w 0x1000 \<longleftrightarrow> bit w 12"
  using has_flag_pow [of w 0] has_flag_pow [of w 1] has_flag_pow [of w 2] has_flag_pow [of w 3] has_flag_pow [of w 4]
    has_flag_pow [of w 5] has_flag_pow [of w 6] has_flag_pow [of w 7] has_flag_pow [of w 9] has_flag_pow [of w 10]
    has_flag_pow [of w 11] has_flag_pow [of w 12] by simp_all

lemma bit_u32_not: "n < 32 \<Longrightarrow> bit (NOT w :: u32) n \<longleftrightarrow> \<not> bit w n"
  by (simp add: bit_not_iff)

lemma set_flag_enables:
  "state (set_flag f en c) = (state c)\<lparr>enables := (if en then enables (state c) OR f else enables (state c) AND NOT f)\<rparr>"
  "dirty (set_flag f en c) = dirty c" "procs (set_flag f en c) = procs c"
  by (simp_all add: ctx_defs)

subsection \<open>Tracking of the pipeline state\<close>

text \<open>The needs outside the format and the \<^verbatim>\<open>W\<close> field.\<close>

definition needs_rest :: "state_t \<Rightarrow> u32" where
  "needs_rest s =
     blend_needs s OR GGL_BUILD_NEEDS (unat (mk_color (mask_state s) XOR 0xF)) MASK_ARGB OR
     GGL_BUILD_NEEDS (flag01 (has_flag (enables s) GGL_ENABLE_SMOOTH)) SHADE OR
     (if has_flag (enables s) GGL_ENABLE_LOGIC_OP then GGL_BUILD_NEEDS (logic_opcode s) LOGIC_OP
      else GGL_BUILD_NEEDS GGL_COPY LOGIC_OP)"

abbreviation cb_format :: "state_t \<Rightarrow> nat" where "cb_format s \<equiv> sf_format (fb_color (buffers s))"
abbreviation blending_on :: "state_t \<Rightarrow> bool" where "blending_on s \<equiv> bit (enables s) 0"

definition unit_views :: "state_t \<Rightarrow> (bool \<times> u32) list" where
  "unit_views s = map (\<lambda>t. (tx_enable t, texture_needs t)) (texture s)"

definition FW_mask :: u32 where "FW_mask = NEEDS_MASK CB_FORMAT OR NEEDS_MASK W"

text \<open>The needs describe the state, up to the parts that are dirty and the \<^verbatim>\<open>W\<close> field.\<close>

definition in_sync :: "context_t \<Rightarrow> bool" where
  "in_sync c \<longleftrightarrow>
     (\<not> bit (dirty c) 2 \<longrightarrow> nd_p (needs (state c)) = pick_needs_p (state c)) \<and>
     (\<not> bit (dirty c) 2 \<and> (\<not> bit (dirty c) 1 \<or> \<not> blending_on (state c)) \<longrightarrow>
        nd_n (needs (state c)) AND NOT FW_mask = needs_rest (state c)) \<and>
     (\<not> bit (dirty c) 1 \<and> \<not> bit (dirty c) 2 \<longrightarrow>
        nd_n (needs (state c)) AND NEEDS_MASK CB_FORMAT = GGL_BUILD_NEEDS (cb_format (state c)) CB_FORMAT) \<and>
     (\<not> bit (dirty c) 0 \<longrightarrow> pick_needs_t (texture (state c)) 0 0 (nd_t (needs (state c))) = nd_t (needs (state c)))"

text \<open>A change of the context that reports what it changes.\<close>

definition tracked :: "context_t \<Rightarrow> context_t \<Rightarrow> bool" where
  "tracked c c' \<longleftrightarrow>
     needs (state c') = needs (state c) \<and> (\<forall>k. bit (dirty c) k \<longrightarrow> bit (dirty c') k) \<and>
     (bit (dirty c') 2 \<or> pick_needs_p (state c') = pick_needs_p (state c) \<and> blending_on (state c') = blending_on (state c)) \<and>
     (bit (dirty c') 2 \<or> bit (dirty c') 1 \<and> blending_on (state c') \<or> needs_rest (state c') = needs_rest (state c)) \<and>
     (bit (dirty c') 1 \<or> cb_format (state c') = cb_format (state c)) \<and>
     (bit (dirty c') 0 \<or> unit_views (state c') = unit_views (state c)) \<and>
     (dirty c' = dirty c \<and> procs c' = procs c \<or> dirty c \<noteq> 0 \<and> procs c' = procs c \<or> procs c' = validate_procs)"

lemma tracked_refl [simp]: "tracked c c"
  by (simp add: tracked_def)

lemma tracked_trans:
  assumes ab: "tracked a b" and bc: "tracked b c"
  shows "tracked a c"
proof -
  note ab = ab [unfolded tracked_def] and bc = bc [unfolded tracked_def]
  note a3 = ab [THEN conjunct2, THEN conjunct2] and b3 = bc [THEN conjunct2, THEN conjunct2]
  note a4 = a3 [THEN conjunct2] and b4 = b3 [THEN conjunct2]
  note a5 = a4 [THEN conjunct2] and b5 = b4 [THEN conjunct2]
  note a6 = a5 [THEN conjunct2] and b6 = b5 [THEN conjunct2]
  have d: "bit (dirty b) k \<longrightarrow> bit (dirty c) k" for k using bc by blast
  show ?thesis
    unfolding tracked_def
  proof (intro conjI allI impI)
    show "needs (state c) = needs (state a)" using ab bc by simp
    show "bit (dirty c) k" if "bit (dirty a) k" for k using ab d that by blast
    show "bit (dirty c) 2 \<or> pick_needs_p (state c) = pick_needs_p (state a) \<and> blending_on (state c) = blending_on (state a)"
      using a3 [THEN conjunct1] b3 [THEN conjunct1] d [of 2] by (elim disjE conjE) simp_all
    show "bit (dirty c) 2 \<or> bit (dirty c) 1 \<and> blending_on (state c) \<or> needs_rest (state c) = needs_rest (state a)"
      using a4 [THEN conjunct1] b4 [THEN conjunct1] b3 [THEN conjunct1] d [of 2] d [of 1] by (elim disjE conjE) simp_all
    show "bit (dirty c) 1 \<or> cb_format (state c) = cb_format (state a)"
      using a5 [THEN conjunct1] b5 [THEN conjunct1] d [of 1] by (elim disjE) simp_all
    show "bit (dirty c) 0 \<or> unit_views (state c) = unit_views (state a)"
      using a6 [THEN conjunct1] b6 [THEN conjunct1] d [of 0] by (elim disjE) simp_all
    show "dirty c = dirty a \<and> procs c = procs a \<or> dirty a \<noteq> 0 \<and> procs c = procs a \<or> procs c = validate_procs"
      using a6 [THEN conjunct2] b6 [THEN conjunct2] by (elim disjE conjE) simp_all
  qed
qed

lemma pick_needs_t_views:
  "map (\<lambda>t. (tx_enable t, texture_needs t)) xs = map (\<lambda>t. (tx_enable t, texture_needs t)) ys \<Longrightarrow>
   pick_needs_t xs i k t = pick_needs_t ys i k t"
proof (induction xs arbitrary: ys i k t)
  case Nil
  then show ?case by simp
next
  case (Cons x xs)
  then show ?case by (cases ys) auto
qed

lemma tracked_sync:
  assumes tr: "tracked c c'" and sy: "in_sync c"
  shows "in_sync c'"
proof -
  note tr = tr [unfolded tracked_def] and sy = sy [unfolded in_sync_def]
  have n: "needs (state c') = needs (state c)" using tr by blast
  have d: "bit (dirty c) k \<longrightarrow> bit (dirty c') k" for k using tr by blast
  have t: "bit (dirty c') 0 \<or> pick_needs_t (texture (state c')) 0 0 v = pick_needs_t (texture (state c)) 0 0 v" for v
    using tr pick_needs_t_views unfolding unit_views_def by blast
  show ?thesis
    unfolding in_sync_def n using tr sy d [of 0] d [of 1] d [of 2] t [of "nd_t (needs (state c))"] by argo
qed

lemma state_changed_simps [simp]:
  "state (ggl_state_changed c f) = state c" "dirty (ggl_state_changed c f) = dirty c OR f"
  "activeTMU (ggl_state_changed c f) = activeTMU c" "activeTMUIndex (ggl_state_changed c f) = activeTMUIndex c"
  "procs (ggl_state_changed c f) = (if dirty c = 0 then validate_procs else procs c)"
  by (simp_all add: ggl_state_changed_def Let_def)

lemma error_simps [simp]:
  "state (ggl_error c e) = state c" "dirty (ggl_error c e) = dirty c" "procs (ggl_error c e) = procs c"
  "activeTMU (ggl_error c e) = activeTMU c" "activeTMUIndex (ggl_error c e) = activeTMUIndex c"
  by (simp_all add: ggl_error_def)

lemma upd_state_simps [simp]:
  "state (upd_state f c) = f (state c)" "dirty (upd_state f c) = dirty c" "procs (upd_state f c) = procs c"
  "activeTMU (upd_state f c) = activeTMU c" "activeTMUIndex (upd_state f c) = activeTMUIndex c"
  by (simp_all add: upd_state_def)

text \<open>Updates of the state reported as a change of the pipeline, of a unit, or of the buffer.\<close>

lemma tracked_pipeline:
  assumes "needs (f (state c)) = needs (state c)" "cb_format (f (state c)) = cb_format (state c)"
    "texture (f (state c)) = texture (state c)"
  shows "tracked c (ggl_state_changed (upd_state f c) GGL_PIXEL_PIPELINE_STATE)"
  using assms by (auto simp: tracked_def unit_views_def bit_simps)

lemma tracked_silent:
  assumes "needs (f (state c)) = needs (state c)" "cb_format (f (state c)) = cb_format (state c)"
    "unit_views (f (state c)) = unit_views (state c)" "pick_needs_p (f (state c)) = pick_needs_p (state c)"
    "needs_rest (f (state c)) = needs_rest (state c)" "blending_on (f (state c)) = blending_on (state c)"
  shows "tracked c (upd_state f c)"
  using assms by (auto simp: tracked_def)

lemma tracked_unit:
  assumes "needs (f (state c)) = needs (state c)" "cb_format (f (state c)) = cb_format (state c)"
    "pick_needs_p (f (state c)) = pick_needs_p (state c)" "needs_rest (f (state c)) = needs_rest (state c)"
    "blending_on (f (state c)) = blending_on (state c)"
  shows "tracked c (ggl_state_changed (upd_state f c) GGL_TMU_STATE)"
  using assms by (auto simp: tracked_def bit_simps)

subsection \<open>Every call is tracked\<close>

lemma pick_needs_p_upd [simp]:
  "pick_needs_p (s\<lparr>buffers := b\<rparr>) = pick_needs_p s" "pick_needs_p (s\<lparr>texture := x\<rparr>) = pick_needs_p s"
  "pick_needs_p (s\<lparr>scissor := sc\<rparr>) = pick_needs_p s" "pick_needs_p (s\<lparr>blend := bl\<rparr>) = pick_needs_p s"
  "pick_needs_p (s\<lparr>alpha_ref := r\<rparr>) = pick_needs_p s" "pick_needs_p (s\<lparr>clear_state := cl\<rparr>) = pick_needs_p s"
  "pick_needs_p (s\<lparr>fog_color := fc\<rparr>) = pick_needs_p s" "pick_needs_p (s\<lparr>needs := nd\<rparr>) = pick_needs_p s"
  "pick_needs_p (s\<lparr>enabled_tmu := et\<rparr>) = pick_needs_p s" "pick_needs_p (s\<lparr>logic_opcode := lo\<rparr>) = pick_needs_p s"
  by (simp_all add: pick_needs_p_def)

lemma needs_rest_upd [simp]:
  "needs_rest (s\<lparr>texture := x\<rparr>) = needs_rest s" "needs_rest (s\<lparr>scissor := sc\<rparr>) = needs_rest s"
  "needs_rest (s\<lparr>alpha_ref := r\<rparr>) = needs_rest s" "needs_rest (s\<lparr>clear_state := cl\<rparr>) = needs_rest s"
  "needs_rest (s\<lparr>fog_color := fc\<rparr>) = needs_rest s" "needs_rest (s\<lparr>needs := nd\<rparr>) = needs_rest s"
  "needs_rest (s\<lparr>enabled_tmu := et\<rparr>) = needs_rest s" "needs_rest (s\<lparr>alpha_func := af\<rparr>) = needs_rest s"
  "needs_rest (s\<lparr>depth_func := df\<rparr>) = needs_rest s"
  by (simp_all add: needs_rest_def blend_needs_def)

lemma needs_rest_buffers:
  "sf_format (fb_color b) = cb_format s \<or> \<not> blending_on s \<Longrightarrow> needs_rest (s\<lparr>buffers := b\<rparr>) = needs_rest s"
  by (auto simp: needs_rest_def blend_needs_def)

lemma needs_rest_blend: "\<not> blending_on s \<Longrightarrow> needs_rest (s\<lparr>blend := bl\<rparr>) = needs_rest s"
  by (simp add: needs_rest_def blend_needs_def)

text \<open>The scissor and the texture flag are in no pipeline field but \<^verbatim>\<open>W\<close>.\<close>

lemma enables_upd:
  assumes "\<forall>k \<in> {0, 1, 2, 3, 4, 7, 10, 11}. bit e k = bit (enables s) k"
  shows "pick_needs_p (s\<lparr>enables := e\<rparr>) = pick_needs_p s" "needs_rest (s\<lparr>enables := e\<rparr>) = needs_rest s"
  using assms by (simp_all add: pick_needs_p_def needs_rest_def blend_needs_def)

lemma enable_flag_tracked [simp]: "tracked c (enable_flag f c en)"
  by (simp add: enable_flag_def set_flag_def tracked_pipeline)

lemma set_scissor_tracked [simp]: "tracked c (ggl_set_scissor c)"
  by (auto simp: ggl_set_scissor_def Let_def upd_scissor_def unit_views_def intro!: tracked_silent)

lemma flag_tracked:
  assumes "f \<in> {0x20, 0x40}"
  shows "tracked c (set_flag f en c)"
  unfolding set_flag_def
  by (rule tracked_silent) (use assms in \<open>auto simp: unit_views_def bit_simps intro!: enables_upd\<close>)

lemma enable_scissor_tracked [simp]: "tracked c (ggl_enable_scissor_test c en)"
  unfolding ggl_enable_scissor_test_def
  using tracked_trans [OF flag_tracked [of "0x20" c en] set_scissor_tracked] by simp

lemma enable_texture2d_tracked [simp]: "tracked c (ggl_enable_texture2d c en)"
proof (cases "tx_enable (texture (state c) ! activeTMU c) = en")
  case True
  then show ?thesis by (simp add: ggl_enable_texture2d_def)
next
  case False
  have eq: "ggl_enable_texture2d c en = ggl_state_changed (upd_state (\<lambda>s. 
      let s = s\<lparr>texture := (texture s)[activeTMU c := (texture s ! activeTMU c)\<lparr>tx_enable := en\<rparr>]\<rparr>;
          msk = push_bit (activeTMUIndex c) 1;
          s = s\<lparr>enabled_tmu := (if en then enabled_tmu s OR msk else enabled_tmu s AND NOT msk)\<rparr>
      in s\<lparr>enables := (if enabled_tmu s \<noteq> 0 then enables s OR GGL_ENABLE_TMUS else enables s AND NOT GGL_ENABLE_TMUS)\<rparr>) c) GGL_TMU_STATE"
    using False unfolding ggl_enable_texture2d_def by (simp add: ctx_defs Let_def)
  show ?thesis unfolding eq
    by (rule tracked_unit) (auto simp: Let_def bit_simps enables_upd)
qed

lemma enable_disable_tracked [simp]: "tracked c (enable_disable c name en)"
  unfolding enable_disable_def
  by (simp add: ggl_enable_blending_def ggl_enable_alpha_test_def ggl_enable_logic_op_def ggl_enable_dither_def
      ggl_enable_stencil_test_def ggl_enable_depth_test_def ggl_enable_aa_def ggl_enable_w_lerp_def ggl_enable_fog_def
      ggl_enable_point_aa_nice_def Let_def)

lemma unit_views_upd:
  assumes "tx_enable (f (texture s ! i)) = tx_enable (texture s ! i)" "texture_needs (f (texture s ! i)) = texture_needs (texture s ! i)"
  shows "unit_views (s\<lparr>texture := (texture s)[i := f (texture s ! i)]\<rparr>) = unit_views s"
  using assms by (cases "i < length (texture s)") (simp_all add: unit_views_def map_update list_update_same_conv list_update_beyond)

lemma upd_tmu_tracked:
  assumes "tx_enable (f (texture (state c) ! i)) = tx_enable (texture (state c) ! i)"
    "texture_needs (f (texture (state c) ! i)) = texture_needs (texture (state c) ! i)"
  shows "tracked c (upd_tmu i f c)"
  unfolding upd_tmu_def by (rule tracked_silent) (simp_all add: unit_views_upd assms)

lemma upd_tmu_changed: "tracked c (ggl_state_changed (upd_tmu i f c) GGL_TMU_STATE)"
  unfolding upd_tmu_def by (rule tracked_unit) simp_all

lemma state_changed_tracked: "tracked c (ggl_state_changed c f)"
  by (auto simp: tracked_def bit_or_iff)

lemma set_surface_format [simp]: "sf_format (ggl_set_surface d s) = gs_format s"
  by (simp add: ggl_set_surface_def Let_def)

lemma texture_needs_format:
  "sf_format s = sf_format (tx_surface t) \<Longrightarrow> texture_needs (t\<lparr>tx_surface := s\<rparr>) = texture_needs t"
  by (simp add: texture_needs_def)

lemma upd_shade_tracked [simp]: "tracked c (upd_shade f c)"
  by (simp add: tracked_def upd_shade_def)

lemma error_tracked [simp]: "tracked c (ggl_error c e)"
  by (simp add: tracked_def)

lemma bindTexture_tracked: "tracked c (ggl_bindTexture c s)"
proof (cases "gs_format s = sf_format (tx_surface (texture (state c) ! activeTMU c))")
  case True
  then show ?thesis by (simp add: ggl_bindTexture_def upd_tmu_tracked texture_needs_format)
next
  case False
  have "ggl_bindTexture c s = ggl_state_changed (upd_tmu (activeTMU c) (\<lambda>t. t\<lparr>tx_surface := ggl_set_surface (tx_surface t) s\<rparr>) c) GGL_TMU_STATE"
    using False by (simp add: ggl_bindTexture_def ctx_defs Let_def)
  then show ?thesis by (simp add: upd_tmu_changed)
qed

lemma upd_buffers_tracked:
  assumes "sf_format (fb_color (f (buffers (state c)))) = cb_format (state c)"
  shows "tracked c (upd_buffers f c)"
  unfolding upd_buffers_def by (rule tracked_silent) (use assms in \<open>simp_all add: unit_views_def needs_rest_buffers\<close>)

lemma alloc_coverage_color [simp]: "fb_color (alloc_coverage al w fb) = fb_color fb" "fb_read (alloc_coverage al w fb) = fb_read fb"
  by (simp_all add: alloc_coverage_def Let_def)

lemma color_surface_tracked:
  assumes "gs_format s \<noteq> cb_format (state c) \<longrightarrow> bit (dirty c) 1"
  shows "tracked c (upd_buffers (\<lambda>fb. fb\<lparr>fb_color := ggl_set_surface (fb_color fb) s\<rparr>) c)"
proof (cases "gs_format s = cb_format (state c)")
  case True
  then show ?thesis by (intro upd_buffers_tracked) simp
next
  case False
  have "blending_on (state c) \<or> needs_rest ((state c)\<lparr>buffers := (buffers (state c))
      \<lparr>fb_color := ggl_set_surface (fb_color (buffers (state c))) s\<rparr>\<rparr>) = needs_rest (state c)"
    using needs_rest_buffers by blast
  then show ?thesis using assms False by (auto simp: tracked_def upd_buffers_def unit_views_def)
qed

lemma colorBuffer_tracked: "tracked c (ggl_colorBuffer al c s)"
proof -
  define c1 where "c1 = (if gs_format s \<noteq> cb_format (state c) then ggl_state_changed c GGL_CB_STATE else c)"
  define c2 where "c2 = upd_buffers (alloc_coverage al (gs_width s)) c1"
  define c3 where "c3 = upd_buffers (\<lambda>fb. fb\<lparr>fb_color := ggl_set_surface (fb_color fb) s\<rparr>) c2"
  define c4 where "c4 = (if sf_format (fb_read (buffers (state c3))) = 0
    then upd_buffers (\<lambda>fb. fb\<lparr>fb_read := ggl_set_surface (fb_read fb) s\<rparr>) c3 else c3)"
  have 1: "tracked c c1" by (simp add: c1_def state_changed_tracked)
  have 2: "tracked c1 c2" unfolding c2_def by (rule upd_buffers_tracked) simp
  have d: "gs_format s \<noteq> cb_format (state c2) \<longrightarrow> bit (dirty c2) 1"
    by (simp add: c2_def c1_def upd_buffers_def bit_simps)
  have 3: "tracked c2 c3" unfolding c3_def by (rule color_surface_tracked [OF d])
  have 4: "tracked c3 c4" by (simp add: c4_def upd_buffers_tracked)
  have "ggl_colorBuffer al c s = ggl_set_scissor c4"
    by (simp add: ggl_colorBuffer_def Let_def c1_def c2_def c3_def c4_def)
  then show ?thesis using tracked_trans [OF 1 tracked_trans [OF 2 tracked_trans [OF 3 tracked_trans [OF 4 set_scissor_tracked]]]] by simp
qed

lemma depthBuffer_tracked: "tracked c (ggl_depthBuffer c s)"
proof (cases "gs_format s = GGL_PIXEL_FORMAT_Z_16")
  case True
  then show ?thesis by (simp add: ggl_depthBuffer_def upd_buffers_tracked)
next
  case False
  have "tracked c (upd_buffers (\<lambda>fb. fb\<lparr>fb_depth := (fb_depth fb)\<lparr>sf_format := GGL_PIXEL_FORMAT_NONE\<rparr>\<rparr>) c)"
    by (rule upd_buffers_tracked) simp
  then show ?thesis using False
    by (auto simp: ggl_depthBuffer_def ggl_enable_depth_test_def Let_def intro: tracked_trans)
qed

lemma shadeModel_tracked: "tracked c (ggl_shadeModel c m)"
  by (simp add: ggl_shadeModel_def set_flag_def tracked_pipeline)

lemma blend_tracked: "tracked c (blend_changed (upd_state (\<lambda>s. s\<lparr>blend := b\<rparr>) c))"
  by (auto simp: blend_changed_def unit_views_def needs_rest_blend intro!: tracked_pipeline tracked_silent)

lemma set_tex_param_needs [simp]: "tx_enable (set_tex_param w v t) = tx_enable t"
  by (cases w) simp_all


lemma call_tracked:
  assumes "call_ok c k" "k \<notin> {ValidatePoint, ValidateLine, ValidateRect, ValidateTriangle}"
  shows "tracked c (ggl_exec al c k)"
proof (cases k)
  case (BindTextureLod t s)
  then show ?thesis using assms(1) by (simp add: ggl_bindTextureLod_def upd_tmu_tracked texture_needs_format)
next
  case (Scissor x y w h)
  have "tracked c (upd_scissor f c)" for f by (simp add: upd_scissor_def tracked_silent unit_views_def)
  then show ?thesis using Scissor tracked_trans [OF _ set_scissor_tracked] by (simp add: ggl_scissor_def)
next
  case (TexParameteri t p v)
  then show ?thesis
    by (auto simp: ggl_texParameteri_def Let_def upd_tmu_changed split: option.split)
next
  case (ActiveTexture t)
  then show ?thesis by (simp add: ggl_activeTexture_def tracked_def)
next
  case (AlphaFuncx f r)
  let ?c = "upd_state (\<lambda>s. s\<lparr>alpha_ref := gglFixedToIteratedColor (gglClampx r)\<rparr>) c"
  have "tracked c ?c" by (rule tracked_silent) (simp_all add: unit_views_def)
  moreover have "tracked ?c (ggl_state_changed (upd_state (\<lambda>s. s\<lparr>alpha_func := f\<rparr>) ?c) GGL_PIXEL_PIPELINE_STATE)"
    by (rule tracked_pipeline) simp_all
  ultimately show ?thesis using AlphaFuncx tracked_trans by (auto simp: ggl_alphaFuncx_def Let_def)
qed (use assms(2) in \<open>simp_all add: bindTexture_tracked colorBuffer_tracked ggl_readBuffer_def upd_buffers_tracked
    depthBuffer_tracked ggl_enableDisable_def shadeModel_tracked ggl_color4xv_def ggl_colorGrad12xv_def ggl_zGrad3xv_def
    ggl_wGrad3xv_def ggl_fogGrad3xv_def ggl_fogColor3xv_def tracked_silent unit_views_def ggl_blendFunc_def
    ggl_blendFuncSeparate_def blend_tracked ggl_texEnvi_def ggl_texEnvxv_def upd_tmu_changed upd_tmu_tracked texture_needs_def
    ggl_texCoord2x_def ggl_texCoord2i_def ggl_texCoordGradScale8xv_def ggl_texGeni_def ggl_colorMask_def Let_def upd_mask_def
    tracked_pipeline ggl_depthMask_def ggl_stencilMask_def ggl_depthFunc_def ggl_logicOp_def ggl_clearColorx_def
    ggl_clearDepthx_def ggl_clearStencil_def upd_clear_def\<close>)

subsection \<open>Validation restores the needs\<close>

lemma bit_build: "bit (GGL_BUILD_NEEDS v f) k \<Longrightarrow> fst f \<le> k \<and> k < fst f + snd f"
  by (simp add: GGL_BUILD_NEEDS_def bit_and_iff bit_NEEDS_MASK)

lemma bit_FW_mask: "bit FW_mask k \<longleftrightarrow> k < 6 \<or> k = 7"
  by (auto simp: FW_mask_def bit_or_iff bit_NEEDS_MASK)

lemma bit_needs_rest: "bit (needs_rest s) k \<Longrightarrow> k = 6 \<or> 8 \<le> k"
proof -
  assume b: "bit (needs_rest s) k"
  have bl: "bit (blend_needs s) k \<Longrightarrow> 8 \<le> k"
    by (auto simp: blend_needs_def Let_def bit_or_iff split: if_splits dest!: bit_build)
  show ?thesis using b bl
    by (auto simp: needs_rest_def bit_or_iff split: if_splits dest!: bit_build)
qed

lemma pick_needs_n_split:
  "\<exists>u. pick_needs_n s = GGL_BUILD_NEEDS (cb_format s) CB_FORMAT OR needs_rest s OR GGL_BUILD_NEEDS u W"
proof -
  have z: "GGL_BUILD_NEEDS 0 f = 0" for f by (simp add: GGL_BUILD_NEEDS_def)
  show ?thesis
    by (rule exI [of _ "if has_flag (enables s) GGL_ENABLE_TMUS then flag01 (has_flag (enables s) GGL_ENABLE_W) else 0"])
      (simp add: pick_needs_n_def needs_rest_def z ac_simps)
qed

lemma pick_needs_n_fields:
  "pick_needs_n s AND NOT FW_mask = needs_rest s"
  "pick_needs_n s AND NEEDS_MASK CB_FORMAT = GGL_BUILD_NEEDS (cb_format s) CB_FORMAT"
proof -
  obtain u where u: "pick_needs_n s = GGL_BUILD_NEEDS (cb_format s) CB_FORMAT OR needs_rest s OR GGL_BUILD_NEEDS u W"
    using pick_needs_n_split by blast
  have f: "bit (GGL_BUILD_NEEDS (cb_format s) CB_FORMAT) k \<Longrightarrow> k < 6" for k using bit_build [of _ CB_FORMAT k] by simp
  have w: "bit (GGL_BUILD_NEEDS u W) k \<Longrightarrow> k = 7" for k using bit_build [of u W k] by simp
  show "pick_needs_n s AND NOT FW_mask = needs_rest s"
    by (rule bit_word_eqI) (auto simp: u bit_simps bit_FW_mask dest: f w [simplified] bit_needs_rest)
  show "pick_needs_n s AND NEEDS_MASK CB_FORMAT = GGL_BUILD_NEEDS (cb_format s) CB_FORMAT"
    by (rule bit_word_eqI) (auto simp: u bit_simps bit_NEEDS_MASK dest: f w [simplified] bit_needs_rest)
qed

lemma format_replaced:
  "((n AND NOT (NEEDS_MASK CB_FORMAT)) OR GGL_BUILD_NEEDS v CB_FORMAT) AND NOT FW_mask = n AND NOT FW_mask"
  "((n AND NOT (NEEDS_MASK CB_FORMAT)) OR GGL_BUILD_NEEDS v CB_FORMAT) AND NEEDS_MASK CB_FORMAT = GGL_BUILD_NEEDS v CB_FORMAT"
proof -
  have f: "bit (GGL_BUILD_NEEDS v CB_FORMAT) k \<Longrightarrow> k < 6" for k using bit_build [of _ CB_FORMAT k] by simp
  show "((n AND NOT (NEEDS_MASK CB_FORMAT)) OR GGL_BUILD_NEEDS v CB_FORMAT) AND NOT FW_mask = n AND NOT FW_mask"
    by (rule bit_word_eqI) (auto simp: bit_simps bit_FW_mask bit_NEEDS_MASK dest: f)
  show "((n AND NOT (NEEDS_MASK CB_FORMAT)) OR GGL_BUILD_NEEDS v CB_FORMAT) AND NEEDS_MASK CB_FORMAT = GGL_BUILD_NEEDS v CB_FORMAT"
    by (rule bit_word_eqI) (auto simp: bit_simps bit_NEEDS_MASK dest: f)
qed

lemma pick_needs_t_idem:
  assumes "length xs = 2" "length t = 2"
  shows "pick_needs_t xs 0 0 (pick_needs_t xs 0 0 t) = pick_needs_t xs 0 0 t" "length (pick_needs_t xs 0 0 t) = 2"
proof -
  obtain a b where xs: "xs = [a, b]" using assms(1) by (auto simp: numeral_2_eq_2 length_Suc_conv)
  obtain u v where t: "t = [u, v]" using assms(2) by (auto simp: numeral_2_eq_2 length_Suc_conv)
  show "pick_needs_t xs 0 0 (pick_needs_t xs 0 0 t) = pick_needs_t xs 0 0 t" "length (pick_needs_t xs 0 0 t) = 2"
    by (simp_all add: xs t)
qed

text \<open>What the needs are after a validation.\<close>

definition needs_current :: "state_t \<Rightarrow> needs_t \<Rightarrow> bool" where
  "needs_current s nd \<longleftrightarrow> nd_p nd = pick_needs_p s \<and> nd_n nd AND NOT (NEEDS_MASK W) = pick_needs_n s AND NOT (NEEDS_MASK W) \<and>
     pick_needs_t (texture s) 0 0 (nd_t nd) = nd_t nd"

lemma needs_word_split:
  assumes "n AND NOT FW_mask = n' AND NOT FW_mask" "n AND NEEDS_MASK CB_FORMAT = n' AND NEEDS_MASK CB_FORMAT"
  shows "n AND NOT (NEEDS_MASK W) = n' AND NOT (NEEDS_MASK W)"
proof (rule bit_word_eqI)
  fix k :: nat assume k: "k < LENGTH(32)"
  have 1: "k \<noteq> 7 \<Longrightarrow> 6 \<le> k \<Longrightarrow> bit n k = bit n' k"
    using arg_cong [OF assms(1), of "\<lambda>w. bit w k"] k by (simp add: bit_simps bit_FW_mask)
  have 2: "k < 6 \<Longrightarrow> bit n k = bit n' k"
    using arg_cong [OF assms(2), of "\<lambda>w. bit w k"] k by (simp add: bit_simps bit_NEEDS_MASK)
  show "bit (n AND NOT (NEEDS_MASK W)) k = bit (n' AND NOT (NEEDS_MASK W)) k"
    using 1 2 k by (cases "k < 6") (auto simp: bit_simps bit_NEEDS_MASK)
qed

lemma new_needs_current:
  assumes sy: "in_sync c" and len: "length (texture (state c)) = 2" "length (nd_t (needs (state c))) = 2"
  shows "needs_current (state c) (new_needs (state c) (dirty c))" "length (nd_t (new_needs (state c) (dirty c))) = 2"
proof -
  let ?s = "state c" and ?d = "dirty c"
  note sy = sy [unfolded in_sync_def]
  let ?nd = "new_needs ?s ?d"
  have t: "nd_t ?nd = (if bit ?d 0 then pick_needs_t (texture ?s) 0 0 (nd_t (needs ?s)) else nd_t (needs ?s))"
    by (simp add: new_needs_def Let_def bit_simps)
  let ?pipe = "bit ?d 2 \<or> bit ?d 1 \<and> blending_on ?s"
  have p: "nd_p ?nd = (if ?pipe then pick_needs_p ?s else nd_p (needs ?s))"
    by (simp add: new_needs_def Let_def bit_simps)
  have n: "nd_n ?nd = (if ?pipe then pick_needs_n ?s else if bit ?d 1
      then (nd_n (needs ?s) AND NOT (NEEDS_MASK CB_FORMAT)) OR GGL_BUILD_NEEDS (cb_format ?s) CB_FORMAT else nd_n (needs ?s))"
    by (simp add: new_needs_def Let_def bit_simps)
  show "length (nd_t ?nd) = 2" using pick_needs_t_idem(2) [OF len] len(2) by (simp add: t)
  have "pick_needs_t (texture ?s) 0 0 (nd_t ?nd) = nd_t ?nd"
    using pick_needs_t_idem(1) [OF len] sy by (simp add: t)
  moreover have "nd_p ?nd = pick_needs_p ?s"
  proof (cases ?pipe)
    case False
    then have "\<not> bit ?d 2" by blast
    then show ?thesis unfolding p if_not_P [OF False] using sy by blast
  qed (simp add: p)
  moreover have "nd_n ?nd AND NOT (NEEDS_MASK W) = pick_needs_n ?s AND NOT (NEEDS_MASK W)"
  proof (cases ?pipe)
    case False
    then have rest: "nd_n (needs ?s) AND NOT FW_mask = needs_rest ?s" using sy by blast
    show ?thesis
    proof (rule needs_word_split)
      show "nd_n ?nd AND NOT FW_mask = pick_needs_n ?s AND NOT FW_mask"
        unfolding n if_not_P [OF False] pick_needs_n_fields using rest by (simp add: format_replaced)
      show "nd_n ?nd AND NEEDS_MASK CB_FORMAT = pick_needs_n ?s AND NEEDS_MASK CB_FORMAT"
        unfolding n if_not_P [OF False] pick_needs_n_fields using sy False by (simp add: format_replaced)
    qed
  qed (simp add: n)
  ultimately show "needs_current ?s ?nd" by (simp add: needs_current_def)
qed


text \<open>The accessor and scanline selection changes nothing the needs depend on.\<close>

lemma pick_texture_unit_views:
  "unit_views (state (pick_texture_unit c i)) = unit_views (state c)"
  "(state (pick_texture_unit c i))\<lparr>texture := []\<rparr> = (state c)\<lparr>texture := []\<rparr>"
  "dirty (pick_texture_unit c i) = dirty c" "procs (pick_texture_unit c i) = procs c"
  "activeTMU (pick_texture_unit c i) = activeTMU c" "activeTMUIndex (pick_texture_unit c i) = activeTMUIndex c"
proof -
  have f: "sf_format (pick_read_write (s\<lparr>sf_dirty := False\<rparr>)) = sf_format s" for s by (simp add: pick_read_write_def)
  show "unit_views (state (pick_texture_unit c i)) = unit_views (state c)"
    by (simp add: pick_texture_unit_def Let_def upd_tmu_def unit_views_upd texture_needs_format f)
qed (simp_all add: pick_texture_unit_def Let_def upd_tmu_def)

lemma state_texture_eq:
  "(s :: state_t)\<lparr>texture := []\<rparr> = s'\<lparr>texture := []\<rparr> \<Longrightarrow> s = s'\<lparr>texture := texture s\<rparr>"
  by (cases s, cases s') simp

lemma pick_state:
  "\<exists>t b. state (ggl_pick c) = (state c)\<lparr>needs := (if dirty c = 0 then needs (state c) else new_needs (state c) (dirty c)),
       texture := t, buffers := (buffers (state c))\<lparr>fb_color := b\<rparr>\<rparr> \<and>
     map (\<lambda>t. (tx_enable t, texture_needs t)) t = unit_views (state c) \<and>
     sf_format b = cb_format (state c) \<and> sf_width b = sf_width (fb_color (buffers (state c))) \<and>
     sf_height b = sf_height (fb_color (buffers (state c)))"
proof -
  let ?nd = "new_needs (state c) (dirty c)"
  show ?thesis
  proof (cases "dirty c = 0 \<or> ?nd = needs (state c)")
    case True
    then have "state (ggl_pick c) = state c" by (auto simp: ggl_pick_def Let_def)
    moreover have "(if dirty c = 0 then needs (state c) else ?nd) = needs (state c)" using True by auto
    ultimately show ?thesis
      by (intro exI [of _ "texture (state c)"] exI [of _ "fb_color (buffers (state c))"]) (simp add: unit_views_def)
  next
    case False
    define c1 where "c1 = upd_state (\<lambda>s. s\<lparr>needs := ?nd\<rparr>) c"
    define c2 where "c2 = ggl_pick_texture c1"
    define t2 where "t2 = texture (state c2)"
    have e: "(state c2)\<lparr>texture := []\<rparr> = (state c1)\<lparr>texture := []\<rparr>"
      by (simp add: c2_def ggl_pick_texture_def pick_texture_unit_views(2))
    have s2: "state c2 = (state c)\<lparr>needs := ?nd, texture := t2\<rparr>"
      using state_texture_eq [OF e, folded t2_def] by (simp add: c1_def)
    have v: "unit_views (state c2) = unit_views (state c)"
      by (simp add: c2_def c1_def ggl_pick_texture_def pick_texture_unit_views(1) unit_views_def [of "needs_update _ _"] unit_views_def [of "state c"])
    have sl: "state (ggl_pick_scanline x) = state x" for x
      by (simp add: ggl_pick_scanline_def pick_scanline_def Let_def split: prod.split)
    have s: "state (ggl_pick c) = state (ggl_pick_cb c2)" using False by (simp add: ggl_pick_def Let_def sl c2_def c1_def)
    define b where "b = (let s = fb_color (buffers (state c)) in if sf_dirty s then pick_read_write (s\<lparr>sf_dirty := False\<rparr>) else s)"
    have "state (ggl_pick_cb c2) = (state c)\<lparr>needs := ?nd, texture := t2, buffers := (buffers (state c))\<lparr>fb_color := b\<rparr>\<rparr>"
      by (simp add: ggl_pick_cb_def Let_def s2 b_def)
    moreover have "sf_format b = cb_format (state c)" "sf_width b = sf_width (fb_color (buffers (state c)))"
      "sf_height b = sf_height (fb_color (buffers (state c)))"
      by (simp_all add: b_def Let_def pick_read_write_def)
    moreover have "map (\<lambda>t. (tx_enable t, texture_needs t)) t2 = unit_views (state c)" using v by (simp add: unit_views_def s2)
    ultimately show ?thesis using s False by (intro exI [of _ t2] exI [of _ b]) simp
  qed
qed

subsection \<open>Well-formed contexts\<close>

definition scissor_of :: "state_t \<Rightarrow> scissor_t" where
  "scissor_of s =
     (let sc = scissor s; w = sf_width (fb_color (buffers s)); h = sf_height (fb_color (buffers s)) in
      if bit (enables s) 5 then
        sc\<lparr>sc_left := word_of_int (max 0 (user_left sc)), sc_right := word_of_int (min (sint w) (user_right sc)),
           sc_top := word_of_int (max 0 (user_top sc)), sc_bottom := word_of_int (min (sint h) (user_bottom sc))\<rparr>
      else sc\<lparr>sc_left := 0, sc_top := 0, sc_right := w, sc_bottom := h\<rparr>)"

lemma set_scissor_eq: "ggl_set_scissor c = upd_state (\<lambda>s. s\<lparr>scissor := scissor_of s\<rparr>) c"
  by (simp add: ggl_set_scissor_def scissor_of_def upd_scissor_def upd_state_def Let_def)

definition ctx_ok :: "context_t \<Rightarrow> bool" where
  "ctx_ok c \<longleftrightarrow>
     length (texture (state c)) = 2 \<and> length (nd_t (needs (state c))) = 2 \<and> activeTMU c < 2 \<and> activeTMUIndex c = activeTMU c \<and>
     (\<forall>k. bit (enabled_tmu (state c)) k \<longleftrightarrow> k < 2 \<and> tx_enable (texture (state c) ! k)) \<and>
     (bit (enables (state c)) 6 \<longleftrightarrow> enabled_tmu (state c) \<noteq> 0) \<and>
     (bit (enables (state c)) 7 \<longrightarrow> sf_format (fb_depth (buffers (state c))) \<noteq> 0) \<and>
     scissor_of (state c) = scissor (state c)"

text \<open>The part of the context that \<^const>\<open>ctx_ok\<close> reads.\<close>

definition ok_view :: "context_t \<Rightarrow> bool list \<times> nat \<times> nat \<times> nat \<times> u32 \<times> bool list \<times> nat \<times> scissor_t \<times> u32 \<times> u32" where
  "ok_view c = (map tx_enable (texture (state c)), length (nd_t (needs (state c))), activeTMU c, activeTMUIndex c,
     enabled_tmu (state c), map (bit (enables (state c))) [5, 6, 7], sf_format (fb_depth (buffers (state c))), scissor (state c),
     sf_width (fb_color (buffers (state c))), sf_height (fb_color (buffers (state c))))"

lemma ok_view_ctx_ok:
  assumes v: "ok_view c' = ok_view c" and ok: "ctx_ok c"
  shows "ctx_ok c'"
proof -
  have t: "map tx_enable (texture (state c')) = map tx_enable (texture (state c))"
    and n: "length (nd_t (needs (state c'))) = length (nd_t (needs (state c)))" "activeTMU c' = activeTMU c"
      "activeTMUIndex c' = activeTMUIndex c" "enabled_tmu (state c') = enabled_tmu (state c)"
    and e: "bit (enables (state c')) 5 = bit (enables (state c)) 5" "bit (enables (state c')) 6 = bit (enables (state c)) 6"
      "bit (enables (state c')) 7 = bit (enables (state c)) 7"
    and s: "sf_format (fb_depth (buffers (state c'))) = sf_format (fb_depth (buffers (state c)))"
      "scissor (state c') = scissor (state c)" "sf_width (fb_color (buffers (state c'))) = sf_width (fb_color (buffers (state c)))"
      "sf_height (fb_color (buffers (state c'))) = sf_height (fb_color (buffers (state c)))"
    using v by (simp_all add: ok_view_def)
  have l: "length (texture (state c')) = length (texture (state c))" using arg_cong [OF t, of length] by simp
  have "k < 2 \<Longrightarrow> tx_enable (texture (state c') ! k) = tx_enable (texture (state c) ! k)" for k
    using arg_cong [OF t, of "\<lambda>xs. xs ! k"] ok l by (simp add: ctx_ok_def)
  moreover have "scissor_of (state c') = scissor_of (state c)" by (simp add: scissor_of_def s e)
  ultimately show ?thesis using ok unfolding ctx_ok_def l n e s by auto
qed

lemma init_ctx_ok: "ctx_ok (ggl_init_context m)"
  by (auto simp: ctx_ok_def ggl_init_context_def ggl_init_texture_def ggl_init_scanline_def ggl_init_trap_def ggl_init_clear_def
      upd_clear_def upd_shade_def Let_def scissor_of_def state_zero_def texture_zero_def surface_zero_def nth_Cons less_Suc_eq numeral_2_eq_2
      split: nat.split)

lemma ok_view_changed [simp]: "ok_view (ggl_state_changed c f) = ok_view c" "ok_view (ggl_error c e) = ok_view c"
    "ok_view (upd_shade g c) = ok_view c"
  by (simp_all add: ok_view_def upd_shade_def)

lemma ok_view_tmu:
  assumes "\<And>t. tx_enable (f t) = tx_enable t"
  shows "ok_view (upd_tmu i f c) = ok_view c"
proof -
  have "map tx_enable ((texture (state c))[i := f (texture (state c) ! i)]) = map tx_enable (texture (state c))"
    by (cases "i < length (texture (state c))") (simp_all add: map_update assms list_update_same_conv list_update_beyond)
  then show ?thesis by (simp add: ok_view_def upd_tmu_def)
qed

lemma scissor_of_idem: "scissor_of (s\<lparr>scissor := scissor_of s\<rparr>) = scissor_of s"
  by (simp add: scissor_of_def Let_def)

lemma set_scissor_ok:
  assumes "length (texture (state c)) = 2" "length (nd_t (needs (state c))) = 2" "activeTMU c < 2" "activeTMUIndex c = activeTMU c"
     "\<forall>k. bit (enabled_tmu (state c)) k \<longleftrightarrow> k < 2 \<and> tx_enable (texture (state c) ! k)"
     "bit (enables (state c)) 6 \<longleftrightarrow> enabled_tmu (state c) \<noteq> 0"
     "bit (enables (state c)) 7 \<longrightarrow> sf_format (fb_depth (buffers (state c))) \<noteq> 0"
  shows "ctx_ok (ggl_set_scissor c)"
  using assms by (simp add: ctx_ok_def set_scissor_eq scissor_of_idem)

lemma enable_flag_view:
  assumes "\<not> bit f 5" "\<not> bit f 6" "\<not> bit f 7"
  shows "ok_view (enable_flag f c en) = ok_view c"
  using assms by (simp add: enable_flag_def set_flag_def ok_view_def bit_simps)

lemma enables_ok:
  assumes ok: "ctx_ok c" and e: "bit e 5 = bit (enables (state c)) 5" "bit e 6 = bit (enables (state c)) 6"
    "bit e 7 \<Longrightarrow> sf_format (fb_depth (buffers (state c))) \<noteq> 0"
  shows "ctx_ok (upd_state (\<lambda>s. s\<lparr>enables := e\<rparr>) c)"
proof -
  have "scissor_of ((state c)\<lparr>enables := e\<rparr>) = scissor_of (state c)" by (simp add: scissor_of_def e)
  then show ?thesis using ok e unfolding ctx_ok_def by simp
qed

lemma ctx_ok_changed [simp]: "ctx_ok (ggl_state_changed c f) = ctx_ok c"
  by (simp add: ctx_ok_def)

lemma depth_test_ok:
  assumes ok: "ctx_ok c"
  shows "ctx_ok (ggl_enable_depth_test c en)"
proof -
  have "ctx_ok (enable_flag GGL_ENABLE_DEPTH_TEST c b)" if b: "b \<Longrightarrow> sf_format (fb_depth (buffers (state c))) \<noteq> 0" for b
  proof -
    let ?e = "if b then enables (state c) OR GGL_ENABLE_DEPTH_TEST else enables (state c) AND NOT GGL_ENABLE_DEPTH_TEST"
    have "ctx_ok (upd_state (\<lambda>s. s\<lparr>enables := ?e\<rparr>) c)"
      by (rule enables_ok [OF ok]) (use b in \<open>simp_all add: bit_simps split: if_splits\<close>)
    moreover have "set_flag GGL_ENABLE_DEPTH_TEST b c = upd_state (\<lambda>s. s\<lparr>enables := ?e\<rparr>) c"
      by (simp add: set_flag_def upd_state_def)
    ultimately show ?thesis using ok by (simp add: enable_flag_def)
  qed
  then show ?thesis by (simp add: ggl_enable_depth_test_def Let_def)
qed

lemma texture2d_ok:
  assumes ok: "ctx_ok c"
  shows "ctx_ok (ggl_enable_texture2d c en)"
proof (cases "tx_enable (texture (state c) ! activeTMU c) = en")
  case True
  then show ?thesis using ok by (simp add: ggl_enable_texture2d_def)
next
  case False
  let ?i = "activeTMU c"
  let ?m = "2 ^ ?i :: u32"
  let ?e = "if en then enabled_tmu (state c) OR ?m else enabled_tmu (state c) AND NOT ?m"
  have i: "?i < 2" "activeTMUIndex c = ?i" "length (texture (state c)) = 2" using ok by (simp_all add: ctx_ok_def)
  have e: "bit ?e k \<longleftrightarrow> k < 2 \<and> tx_enable ((texture (state c))[?i := (texture (state c) ! ?i)\<lparr>tx_enable := en\<rparr>] ! k)" for k
  proof -
    have m: "bit ?m k \<longleftrightarrow> k = ?i" using i(1) by (auto simp: bit_exp_iff)
    have o: "bit (enabled_tmu (state c)) k \<longleftrightarrow> k < 2 \<and> tx_enable (texture (state c) ! k)" using ok by (simp add: ctx_ok_def)
    have n: "bit (NOT ?m) k \<longleftrightarrow> k < 32 \<and> k \<noteq> ?i" using m by (simp add: bit_not_iff)
    show ?thesis using i by (cases en) (auto simp: bit_or_iff bit_and_iff m o n nth_list_update)
  qed
  let ?f = "if ?e \<noteq> 0 then enables (state c) OR GGL_ENABLE_TMUS else enables (state c) AND NOT GGL_ENABLE_TMUS"
  let ?t = "(texture (state c))[?i := (texture (state c) ! ?i)\<lparr>tx_enable := en\<rparr>]"
  have eq: "ggl_enable_texture2d c en =
      ggl_state_changed (upd_state (\<lambda>s. s\<lparr>texture := ?t, enabled_tmu := ?e, enables := ?f\<rparr>) c) GGL_TMU_STATE"
    using False i(2) unfolding ggl_enable_texture2d_def by (simp add: ctx_defs Let_def)
  have "scissor_of ((state c)\<lparr>texture := ?t, enabled_tmu := ?e, enables := ?f\<rparr>) = scissor_of (state c)"
    by (simp add: scissor_of_def bit_simps)
  moreover have "bit ?f 6 \<longleftrightarrow> ?e \<noteq> 0" "bit ?f 7 = bit (enables (state c)) 7" by (simp_all add: bit_simps)
  ultimately show ?thesis unfolding eq ctx_ok_changed using ok e i
    by (simp only: ctx_ok_def upd_state_simps state_t.simps length_list_update) simp
qed

lemma enable_disable_ok:
  assumes "ctx_ok c"
  shows "ctx_ok (enable_disable c name en)"
proof -
  have "ctx_ok (ggl_enable_scissor_test c en)"
  proof (cases "has_flag (enables (state c)) GGL_ENABLE_SCISSOR_TEST = en")
    case False
    have "ctx_ok (ggl_set_scissor (set_flag GGL_ENABLE_SCISSOR_TEST en c))"
      by (rule set_scissor_ok) (use assms in \<open>simp_all add: ctx_ok_def set_flag_def bit_simps\<close>)
    then show ?thesis using False by (simp add: ggl_enable_scissor_test_def)
  qed (use assms in \<open>simp add: ggl_enable_scissor_test_def\<close>)
  moreover have "ctx_ok (enable_flag f c en)" if "\<not> bit f 5" "\<not> bit f 6" "\<not> bit f 7" for f
    by (rule ok_view_ctx_ok [OF enable_flag_view [OF that] assms])
  ultimately show ?thesis using assms depth_test_ok texture2d_ok unfolding enable_disable_def
    by (simp add: ggl_enable_blending_def ggl_enable_alpha_test_def ggl_enable_logic_op_def ggl_enable_dither_def
      ggl_enable_stencil_test_def ggl_enable_aa_def ggl_enable_w_lerp_def ggl_enable_fog_def ggl_enable_point_aa_nice_def)
qed

lemma pick_view:
  assumes "ctx_ok c" "in_sync c"
  shows "ok_view (ggl_pick c) = ok_view c"
proof -
  obtain t b where p: "state (ggl_pick c) = (state c)\<lparr>needs := (if dirty c = 0 then needs (state c) else new_needs (state c) (dirty c)),
       texture := t, buffers := (buffers (state c))\<lparr>fb_color := b\<rparr>\<rparr>"
     "map (\<lambda>t. (tx_enable t, texture_needs t)) t = unit_views (state c)"
     "sf_width b = sf_width (fb_color (buffers (state c)))" "sf_height b = sf_height (fb_color (buffers (state c)))"
    using pick_state by blast
  have t: "map tx_enable t = map tx_enable (texture (state c))"
    using arg_cong [OF p(2), of "map fst"] by (simp add: unit_views_def comp_def)
  have l: "length (nd_t (new_needs (state c) (dirty c))) = length (nd_t (needs (state c)))"
    using new_needs_current(2) [OF assms(2)] assms(1) by (simp add: ctx_ok_def)
  have a: "activeTMU (ggl_pick c) = activeTMU c" "activeTMUIndex (ggl_pick c) = activeTMUIndex c"
    by (simp_all add: ggl_pick_def Let_def ggl_pick_scanline_def pick_scanline_def ggl_pick_cb_def ggl_pick_texture_def
        pick_texture_unit_views split: prod.split)
  show ?thesis using t l p(3,4) by (simp add: ok_view_def p(1) a)
qed

lemma ok_view_state:
  assumes "texture (f (state c)) = texture (state c)" "needs (f (state c)) = needs (state c)"
    "enabled_tmu (f (state c)) = enabled_tmu (state c)" "enables (f (state c)) = enables (state c)"
    "scissor (f (state c)) = scissor (state c)" "buffers (f (state c)) = buffers (state c)"
  shows "ok_view (upd_state f c) = ok_view c"
  using assms by (simp add: ok_view_def)

lemma colorBuffer_ok:
  assumes "ctx_ok c"
  shows "ctx_ok (ggl_colorBuffer al c s)"
proof -
  define c1 where "c1 = (if gs_format s \<noteq> cb_format (state c) then ggl_state_changed c GGL_CB_STATE else c)"
  define fb where "fb = (let fb = (alloc_coverage al (gs_width s) (buffers (state c)))
      \<lparr>fb_color := ggl_set_surface (fb_color (buffers (state c))) s\<rparr>
    in if sf_format (fb_read fb) = 0 then fb\<lparr>fb_read := ggl_set_surface (fb_read fb) s\<rparr> else fb)"
  have s1: "state c1 = state c" by (simp add: c1_def)
  have "ggl_colorBuffer al c s = ggl_set_scissor (upd_buffers (\<lambda>_. fb) c1)"
    unfolding ggl_colorBuffer_def Let_def c1_def [symmetric] fb_def by (simp add: upd_buffers_def upd_state_def s1)
  moreover have d: "fb_depth fb = fb_depth (buffers (state c))" by (simp add: fb_def Let_def alloc_coverage_def)
  have "ctx_ok (ggl_set_scissor (upd_buffers (\<lambda>_. fb) c1))"
  proof (rule set_scissor_ok)
    show "activeTMU (upd_buffers (\<lambda>_. fb) c1) < 2" "activeTMUIndex (upd_buffers (\<lambda>_. fb) c1) = activeTMU (upd_buffers (\<lambda>_. fb) c1)"
      using assms by (simp_all add: ctx_ok_def upd_buffers_def c1_def)
  qed (use assms in \<open>simp_all add: ctx_ok_def upd_buffers_def s1 d\<close>)
  ultimately show ?thesis by simp
qed

lemma depthBuffer_ok:
  assumes "ctx_ok c"
  shows "ctx_ok (ggl_depthBuffer c s)"
proof (cases "gs_format s = GGL_PIXEL_FORMAT_Z_16")
  case True
  have "scissor_of ((state c)\<lparr>buffers := (buffers (state c))\<lparr>fb_depth := d\<rparr>\<rparr>) = scissor_of (state c)" for d
    by (simp add: scissor_of_def)
  then show ?thesis using True assms by (simp add: ggl_depthBuffer_def upd_buffers_def ctx_ok_def)
next
  case False
  let ?b = "(buffers (state c))\<lparr>fb_depth := (fb_depth (buffers (state c)))\<lparr>sf_format := 0\<rparr>\<rparr>"
  let ?e = "enables (state c) AND NOT GGL_ENABLE_DEPTH_TEST"
  have sc: "scissor_of ((state c)\<lparr>buffers := ?b\<rparr>) = scissor_of (state c)"
    "scissor_of ((state c)\<lparr>buffers := ?b, enables := ?e\<rparr>) = scissor_of (state c)"
    by (simp_all add: scissor_of_def bit_simps)
  have "ctx_ok (upd_state (\<lambda>s. s\<lparr>buffers := ?b, enables := ?e\<rparr>) c)"
    using assms sc by (simp add: ctx_ok_def bit_simps)
  moreover have "ctx_ok (upd_state (\<lambda>s. s\<lparr>buffers := ?b\<rparr>) c)" if "\<not> bit (enables (state c)) 7"
    using assms sc that by (simp add: ctx_ok_def)
  ultimately show ?thesis using False
    by (simp add: ggl_depthBuffer_def ggl_enable_depth_test_def enable_flag_def set_flag_def upd_buffers_def upd_state_def)
qed

lemma call_ctx_ok:
  assumes ok: "ctx_ok c" and k: "k \<notin> {ValidatePoint, ValidateLine, ValidateRect, ValidateTriangle}"
  shows "ctx_ok (ggl_exec al c k)"
proof -
  have v: "ctx_ok c'" if "ok_view c' = ok_view c" for c' by (rule ok_view_ctx_ok [OF that ok])
  have bl: "ok_view (blend_changed (upd_state (\<lambda>s. s\<lparr>blend := b\<rparr>) c)) = ok_view c" for b
    by (simp add: blend_changed_def ok_view_state)
  have tp: "tx_enable (set_tex_param w p t) = tx_enable t" for w p t by (cases w) simp_all
  have sm: "ok_view (set_flag GGL_ENABLE_SMOOTH b c) = ok_view c" for b
    by (simp add: ok_view_def set_flag_def bit_simps)
  show ?thesis
  proof (cases k)
    case (Scissor x y w h)
    have "ctx_ok (ggl_set_scissor (upd_scissor f c))" for f
      by (rule set_scissor_ok) (use ok in \<open>simp_all add: ctx_ok_def upd_scissor_def\<close>)
    then show ?thesis using Scissor by (simp add: ggl_scissor_def)
  next
    case (ActiveTexture t)
    then show ?thesis using ok by (simp add: ggl_activeTexture_def ctx_ok_def)
  next
    case (BindTexture s)
    then show ?thesis by (intro v) (simp add: ggl_bindTexture_def Let_def ok_view_tmu)
  next
    case (TexParameteri t p x)
    then show ?thesis by (intro v) (simp add: ggl_texParameteri_def Let_def ok_view_tmu tp split: option.split prod.split)
  next
    case (AlphaFuncx f r)
    then show ?thesis by (intro v) (simp add: ggl_alphaFuncx_def Let_def ok_view_state)
  next
    case (EnableDisable n e)
    then show ?thesis using enable_disable_ok [OF ok] by (simp add: ggl_enableDisable_def)
  next
    case (ReadBuffer s)
    then show ?thesis by (intro v) (simp add: ggl_readBuffer_def upd_buffers_def ok_view_def)
  qed (use k in \<open>simp_all add: colorBuffer_ok [OF ok] depthBuffer_ok [OF ok] v ggl_bindTextureLod_def ok_view_tmu
      ggl_shadeModel_def sm ggl_color4xv_def ggl_colorGrad12xv_def ggl_zGrad3xv_def ggl_wGrad3xv_def ggl_fogGrad3xv_def
      ggl_fogColor3xv_def ok_view_state ggl_blendFunc_def ggl_blendFuncSeparate_def bl ggl_texEnvi_def ggl_texEnvxv_def
      ggl_texCoord2x_def ggl_texCoord2i_def ggl_texCoordGradScale8xv_def ggl_texGeni_def ggl_colorMask_def Let_def upd_mask_def
      ggl_depthMask_def ggl_stencilMask_def ggl_depthFunc_def ggl_logicOp_def ggl_clearColorx_def ggl_clearDepthx_def
      ggl_clearStencil_def upd_clear_def\<close>)
qed

subsection \<open>The invariant of reachable contexts\<close>

lemma pick_dirty [simp]: "dirty (ggl_pick c) = 0"
  by (simp add: ggl_pick_def Let_def)

lemma pick_procs [simp]: "procs (ggl_pick c) = procs c"
  by (simp add: ggl_pick_def Let_def ggl_pick_scanline_def pick_scanline_def ggl_pick_cb_def ggl_pick_texture_def
      pick_texture_unit_views split: prod.split)

lemma pick_needs_n_upd [simp]: "pick_needs_n (s\<lparr>needs := nd\<rparr>) = pick_needs_n s" "pick_needs_n (s\<lparr>texture := t\<rparr>) = pick_needs_n s"
  by (simp_all add: pick_needs_n_def blend_needs_def)

lemma pick_needs_n_buffers: "sf_format (fb_color b) = cb_format s \<Longrightarrow> pick_needs_n (s\<lparr>buffers := b\<rparr>) = pick_needs_n s"
  by (simp add: pick_needs_n_def blend_needs_def)

lemma pick_current:
  assumes "ctx_ok c" "in_sync c"
  shows "needs_current (state (ggl_pick c)) (needs (state (ggl_pick c)))"
proof -
  let ?nd = "if dirty c = 0 then needs (state c) else new_needs (state c) (dirty c)"
  obtain t b where p: "state (ggl_pick c) = (state c)\<lparr>needs := ?nd, texture := t, buffers := (buffers (state c))\<lparr>fb_color := b\<rparr>\<rparr>"
     "map (\<lambda>t. (tx_enable t, texture_needs t)) t = unit_views (state c)" "sf_format b = cb_format (state c)"
    using pick_state by blast
  have "new_needs (state c) (dirty c) = needs (state c)" if "dirty c = 0" using that by (simp add: new_needs_def Let_def)
  then have nd: "?nd = new_needs (state c) (dirty c)" by simp
  have cur: "needs_current (state c) ?nd" unfolding nd using new_needs_current(1) [OF assms(2)] assms(1) by (simp add: ctx_ok_def)
  have "pick_needs_t t 0 0 v = pick_needs_t (texture (state c)) 0 0 v" for v
    by (rule pick_needs_t_views) (use p(2) in \<open>simp add: unit_views_def\<close>)
  then show ?thesis using cur by (simp add: needs_current_def p(1) p(3) pick_needs_n_buffers)
qed

lemma current_in_sync:
  assumes "needs_current (state c) (needs (state c))" "dirty c = 0"
  shows "in_sync c"
proof -
  let ?n = "nd_n (needs (state c))"
  have n: "?n AND NOT (NEEDS_MASK W) = pick_needs_n (state c) AND NOT (NEEDS_MASK W)" using assms(1) by (simp add: needs_current_def)
  have b: "bit ?n k = bit (pick_needs_n (state c)) k" if "k \<noteq> 7" "k < 32" for k
    using arg_cong [OF n, of "\<lambda>w. bit w k"] that by (simp add: bit_simps bit_NEEDS_MASK)
  have "?n AND NOT FW_mask = pick_needs_n (state c) AND NOT FW_mask"
    by (rule bit_word_eqI) (use b in \<open>auto simp: bit_simps bit_FW_mask\<close>)
  moreover have "?n AND NEEDS_MASK CB_FORMAT = pick_needs_n (state c) AND NEEDS_MASK CB_FORMAT"
    by (rule bit_word_eqI) (use b in \<open>auto simp: bit_simps bit_NEEDS_MASK\<close>)
  ultimately show ?thesis using assms unfolding in_sync_def needs_current_def pick_needs_n_fields by simp
qed

lemma in_sync_current:
  assumes "ctx_ok c" "in_sync c" "dirty c = 0"
  shows "needs_current (state c) (needs (state c))"
  using pick_current [OF assms(1,2)] assms(3) by (simp add: ggl_pick_def)

text \<open>The procedures chosen by a validation fit the needs.\<close>

definition procs_fit :: "context_t \<Rightarrow> bool" where
  "procs_fit c \<longleftrightarrow> (if dirty c \<noteq> 0 then procs c = validate_procs else
     pr_pointx (procs c) \<in> {pointx_validate_proc} \<union> (if needs_aa c then {aa_pointx_proc, aa_nice_pointx_proc} else {pointx_proc}) \<and>
     pr_linex (procs c) \<in> {linex_validate_proc, if needs_aa c then aa_linex_proc else linex_proc} \<and>
     pr_recti (procs c) \<in> {recti_validate_proc, recti_proc} \<and>
     pr_trianglex (procs c) \<in> {trianglex_validate_proc, if needs_aa c then aa_trianglex_proc else trianglex_big_proc})"

definition ggl_inv :: "context_t \<Rightarrow> bool" where
  "ggl_inv c \<longleftrightarrow> ctx_ok c \<and> in_sync c \<and> procs_fit c"

lemma validate_procs_simps [simp]:
  "pr_pointx validate_procs = pointx_validate_proc" "pr_linex validate_procs = linex_validate_proc"
  "pr_recti validate_procs = recti_validate_proc" "pr_trianglex validate_procs = trianglex_validate_proc"
  by (simp_all add: validate_procs_def)

lemma tracked_dirty:
  assumes "tracked c c'" "dirty c' = 0"
  shows "dirty c = 0"
proof (rule bit_word_eqI)
  fix k assume "k < LENGTH(32)"
  show "bit (dirty c) k = bit (0 :: u32) k" using assms by (auto simp: tracked_def)
qed

lemma tracked_procs_fit:
  assumes tr: "tracked c c'" and pf: "procs_fit c"
  shows "procs_fit c'"
proof (cases "dirty c' = 0")
  case True
  have d: "dirty c = 0" by (rule tracked_dirty [OF tr True])
  have "needs_aa c' = needs_aa c" using tr by (simp add: tracked_def needs_aa_def)
  moreover have "procs c' = procs c \<or> procs c' = validate_procs" using tr by (auto simp: tracked_def)
  ultimately show ?thesis using pf d True by (auto simp: procs_fit_def)
next
  case False
  have "dirty c' = dirty c \<and> procs c' = procs c \<or> dirty c \<noteq> 0 \<and> procs c' = procs c \<or> procs c' = validate_procs"
    using tr by (simp add: tracked_def)
  then have "procs c' = validate_procs" using pf False by (auto simp: procs_fit_def)
  then show ?thesis using False by (simp add: procs_fit_def)
qed

lemma init_dirty: "dirty (ggl_init_context m) = 7" "procs (ggl_init_context m) = validate_procs"
  by (simp_all add: ggl_init_context_def ggl_init_texture_def ggl_init_scanline_def ggl_init_trap_def ggl_init_clear_def
      upd_clear_def upd_shade_def Let_def context_zero_def)

lemma init_inv: "ggl_inv (ggl_init_context m)"
proof -
  have "bit (7 :: u32) 0" "bit (7 :: u32) 1" "bit (7 :: u32) 2" by simp_all
  then show ?thesis by (simp only: ggl_inv_def init_ctx_ok in_sync_def procs_fit_def init_dirty) simp
qed

lemma validated_inv:
  assumes inv: "ggl_inv c"
    and c': "c' = (ggl_pick c)\<lparr>procs := p\<rparr>"
    and p: "procs_fit c'"
  shows "ggl_inv c'"
proof -
  have i: "ctx_ok c" "in_sync c" using inv by (simp_all add: ggl_inv_def)
  have s: "state c' = state (ggl_pick c)" "dirty c' = 0" by (simp_all add: c')
  have "ok_view c' = ok_view (ggl_pick c)" by (simp add: ok_view_def c')
  then have "ctx_ok c'" using ok_view_ctx_ok [OF _ i(1)] pick_view [OF i] by simp
  moreover have "in_sync c'" by (rule current_in_sync) (use pick_current [OF i] s in simp_all)
  ultimately show ?thesis using p by (simp add: ggl_inv_def)
qed

lemma pick_procs_fit:
  assumes "ggl_inv c"
  shows "procs_fit (ggl_pick c)"
proof (cases "dirty c = 0")
  case True
  then show ?thesis using assms by (simp add: ggl_pick_def ggl_inv_def)
next
  case False
  then have "procs c = validate_procs" using assms by (simp add: ggl_inv_def procs_fit_def)
  then show ?thesis by (simp add: procs_fit_def)
qed

lemma validate_inv:
  assumes inv: "ggl_inv c"
  shows "ggl_inv (pointx_validate c)" "ggl_inv (linex_validate c)" "ggl_inv (recti_validate c)" "ggl_inv (trianglex_validate c)"
proof -
  note f = pick_procs_fit [OF inv]
  have aa: "needs_aa ((ggl_pick c)\<lparr>procs := p\<rparr>) = needs_aa (ggl_pick c)" for p by (simp add: needs_aa_def)
  show "ggl_inv (pointx_validate c)" unfolding pointx_validate_def Let_def
    by (rule validated_inv [OF inv refl]) (use f in \<open>simp add: procs_fit_def aa del: pick_procs\<close>)
  show "ggl_inv (linex_validate c)" unfolding linex_validate_def Let_def
    by (rule validated_inv [OF inv refl]) (use f in \<open>simp add: procs_fit_def aa del: pick_procs\<close>)
  show "ggl_inv (recti_validate c)" unfolding recti_validate_def Let_def
    by (rule validated_inv [OF inv refl]) (use f in \<open>simp add: procs_fit_def aa del: pick_procs\<close>)
  show "ggl_inv (trianglex_validate c)" unfolding trianglex_validate_def Let_def
    by (rule validated_inv [OF inv refl]) (use f in \<open>simp add: procs_fit_def aa del: pick_procs\<close>)
qed

lemma call_inv:
  assumes inv: "ggl_inv c" and k: "call_ok c k"
  shows "ggl_inv (ggl_exec al c k)"
proof (cases "k \<in> {ValidatePoint, ValidateLine, ValidateRect, ValidateTriangle}")
  case True
  then show ?thesis using validate_inv [OF inv] by (elim insertE emptyE) simp_all
next
  case False
  have i: "ctx_ok c" "in_sync c" "procs_fit c" using inv by (simp_all add: ggl_inv_def)
  note tr = call_tracked [OF k False, of al]
  show ?thesis unfolding ggl_inv_def
    using call_ctx_ok [OF i(1) False] tracked_sync [OF tr i(2)] tracked_procs_fit [OF tr i(3)] by blast
qed

lemma reachable_inv: "ggl_reachable al c \<Longrightarrow> ggl_inv c"
proof (induction rule: ggl_reachable.induct)
  case (init m)
  show ?case by (rule init_inv)
next
  case (step c k)
  then show ?case by (simp add: call_inv)
qed

lemma needs_aa_enabled:
  assumes "nd_p (needs (state c)) = pick_needs_p (state c)"
  shows "needs_aa c \<longleftrightarrow> has_flag (enables (state c)) GGL_ENABLE_AA"
proof -
  have "bit (pick_needs_p (state c)) 3 \<longleftrightarrow> has_flag (enables (state c)) GGL_ENABLE_AA"
    by (auto simp: pick_needs_p_def GGL_BUILD_NEEDS_def bit_simps bit_NEEDS_MASK)
  then show ?thesis using assms by (simp add: needs_aa_def NEEDS_MASK_def mask_eq_exp_minus_1)
qed

subsection \<open>Properties\<close>

text \<open>C20. The dirty-flag discipline of the rasterizer. In every context reachable from
  \<^verbatim>\<open>gglInit\<close> by the calls of the table: while a dirty flag is raised all four drawing procedures are the
  validating ones, so a primitive cannot be drawn with stale needs; while none is raised the needs words
  describe the state (the \<^verbatim>\<open>W\<close> bit apart); a validation makes them describe it and clears the flags; and
  the triangle and line procedures it selects are the antialiased ones exactly when antialiasing is
  enabled.\<close>

theorem validated_needs:
  assumes "ggl_reachable al c"
  shows "(dirty c \<noteq> 0 \<longrightarrow> procs c = validate_procs) \<and>
    (dirty c = 0 \<longrightarrow> needs_current (state c) (needs (state c))) \<and>
    needs_current (state (ggl_pick c)) (needs (state (ggl_pick c))) \<and> dirty (ggl_pick c) = 0 \<and>
    pr_trianglex (procs (trianglex_validate c)) =
      (if has_flag (enables (state c)) GGL_ENABLE_AA then aa_trianglex_proc else trianglex_big_proc) \<and>
    pr_linex (procs (linex_validate c)) = (if has_flag (enables (state c)) GGL_ENABLE_AA then aa_linex_proc else linex_proc)"
proof -
  have i: "ctx_ok c" "in_sync c" "procs_fit c" using reachable_inv [OF assms] by (simp_all add: ggl_inv_def)
  have cur: "needs_current (state (ggl_pick c)) (needs (state (ggl_pick c)))" by (rule pick_current [OF i(1,2)])
  have e: "enables (state (ggl_pick c)) = enables (state c)"
    using pick_state [of c] by (elim exE conjE) simp
  have "needs_aa (ggl_pick c) \<longleftrightarrow> has_flag (enables (state c)) GGL_ENABLE_AA"
    using needs_aa_enabled [of "ggl_pick c"] cur e by (simp add: needs_current_def)
  then show ?thesis using in_sync_current [OF i(1,2)] cur i(3)
    by (simp add: procs_fit_def trianglex_validate_def linex_validate_def Let_def)
qed

theorem validated_needs_witness:
  "dirty (ggl_init_context (\<lambda>_. 0)) \<noteq> 0 \<and> procs (ggl_init_context (\<lambda>_. 0)) = validate_procs \<and>
   dirty (ggl_pick (ggl_init_context (\<lambda>_. 0))) = 0"
  using validated_needs [OF ggl_reachable.init [of "\<lambda>_. True" "\<lambda>_. 0"]] by (simp add: init_dirty)



end
