(* ===== verification/GGLIter.thy ===== *)
theory GGLIter
  imports GGLMachine
begin

text \<open>
  The iterators of a primitive: \<^verbatim>\<open>init_y\<close> and its variants and the steppers of
  \<^verbatim>\<open>libpixelflinger/scanline.cpp\<close>. An initialiser computes the values of every interpolated quantity at
  the centre of the first pixel of a row and chooses the stepper and the rectangle blitter; a stepper
  moves the values one row down. A failed packing and a shift by a count outside the width of an
  \<^verbatim>\<open>int\<close> are \<^term>\<open>None\<close>.
\<close>

subsection \<open>Initialisers\<close>

definition upd_iterators :: "(iterators_t \<Rightarrow> iterators_t) \<Rightarrow> context_t \<Rightarrow> context_t" where
  "upd_iterators f c = c\<lparr>iterators := f (iterators c)\<rparr>"

definition interpolate :: "int \<Rightarrow> int \<Rightarrow> int \<Rightarrow> int \<Rightarrow> int" where
  "interpolate y v0 dvdx dvdy = s32 (y * dvdy + (v0 + s32 (dvdy + dvdx) div 2))"

text \<open>\<^verbatim>\<open>v << scale\<close> or \<^verbatim>\<open>v >> -scale\<close>, by the sign of the scale.\<close>

definition scale_by :: "int \<Rightarrow> int \<Rightarrow> int option" where
  "scale_by sc v =
     (if 0 \<le> sc then if sc < 32 then Some (s32 (v * 2 ^ nat sc)) else None
      else if - sc < 32 then Some (v div 2 ^ nat (- sc)) else None)"

text \<open>The colour part: interpolated when shading is smooth, constant and packed when it is flat.\<close>

definition init_y_color :: "int \<Rightarrow> context_t \<Rightarrow> context_t option" where
  "init_y_color ys c =
     (let sh = shade c in
      if has_flag (enables (state c)) GGL_ENABLE_SMOOTH then
        Some (upd_iterators (\<lambda>ci. ci\<lparr>
          it_ydrdy := interpolate ys (sh_r0 sh) (sh_drdx sh) (sh_drdy sh),
          it_ydgdy := interpolate ys (sh_g0 sh) (sh_dgdx sh) (sh_dgdy sh),
          it_ydbdy := interpolate ys (sh_b0 sh) (sh_dbdx sh) (sh_dbdy sh),
          it_ydady := interpolate ys (sh_a0 sh) (sh_dadx sh) (sh_dady sh)\<rparr>) c)
      else do {
        p \<leftarrow> ggl_pack_color (sf_format (fb_color (buffers (state c)))) (sh_r0 sh) (sh_g0 sh) (sh_b0 sh) (sh_a0 sh);
        p8888 \<leftarrow> ggl_pack_color GGL_PIXEL_FORMAT_RGBA_8888 (sh_r0 sh) (sh_g0 sh) (sh_b0 sh) (sh_a0 sh);
        Some ((upd_iterators (\<lambda>ci. ci\<lparr>it_ydrdy := sh_r0 sh, it_ydgdy := sh_g0 sh, it_ydbdy := sh_b0 sh,
          it_ydady := sh_a0 sh\<rparr>) c)\<lparr>packed := p, packed8888 := p8888\<rparr>)
      })"

definition init_y_depth :: "int \<Rightarrow> context_t \<Rightarrow> context_t" where
  "init_y_depth ys c =
     (let sh = shade c in
      if has_flag (enables (state c)) (GGL_ENABLE_DEPTH_TEST OR GGL_ENABLE_W OR GGL_ENABLE_FOG) then
        upd_iterators (\<lambda>ci. ci\<lparr>
          it_ydzdy := interpolate ys (uint (sh_z0 sh)) (sh_dzdx sh) (sh_dzdy sh),
          it_ydwdy := interpolate ys (sh_w0 sh) (sh_dwdx sh) (sh_dwdy sh),
          it_ydfdy := interpolate ys (uint (sh_f0 sh)) (sh_dfdx sh) (sh_dfdy sh)\<rparr>) c
      else c)"

definition init_y_generated :: "context_t \<Rightarrow> context_t" where
  "init_y_generated c =
     (let ci = iterators c; sh = shade c in
      c\<lparr>generated_vars := (generated_vars c)\<lparr>
          gv_argb := [(it_ydady ci, sh_dadx sh), (it_ydrdy ci, sh_drdx sh), (it_ydgdy ci, sh_dgdx sh), (it_ydbdy ci, sh_dbdx sh)],
          gv_dzdx := sh_dzdx sh, gv_f := it_ydfdy ci, gv_dfdx := sh_dfdx sh\<rparr>\<rparr>)"

text \<open>The iterators of an enabled unit.\<close>

definition unit_iterators :: "bool \<Rightarrow> int \<Rightarrow> texture_t \<Rightarrow> texture_iterators_t option" where
  "unit_iterators w ys t =
     (let sh = tx_shade t; ti = tx_iterators t in
      if tx_s_coord t = GGL_ONE_TO_ONE \<and> tx_t_coord t = GGL_ONE_TO_ONE then
        Some (ti\<lparr>ti_dsdx := 0, ti_dsdy := 0, ti_dtdx := 0, ti_dtdy := 0, ti_ydsdy := is0 sh, ti_ydtdy := it0 sh\<rparr>)
      else
        let ss = s32 (sscale sh + (if tx_s_wrap t = GGL_CLAMP then 0 else 16));
            ts = s32 (tscale sh + (if tx_t_wrap t = GGL_CLAMP then 0 else 16));
            ti = ti\<lparr>ti_sscale := ss, ti_tscale := ts\<rparr>
        in if w then Some ti
           else do {
             y \<leftarrow> scale_by ss (interpolate ys (is0 sh) (idsdx sh) (idsdy sh));
             dx \<leftarrow> scale_by ss (idsdx sh);
             dy \<leftarrow> scale_by ss (idsdy sh);
             let ti = ti\<lparr>ti_ydsdy := y, ti_dsdx := dx, ti_dsdy := dy\<rparr>;
             y \<leftarrow> scale_by ts (interpolate ys (it0 sh) (idtdx sh) (idtdy sh));
             dx \<leftarrow> scale_by ts (idtdx sh);
             dy \<leftarrow> scale_by ts (idtdy sh);
             Some (ti\<lparr>ti_ydtdy := y, ti_dtdx := dx, ti_dtdy := dy\<rparr>)
           })"

definition init_y_unit :: "int \<Rightarrow> nat \<Rightarrow> context_t \<Rightarrow> context_t option" where
  "init_y_unit ys i c =
     (let t = texture (state c) ! i; s = tx_surface t in
      if \<not> tx_enable t then Some c
      else do {
        ti \<leftarrow> unit_iterators (has_flag (enables (state c)) GGL_ENABLE_W) ys t;
        let c = upd_tmu i (\<lambda>t. t\<lparr>tx_iterators := ti\<rparr>) c;
        Some (c\<lparr>generated_tex := (generated_tex c)[i := (generated_tex c ! i)\<lparr>gt_width := sf_width s,
          gt_height := sf_height s, gt_stride := sf_stride s mod 2 ^ 32, gt_data := s32 (sf_data s),
          gt_dsdx := ti_dsdx ti, gt_dtdx := ti_dtdx ti\<rparr>]\<rparr>)
      })"

definition init_y_units :: "int \<Rightarrow> context_t \<Rightarrow> context_t option" where
  "init_y_units ys c =
     (if has_flag (enables (state c)) GGL_ENABLE_TMUS
      then do { c \<leftarrow> init_y_unit ys 0 c; init_y_unit ys 1 c } else Some c)"

definition choose_step_y :: "u32 \<Rightarrow> step_y_proc" where
  "choose_step_y en =
     (if has_flag en GGL_ENABLE_FOG then Step_y_generic
      else if has_flag en GGL_ENABLE_TMUS then
        if has_flag en GGL_ENABLE_SMOOTH then Step_y_generic
        else if has_flag en GGL_ENABLE_W then Step_y_w else Step_y_tmu
      else if has_flag en GGL_ENABLE_SMOOTH then Step_y_smooth else Step_y_nop)"

definition choose_rect :: "context_t \<Rightarrow> context_t" where
  "choose_rect c =
     c\<lparr>rect_ptr := (if step_y_ptr c = Step_y_nop \<and> scanline_ptr c = Scanline_memcpy then Rect_memcpy else Rect_generic)\<rparr>"

definition init_y :: "context_t \<Rightarrow> int \<Rightarrow> context_t option" where
  "init_y c ys = do {
     let c = upd_iterators (\<lambda>ci. ci\<lparr>it_y := ys\<rparr>) c;
     c \<leftarrow> init_y_color ys (init_y_depth ys c);
     c \<leftarrow> init_y_units ys (init_y_generated c);
     Some (choose_rect (c\<lparr>step_y_ptr := choose_step_y (enables (state c))\<rparr>))
   }"

definition init_y_noop :: "context_t \<Rightarrow> int \<Rightarrow> context_t" where
  "init_y_noop c y0 = choose_rect ((upd_iterators (\<lambda>ci. ci\<lparr>it_y := y0\<rparr>) c)\<lparr>step_y_ptr := Step_y_nop\<rparr>)"

definition init_y_packed :: "context_t \<Rightarrow> int \<Rightarrow> context_t option" where
  "init_y_packed c y0 =
     (let sh = shade c in do {
        p \<leftarrow> ggl_pack_color (sf_format (fb_color (buffers (state c)))) (sh_r0 sh) (sh_g0 sh) (sh_b0 sh) (sh_a0 sh);
        p8888 \<leftarrow> ggl_pack_color GGL_PIXEL_FORMAT_RGBA_8888 (sh_r0 sh) (sh_g0 sh) (sh_b0 sh) (sh_a0 sh);
        Some (init_y_noop (c\<lparr>packed := p, packed8888 := p8888\<rparr>) y0)
      })"

definition init_y_error :: "context_t \<Rightarrow> int \<Rightarrow> context_t" where
  "init_y_error c y0 = init_y_noop c y0"

text \<open>The call through \<^verbatim>\<open>c->init_y\<close>.\<close>

definition call_init_y :: "context_t \<Rightarrow> int \<Rightarrow> context_t option" where
  "call_init_y c ys = (case init_y_ptr c of
     No_init_y \<Rightarrow> None | Init_y \<Rightarrow> init_y c ys | Init_y_noop \<Rightarrow> Some (init_y_noop c ys)
   | Init_y_packed \<Rightarrow> init_y_packed c ys | Init_y_error \<Rightarrow> Some (init_y_error c ys))"

subsection \<open>Steppers\<close>

definition step_unit :: "nat \<Rightarrow> context_t \<Rightarrow> context_t" where
  "step_unit i c =
     (if tx_enable (texture (state c) ! i) then
        upd_tmu i (\<lambda>t. t\<lparr>tx_iterators := (tx_iterators t)\<lparr>
          ti_ydsdy := s32 (ti_ydsdy (tx_iterators t) + ti_dsdy (tx_iterators t)),
          ti_ydtdy := s32 (ti_ydtdy (tx_iterators t) + ti_dtdy (tx_iterators t))\<rparr>\<rparr>) c
      else c)"

definition step_units :: "context_t \<Rightarrow> context_t" where
  "step_units c = step_unit 1 (step_unit 0 c)"

definition step_colors :: "shade_t \<Rightarrow> iterators_t \<Rightarrow> iterators_t" where
  "step_colors sh ci = ci\<lparr>it_ydrdy := s32 (it_ydrdy ci + sh_drdy sh), it_ydgdy := s32 (it_ydgdy ci + sh_dgdy sh),
     it_ydbdy := s32 (it_ydbdy ci + sh_dbdy sh), it_ydady := s32 (it_ydady ci + sh_dady sh)\<rparr>"

definition step_row :: "iterators_t \<Rightarrow> iterators_t" where
  "step_row ci = ci\<lparr>it_y := s32 (it_y ci + 1)\<rparr>"

definition step_z :: "shade_t \<Rightarrow> iterators_t \<Rightarrow> iterators_t" where
  "step_z sh ci = ci\<lparr>it_ydzdy := s32 (it_ydzdy ci + sh_dzdy sh)\<rparr>"

definition step_w :: "shade_t \<Rightarrow> iterators_t \<Rightarrow> iterators_t" where
  "step_w sh ci = ci\<lparr>it_ydwdy := s32 (it_ydwdy ci + sh_dwdy sh)\<rparr>"

definition step_f :: "shade_t \<Rightarrow> iterators_t \<Rightarrow> iterators_t" where
  "step_f sh ci = ci\<lparr>it_ydfdy := s32 (it_ydfdy ci + sh_dfdy sh)\<rparr>"

definition step_y_generic :: "context_t \<Rightarrow> context_t" where
  "step_y_generic c =
     (let en = enables (state c); sh = shade c;
          c = upd_iterators step_row c;
          c = (if has_flag en GGL_ENABLE_SMOOTH then upd_iterators (step_colors sh) c else c);
          c = (if has_flag en (GGL_ENABLE_DEPTH_TEST OR GGL_ENABLE_W OR GGL_ENABLE_FOG)
               then upd_iterators (step_f sh \<circ> step_w sh \<circ> step_z sh) c else c)
      in if has_flag en GGL_ENABLE_TMUS \<and> \<not> has_flag en GGL_ENABLE_W then step_units c else c)"

definition step_y_nop :: "context_t \<Rightarrow> context_t" where
  "step_y_nop c = upd_iterators (step_z (shade c) \<circ> step_row) c"

definition step_y_smooth :: "context_t \<Rightarrow> context_t" where
  "step_y_smooth c = upd_iterators (step_z (shade c) \<circ> step_colors (shade c) \<circ> step_row) c"

definition step_y_w :: "context_t \<Rightarrow> context_t" where
  "step_y_w c = upd_iterators (step_w (shade c) \<circ> step_z (shade c) \<circ> step_row) c"

definition step_y_tmu :: "context_t \<Rightarrow> context_t" where
  "step_y_tmu c = step_units (upd_iterators (step_z (shade c) \<circ> step_row) c)"

text \<open>The call through \<^verbatim>\<open>c->step_y\<close>.\<close>

definition call_step_y :: "context_t \<Rightarrow> context_t option" where
  "call_step_y c = (case step_y_ptr c of
     No_step_y \<Rightarrow> None | Step_y_generic \<Rightarrow> Some (step_y_generic c) | Step_y_nop \<Rightarrow> Some (step_y_nop c)
   | Step_y_smooth \<Rightarrow> Some (step_y_smooth c) | Step_y_tmu \<Rightarrow> Some (step_y_tmu c) | Step_y_w \<Rightarrow> Some (step_y_w c))"

subsection \<open>Stepping and initialising agree\<close>

fun row_steps :: "nat \<Rightarrow> context_t \<Rightarrow> context_t option" where
  "row_steps 0 c = Some c"
| "row_steps (Suc k) c = Option.bind (call_step_y c) (row_steps k)"

text \<open>The iterators that the drawing code reads in the enabled modes are equal.\<close>

definition same_row :: "context_t \<Rightarrow> context_t \<Rightarrow> bool" where
  "same_row c c' \<longleftrightarrow>
     (let en = enables (state c); ci = iterators c; ci' = iterators c' in
      it_y ci = it_y ci' \<and>
      it_ydrdy ci = it_ydrdy ci' \<and> it_ydgdy ci = it_ydgdy ci' \<and> it_ydbdy ci = it_ydbdy ci' \<and> it_ydady ci = it_ydady ci' \<and>
      (has_flag en (GGL_ENABLE_DEPTH_TEST OR GGL_ENABLE_W OR GGL_ENABLE_FOG) \<longrightarrow> it_ydzdy ci = it_ydzdy ci') \<and>
      (has_flag en GGL_ENABLE_W \<and> has_flag en GGL_ENABLE_TMUS \<longrightarrow> it_ydwdy ci = it_ydwdy ci') \<and>
      (has_flag en GGL_ENABLE_FOG \<longrightarrow> it_ydfdy ci = it_ydfdy ci') \<and>
      (has_flag en GGL_ENABLE_TMUS \<and> \<not> has_flag en GGL_ENABLE_W \<longrightarrow>
         (\<forall>i < 2. tx_enable (texture (state c) ! i) \<longrightarrow>
            tx_iterators (texture (state c) ! i) = tx_iterators (texture (state c') ! i))))"

text \<open>A unit whose coordinates lose no bits: one-to-one, or with scales that are not negative.\<close>

definition unit_exact :: "texture_t \<Rightarrow> bool" where
  "unit_exact t \<longleftrightarrow>
     (if tx_s_coord t = GGL_ONE_TO_ONE \<and> tx_t_coord t = GGL_ONE_TO_ONE
      then in_s32 (is0 (tx_shade t)) \<and> in_s32 (it0 (tx_shade t))
      else 0 \<le> s32 (sscale (tx_shade t) + (if tx_s_wrap t = GGL_CLAMP then 0 else 16)) \<and>
           0 \<le> s32 (tscale (tx_shade t) + (if tx_t_wrap t = GGL_CLAMP then 0 else 16)))"

lemma s32_mult_left: "s32 (s32 x * y) = s32 (x * y)"
proof -
  have "(s32 x * y + 2 ^ 31) mod 2 ^ 32 = (x * y + 2 ^ 31) mod 2 ^ 32"
  proof -
    have "s32 x mod 2 ^ 32 = x mod 2 ^ 32" by (simp add: s32_def mod_simps)
    then show ?thesis by (metis mod_add_left_eq mod_mult_left_eq)
  qed
  then show ?thesis by (simp add: s32_def)
qed

lemma s32_cong_add2: "s32 (x + s32 y) = s32 (x + y)"
  using s32_cong_add [of y x] by (simp add: add.commute)

lemma interpolate_step: "s32 (interpolate y v0 dvdx dvdy + dvdy) = interpolate (y + 1) v0 dvdx dvdy"
  unfolding interpolate_def s32_cong_add by (simp add: algebra_simps)

lemma scale_step:
  assumes "0 \<le> sc" "scale_by sc (interpolate y v0 dx dy) = Some a" "scale_by sc dy = Some d"
  shows "scale_by sc (interpolate (y + 1) v0 dx dy) = Some (s32 (a + d))"
proof -
  have sc: "sc < 32" using assms by (simp add: scale_by_def split: if_splits)
  have a: "a = s32 (interpolate y v0 dx dy * 2 ^ nat sc)" "d = s32 (dy * 2 ^ nat sc)"
    using assms sc by (simp_all add: scale_by_def)
  have "s32 (a + d) = s32 ((interpolate y v0 dx dy + dy) * 2 ^ nat sc)"
    unfolding a s32_cong_add s32_cong_add2 distrib_right ..
  also have "\<dots> = s32 (interpolate (y + 1) v0 dx dy * 2 ^ nat sc)"
    unfolding interpolate_step [symmetric] by (simp add: s32_mult_left)
  finally show ?thesis using assms(1) sc by (simp add: scale_by_def)
qed

definition step_iterators :: "texture_iterators_t \<Rightarrow> texture_iterators_t" where
  "step_iterators ti = ti\<lparr>ti_ydsdy := s32 (ti_ydsdy ti + ti_dsdy ti), ti_ydtdy := s32 (ti_ydtdy ti + ti_dtdy ti)\<rparr>"

lemma unit_step:
  assumes ex: "unit_exact t" and u: "unit_iterators False y t = Some ti"
  shows "unit_iterators False (y + 1) t = Some (step_iterators ti)"
proof (cases "tx_s_coord t = GGL_ONE_TO_ONE \<and> tx_t_coord t = GGL_ONE_TO_ONE")
  case True
  then show ?thesis using u ex by (auto simp: unit_iterators_def unit_exact_def step_iterators_def s32_id Let_def)
next
  case False
  let ?sh = "tx_shade t"
  let ?ss = "s32 (sscale ?sh + (if tx_s_wrap t = GGL_CLAMP then 0 else 16))"
  let ?ts = "s32 (tscale ?sh + (if tx_t_wrap t = GGL_CLAMP then 0 else 16))"
  have sg: "0 \<le> ?ss" "0 \<le> ?ts" using ex False by (simp_all add: unit_exact_def)
  obtain a b d e f g where
    s: "scale_by ?ss (interpolate y (is0 ?sh) (idsdx ?sh) (idsdy ?sh)) = Some a" "scale_by ?ss (idsdx ?sh) = Some b"
      "scale_by ?ss (idsdy ?sh) = Some d"
    and t: "scale_by ?ts (interpolate y (it0 ?sh) (idtdx ?sh) (idtdy ?sh)) = Some e" "scale_by ?ts (idtdx ?sh) = Some f"
      "scale_by ?ts (idtdy ?sh) = Some g"
    and ti: "ti = (tx_iterators t)\<lparr>ti_sscale := ?ss, ti_tscale := ?ts, ti_ydsdy := a, ti_dsdx := b, ti_dsdy := d,
      ti_ydtdy := e, ti_dtdx := f, ti_dtdy := g\<rparr>"
    using u unfolding unit_iterators_def Let_def if_not_P [OF False] if_False
    by (elim bind_eq_Some_conv [THEN iffD1, elim_format] exE conjE) simp
  show ?thesis
    unfolding unit_iterators_def Let_def if_not_P [OF False]
    using s t scale_step [OF sg(1) s(1,3)] scale_step [OF sg(2) t(1,3)]
    by (simp add: ti step_iterators_def)
qed

text \<open>What the iterators are on row \<open>y\<close> of a primitive set up in \<open>c\<close>.\<close>

definition color_at :: "bool \<Rightarrow> shade_t \<Rightarrow> int \<Rightarrow> iterators_t \<Rightarrow> bool" where
  "color_at smooth sh y ci \<longleftrightarrow>
     it_ydrdy ci = (if smooth then interpolate y (sh_r0 sh) (sh_drdx sh) (sh_drdy sh) else sh_r0 sh) \<and>
     it_ydgdy ci = (if smooth then interpolate y (sh_g0 sh) (sh_dgdx sh) (sh_dgdy sh) else sh_g0 sh) \<and>
     it_ydbdy ci = (if smooth then interpolate y (sh_b0 sh) (sh_dbdx sh) (sh_dbdy sh) else sh_b0 sh) \<and>
     it_ydady ci = (if smooth then interpolate y (sh_a0 sh) (sh_dadx sh) (sh_dady sh) else sh_a0 sh)"

definition depth_at :: "u32 \<Rightarrow> shade_t \<Rightarrow> int \<Rightarrow> iterators_t \<Rightarrow> bool" where
  "depth_at en sh y ci \<longleftrightarrow>
     (bit en 7 \<or> bit en 9 \<or> bit en 11 \<longrightarrow> it_ydzdy ci = interpolate y (uint (sh_z0 sh)) (sh_dzdx sh) (sh_dzdy sh)) \<and>
     (bit en 9 \<and> bit en 6 \<longrightarrow> it_ydwdy ci = interpolate y (sh_w0 sh) (sh_dwdx sh) (sh_dwdy sh)) \<and>
     (bit en 11 \<longrightarrow> it_ydfdy ci = interpolate y (uint (sh_f0 sh)) (sh_dfdx sh) (sh_dfdy sh))"

definition units_at :: "u32 \<Rightarrow> texture_t list \<Rightarrow> int \<Rightarrow> texture_t list \<Rightarrow> bool" where
  "units_at en ts y ts' \<longleftrightarrow> length ts' = 2 \<and> (\<forall>i < 2. tx_enable (ts' ! i) = tx_enable (ts ! i)) \<and>
     (bit en 6 \<and> \<not> bit en 9 \<longrightarrow>
        (\<forall>i < 2. tx_enable (ts ! i) \<longrightarrow> unit_iterators False y (ts ! i) = Some (tx_iterators (ts' ! i))))"

definition at_row :: "context_t \<Rightarrow> int \<Rightarrow> context_t \<Rightarrow> bool" where
  "at_row c y ck \<longleftrightarrow>
     shade ck = shade c \<and> enables (state ck) = enables (state c) \<and> step_y_ptr ck = choose_step_y (enables (state c)) \<and>
     it_y (iterators ck) = y \<and> color_at (bit (enables (state c)) 1) (shade c) y (iterators ck) \<and>
     depth_at (enables (state c)) (shade c) y (iterators ck) \<and>
     units_at (enables (state c)) (texture (state c)) y (texture (state ck))"

lemma has_flag_or: "has_flag w (a OR b) \<longleftrightarrow> has_flag w a \<or> has_flag w b"
  by (auto simp: has_flag_def word_bw_lcs(1) bit_eq_iff bit_simps)


lemma upd_iterators_simps [simp]:
  "iterators (upd_iterators f c) = f (iterators c)" "state (upd_iterators f c) = state c" "shade (upd_iterators f c) = shade c"
  "step_y_ptr (upd_iterators f c) = step_y_ptr c" "scanline_ptr (upd_iterators f c) = scanline_ptr c"
  "memory (upd_iterators f c) = memory c" "generated_tex (upd_iterators f c) = generated_tex c"
  by (simp_all add: upd_iterators_def)

lemma upd_tmu_simps [simp]:
  "iterators (upd_tmu i f c) = iterators c" "shade (upd_tmu i f c) = shade c" "step_y_ptr (upd_tmu i f c) = step_y_ptr c"
  "enables (state (upd_tmu i f c)) = enables (state c)" "memory (upd_tmu i f c) = memory c"
  "texture (state (upd_tmu i f c)) = (texture (state c))[i := f (texture (state c) ! i)]"
  by (simp_all add: upd_tmu_def upd_state_def)

lemma step_unit_simps [simp]:
  "iterators (step_unit i c) = iterators c" "shade (step_unit i c) = shade c" "step_y_ptr (step_unit i c) = step_y_ptr c"
  "enables (state (step_unit i c)) = enables (state c)" "length (texture (state (step_unit i c))) = length (texture (state c))"
  by (simp_all add: step_unit_def)

lemma step_units_simps [simp]:
  "iterators (step_units c) = iterators c" "shade (step_units c) = shade c" "step_y_ptr (step_units c) = step_y_ptr c"
  "enables (state (step_units c)) = enables (state c)" "length (texture (state (step_units c))) = length (texture (state c))"
  by (simp_all add: step_units_def)

lemma step_units_nth:
  assumes "length (texture (state c)) = 2" "i < 2"
  shows "texture (state (step_units c)) ! i =
    (let t = texture (state c) ! i in if tx_enable t then t\<lparr>tx_iterators := step_iterators (tx_iterators t)\<rparr> else t)"
proof -
  have "i = 0 \<or> i = 1" using assms(2) by auto
  then show ?thesis using assms(1)
    by (elim disjE) (simp_all add: step_units_def step_unit_def Let_def nth_list_update step_iterators_def)
qed


lemmas step_defs = step_row_def step_colors_def step_z_def step_w_def step_f_def

lemma row_flags [simp]: "has_flag en 0xA80 \<longleftrightarrow> bit en 7 \<or> bit en 9 \<or> bit en 11"
proof -
  have "has_flag en (GGL_ENABLE_DEPTH_TEST OR GGL_ENABLE_W OR GGL_ENABLE_FOG) \<longleftrightarrow> bit en 7 \<or> bit en 9 \<or> bit en 11"
    by (simp only: has_flag_or has_flag_bits disj_assoc)
  then show ?thesis by simp
qed

lemma units_step:
  assumes r: "units_at en ts y (texture (state ck))" and ex: "\<forall>i < 2. tx_enable (ts ! i) \<longrightarrow> unit_exact (ts ! i)"
    and u: "texture (state ck') = texture (state (step_units ck))"
  shows "units_at en ts (y + 1) (texture (state ck'))"
proof -
  have l: "length (texture (state ck)) = 2"
    and e: "\<And>i. i < 2 \<Longrightarrow> tx_enable (texture (state ck) ! i) = tx_enable (ts ! i)"
    and v: "\<And>i. bit en 6 \<and> \<not> bit en 9 \<Longrightarrow> i < 2 \<Longrightarrow> tx_enable (ts ! i) \<Longrightarrow>
       unit_iterators False y (ts ! i) = Some (tx_iterators (texture (state ck) ! i))"
    using r by (simp_all add: units_at_def)
  show ?thesis unfolding units_at_def u
  proof (intro conjI allI impI)
    show "length (texture (state (step_units ck))) = 2" using l by simp
    show "tx_enable (texture (state (step_units ck)) ! i) = tx_enable (ts ! i)" if "i < 2" for i
      using that e l by (simp add: step_units_nth Let_def)
    show "unit_iterators False (y + 1) (ts ! i) = Some (tx_iterators (texture (state (step_units ck)) ! i))"
      if "bit en 6 \<and> \<not> bit en 9" "i < 2" "tx_enable (ts ! i)" for i
      using unit_step [OF _ v [OF that]] ex that e l by (simp add: step_units_nth Let_def)
  qed
qed

lemma units_idle:
  "units_at en ts y ts' \<Longrightarrow> \<not> (bit en 6 \<and> \<not> bit en 9) \<Longrightarrow> units_at en ts (y + 1) ts'"
  by (auto simp: units_at_def)

lemma color_step: "color_at True sh y ci \<Longrightarrow> color_at True sh (y + 1) (step_colors sh ci)"
  by (simp add: color_at_def step_colors_def interpolate_step)

lemma color_idle: "color_at False sh y ci \<Longrightarrow> color_at False sh (y + 1) ci"
  by (simp add: color_at_def)

lemma color_at_other [simp]:
  "color_at b sh y (step_row ci) = color_at b sh y ci" "color_at b sh y (step_z sh' ci) = color_at b sh y ci"
  "color_at b sh y (step_w sh' ci) = color_at b sh y ci" "color_at b sh y (step_f sh' ci) = color_at b sh y ci"
  by (simp_all add: color_at_def step_defs)

lemma depth_at_other [simp]:
  "depth_at en sh y (step_row ci) = depth_at en sh y ci" "depth_at en sh y (step_colors sh' ci) = depth_at en sh y ci"
  by (simp_all add: depth_at_def step_defs)

lemma depth_step:
  assumes "depth_at en sh y ci"
  shows "depth_at en sh (y + 1) (step_f sh (step_w sh (step_z sh ci)))"
    "\<not> bit en 11 \<Longrightarrow> depth_at en sh (y + 1) (step_w sh (step_z sh ci))"
    "\<not> bit en 11 \<Longrightarrow> \<not> (bit en 9 \<and> bit en 6) \<Longrightarrow> depth_at en sh (y + 1) (step_z sh ci)"
    "\<not> (bit en 7 \<or> bit en 9 \<or> bit en 11) \<Longrightarrow> depth_at en sh (y + 1) ci"
  using assms by (auto simp: depth_at_def step_defs interpolate_step)

lemma step_y_other [simp]:
  "it_y (step_row ci) = s32 (it_y ci + 1)" "it_y (step_colors sh ci) = it_y ci" "it_y (step_z sh ci) = it_y ci"
  "it_y (step_w sh ci) = it_y ci" "it_y (step_f sh ci) = it_y ci"
  by (simp_all add: step_defs)

text \<open>One step: the stepper's choice keeps every iterator that matters on the next row.\<close>

lemma at_row_step:
  assumes r: "at_row c y ck" and y: "in_s32 (y + 1)"
    and ex: "\<forall>i < 2. tx_enable (texture (state c) ! i) \<longrightarrow> unit_exact (texture (state c) ! i)"
  shows "\<exists>ck'. call_step_y ck = Some ck' \<and> at_row c (y + 1) ck'"
proof -
  let ?en = "enables (state c)"
  have s: "shade ck = shade c" "enables (state ck) = ?en" "step_y_ptr ck = choose_step_y ?en" "it_y (iterators ck) = y"
    and co: "color_at (bit ?en 1) (shade c) y (iterators ck)" and de: "depth_at ?en (shade c) y (iterators ck)"
    and un: "units_at ?en (texture (state c)) y (texture (state ck))"
    using r by (simp_all add: at_row_def)
  note us = units_step [OF un ex] and ui = units_idle [OF un] and ds = depth_step [OF de]
  note step = s32_id [OF y]
  have t: "texture (state (step_units (upd_iterators f x))) = texture (state (step_units x))" for f x
    by (simp add: step_units_def step_unit_def)
  have col: "color_at (bit ?en 1) (shade c) (y + 1) (if bit ?en 1 then step_colors (shade c) (iterators ck) else iterators ck)"
    using co color_step color_idle by (cases "bit ?en 1") simp_all
  consider (generic) "step_y_ptr ck = Step_y_generic" "bit ?en 11 \<or> bit ?en 6 \<and> bit ?en 1"
    | (w) "step_y_ptr ck = Step_y_w" "\<not> bit ?en 11" "bit ?en 6" "\<not> bit ?en 1" "bit ?en 9"
    | (tmu) "step_y_ptr ck = Step_y_tmu" "\<not> bit ?en 11" "bit ?en 6" "\<not> bit ?en 1" "\<not> bit ?en 9"
    | (smooth) "step_y_ptr ck = Step_y_smooth" "\<not> bit ?en 11" "\<not> bit ?en 6" "bit ?en 1"
    | (nop) "step_y_ptr ck = Step_y_nop" "\<not> bit ?en 11" "\<not> bit ?en 6" "\<not> bit ?en 1"
    using s(3) by (cases "bit ?en 11"; cases "bit ?en 6"; cases "bit ?en 1"; cases "bit ?en 9") (simp_all add: choose_step_y_def)
  then show ?thesis
  proof cases
    case generic
    let ?ci = "if bit ?en 1 then step_colors (shade c) (step_row (iterators ck)) else step_row (iterators ck)"
    have i: "iterators (step_y_generic ck) =
        (if bit ?en 7 \<or> bit ?en 9 \<or> bit ?en 11 then step_f (shade c) (step_w (shade c) (step_z (shade c) ?ci)) else ?ci)"
      using s by (simp add: step_y_generic_def Let_def step)
    have "texture (state (step_y_generic ck)) = (if bit ?en 6 \<and> \<not> bit ?en 9 then texture (state (step_units ck)) else texture (state ck))"
      using s by (simp add: step_y_generic_def Let_def step t)
    then have "units_at ?en (texture (state c)) (y + 1) (texture (state (step_y_generic ck)))"
      using us [OF refl] ui by (cases "bit ?en 6 \<and> \<not> bit ?en 9") simp_all
    moreover have "color_at (bit ?en 1) (shade c) (y + 1) (iterators (step_y_generic ck))"
      unfolding i using col by (simp add: color_at_def step_defs split: if_splits)
    moreover have "depth_at ?en (shade c) (y + 1) (iterators (step_y_generic ck))"
      unfolding i using de ds by (simp add: depth_at_def step_defs interpolate_step)
    moreover have "it_y (iterators (step_y_generic ck)) = y + 1" unfolding i using s step by simp
    ultimately have "at_row c (y + 1) (step_y_generic ck)"
      using s by (simp add: at_row_def step_y_generic_def Let_def step)
    then show ?thesis using generic by (simp add: call_step_y_def)
  next
    case w
    have "at_row c (y + 1) (step_y_w ck)" using w s ui ds(2) col by (simp add: at_row_def step_y_w_def step depth_at_def step_defs color_at_def)
    then show ?thesis using w by (simp add: call_step_y_def)
  next
    case tmu
    have "at_row c (y + 1) (step_y_tmu ck)"
      using tmu s us [of "step_y_tmu ck"] ds(3) col by (simp add: at_row_def step_y_tmu_def step t depth_at_def step_defs color_at_def)
    then show ?thesis using tmu by (simp add: call_step_y_def)
  next
    case smooth
    have "at_row c (y + 1) (step_y_smooth ck)" using smooth s ui ds(3) col
      by (simp add: at_row_def step_y_smooth_def step depth_at_def step_defs color_at_def)
    then show ?thesis using smooth by (simp add: call_step_y_def)
  next
    case nop
    have "at_row c (y + 1) (step_y_nop ck)" using nop s ui ds(3) col
      by (simp add: at_row_def step_y_nop_def step depth_at_def step_defs color_at_def)
    then show ?thesis using nop by (simp add: call_step_y_def)
  qed
qed


lemma at_row_steps:
  assumes "at_row c y ck" "in_s32 y" "in_s32 (y + int k)"
    "\<forall>i < 2. tx_enable (texture (state c) ! i) \<longrightarrow> unit_exact (texture (state c) ! i)"
  shows "\<exists>ck'. row_steps k ck = Some ck' \<and> at_row c (y + int k) ck'"
  using assms
proof (induction k arbitrary: y ck)
  case 0
  then show ?case by simp
next
  case (Suc k)
  have "in_s32 (y + 1)" using Suc.prems(2,3) by (simp add: in_s32_def)
  then obtain c1 where c1: "call_step_y ck = Some c1" "at_row c (y + 1) c1"
    using at_row_step [OF Suc.prems(1)] Suc.prems(4) by blast
  have "in_s32 (y + 1 + int k)" using Suc.prems(3) by (simp add: add.assoc)
  then obtain c2 where "row_steps k c1 = Some c2" "at_row c (y + 1 + int k) c2"
    using Suc.IH [OF c1(2) \<open>in_s32 (y + 1)\<close> _ Suc.prems(4)] by blast
  then show ?case using c1(1) by (simp add: add.assoc)
qed

text \<open>The initialiser establishes its row.\<close>

lemma unit_iterators_None: "unit_iterators w y t = None \<longleftrightarrow> unit_iterators w y' t = None"
  by (simp add: unit_iterators_def Let_def scale_by_def)

lemma init_unit:
  assumes u: "init_y_unit y i c = Some c'" and l: "length (texture (state c)) = 2" and i: "i < 2"
  shows "iterators c' = iterators c" "shade c' = shade c" "enables (state c') = enables (state c)"
    "length (texture (state c')) = 2" "\<And>j. j < 2 \<Longrightarrow> j \<noteq> i \<Longrightarrow> texture (state c') ! j = texture (state c) ! j"
    "tx_enable (texture (state c') ! i) = tx_enable (texture (state c) ! i)"
    "tx_enable (texture (state c) ! i) \<Longrightarrow>
       unit_iterators (has_flag (enables (state c)) GGL_ENABLE_W) y (texture (state c) ! i) = Some (tx_iterators (texture (state c') ! i))"
proof -
  let ?t = "texture (state c) ! i"
  consider "\<not> tx_enable ?t" "c' = c" |
    ti g where "tx_enable ?t" "unit_iterators (has_flag (enables (state c)) GGL_ENABLE_W) y ?t = Some ti"
      "c' = (upd_tmu i (\<lambda>t. t\<lparr>tx_iterators := ti\<rparr>) c)\<lparr>generated_tex := g\<rparr>"
    using u unfolding init_y_unit_def Let_def by (auto simp: bind_eq_Some_conv split: if_splits)
  note c' = this
  show "iterators c' = iterators c" by (cases rule: c') simp_all
  show "shade c' = shade c" by (cases rule: c') simp_all
  show "enables (state c') = enables (state c)" by (cases rule: c') simp_all
  show "length (texture (state c')) = 2" by (cases rule: c') (simp_all add: l)
  show "texture (state c') ! j = texture (state c) ! j" if "j < 2" "j \<noteq> i" for j using that by (cases rule: c') simp_all
  show "tx_enable (texture (state c') ! i) = tx_enable ?t" by (cases rule: c') (simp_all add: l i)
  show "unit_iterators (has_flag (enables (state c)) GGL_ENABLE_W) y ?t = Some (tx_iterators (texture (state c') ! i))"
    if "tx_enable ?t" using that by (cases rule: c') (simp_all add: l i)
qed

lemma init_units:
  assumes u: "init_y_units y c = Some c'" and l: "length (texture (state c)) = 2"
  shows "iterators c' = iterators c" "shade c' = shade c" "enables (state c') = enables (state c)"
    "units_at (enables (state c)) (texture (state c)) y (texture (state c'))"
proof -
  have "iterators c' = iterators c \<and> shade c' = shade c \<and> enables (state c') = enables (state c) \<and>
    units_at (enables (state c)) (texture (state c)) y (texture (state c'))"
  proof (cases "bit (enables (state c)) 6")
    case False
    then have "c' = c" using u by (simp add: init_y_units_def)
    then show ?thesis using l False by (simp add: units_at_def)
  next
    case True
    obtain c1 where a: "init_y_unit y 0 c = Some c1" and b: "init_y_unit y 1 c1 = Some c'"
      using u True by (auto simp: init_y_units_def bind_eq_Some_conv)
    note a = init_unit [OF a l, simplified] and b = init_unit [OF b, simplified]
    note b = b [OF a(4)]
    have e: "tx_enable (texture (state c') ! j) = tx_enable (texture (state c) ! j)" if "j < 2" for j
      using that a(5,6) b(5) [of 0] b(6) by (cases "j = 0") (auto simp: less_2_cases_iff)
    have "unit_iterators False y (texture (state c) ! j) = Some (tx_iterators (texture (state c') ! j))"
      if "\<not> bit (enables (state c)) 9" "j < 2" "tx_enable (texture (state c) ! j)" for j
      using that a(3,5,6,7) b(5) [of 0] b(7) by (cases "j = 0") (auto simp: less_2_cases_iff)
    then show ?thesis using a b e by (simp add: units_at_def)
  qed
  then show "iterators c' = iterators c" "shade c' = shade c" "enables (state c') = enables (state c)"
    "units_at (enables (state c)) (texture (state c)) y (texture (state c'))" by blast+
qed


lemma init_unit_None:
  "init_y_unit y i c = None \<longleftrightarrow>
     tx_enable (texture (state c) ! i) \<and> unit_iterators (has_flag (enables (state c)) GGL_ENABLE_W) 0 (texture (state c) ! i) = None"
  using unit_iterators_None [of _ y _ 0]
  by (simp add: init_y_unit_def Let_def bind_eq_None_conv del: has_flag_bits)

lemma init_units_None:
  assumes "length (texture (state c)) = 2" "texture (state c') = texture (state c)" "enables (state c') = enables (state c)"
  shows "init_y_units y c = None \<longleftrightarrow> init_y_units y' c' = None"
proof -
  have n: "init_y_units z d = None \<longleftrightarrow> bit (enables (state d)) 6 \<and>
      (\<exists>i \<in> {0, 1}. tx_enable (texture (state d) ! i) \<and> unit_iterators (bit (enables (state d)) 9) 0 (texture (state d) ! i) = None)"
    if l: "length (texture (state d)) = 2" for z d
  proof (cases "init_y_unit z 0 d")
    case None
    then show ?thesis using init_unit_None [of z 0 d] by (auto simp: init_y_units_def)
  next
    case (Some d1)
    note u = init_unit [OF Some l, simplified]
    have "\<not> (tx_enable (texture (state d) ! 0) \<and> unit_iterators (bit (enables (state d)) 9) 0 (texture (state d) ! 0) = None)"
      using Some init_unit_None [of z 0 d] by auto
    then show ?thesis using Some u(3) u(5) [of 1] by (auto simp: init_y_units_def init_unit_None)
  qed
  show ?thesis using n [of c y] n [of c' y'] assms by simp
qed

lemma init_y_depth_simps [simp]:
  "state (init_y_depth y c) = state c" "shade (init_y_depth y c) = shade c" "it_y (iterators (init_y_depth y c)) = it_y (iterators c)"
  by (simp_all add: init_y_depth_def Let_def)

lemma init_y_generated_simps [simp]:
  "state (init_y_generated c) = state c" "shade (init_y_generated c) = shade c" "iterators (init_y_generated c) = iterators c"
  by (simp_all add: init_y_generated_def Let_def)

lemma init_color:
  assumes "init_y_color y c = Some c'"
  shows "state c' = state c" "shade c' = shade c" "it_y (iterators c') = it_y (iterators c)"
    "depth_at en sh z (iterators c') = depth_at en sh z (iterators c)" "color_at (bit (enables (state c)) 1) (shade c) y (iterators c')"
  using assms by (auto simp: init_y_color_def Let_def bind_eq_Some_conv depth_at_def color_at_def split: if_splits)

lemma init_color_None:
  "shade c' = shade c \<Longrightarrow> state c' = state c \<Longrightarrow> init_y_color y c = None \<longleftrightarrow> init_y_color y' c' = None"
  by (simp add: init_y_color_def Let_def bind_eq_None_conv)

lemma init_depth: "depth_at (enables (state c)) (shade c) y (iterators (init_y_depth y c))"
  by (auto simp: init_y_depth_def Let_def depth_at_def)

lemma init_y_at_row:
  assumes iy: "init_y c y = Some c0" and l: "length (texture (state c)) = 2"
  shows "at_row c y c0"
proof -
  define c1 where "c1 = init_y_depth y (upd_iterators (\<lambda>ci. ci\<lparr>it_y := y\<rparr>) c)"
  obtain c2 c4 where c2: "init_y_color y c1 = Some c2" and c4: "init_y_units y (init_y_generated c2) = Some c4"
    and c0: "c0 = choose_rect (c4\<lparr>step_y_ptr := choose_step_y (enables (state c4))\<rparr>)"
    using iy by (auto simp: init_y_def Let_def bind_eq_Some_conv c1_def)
  have s1: "state c1 = state c" "shade c1 = shade c" "it_y (iterators c1) = y" by (simp_all add: c1_def)
  note f2 = init_color [OF c2]
  have l2: "length (texture (state (init_y_generated c2))) = 2" using f2(1) s1(1) l by simp
  note f4 = init_units [OF c4 l2, simplified]
  have d: "depth_at (enables (state c)) (shade c) y (iterators c1)"
    unfolding c1_def using init_depth [of "upd_iterators (\<lambda>ci. ci\<lparr>it_y := y\<rparr>) c" y] by simp
  show ?thesis unfolding at_row_def c0 choose_rect_def using f4 f2 s1 d by simp
qed

lemma init_y_defined:
  assumes iy: "init_y c y = Some c0" and l: "length (texture (state c)) = 2"
  shows "init_y c y' \<noteq> None"
proof -
  let ?d = "\<lambda>z. init_y_depth z (upd_iterators (\<lambda>ci. ci\<lparr>it_y := z\<rparr>) c)"
  obtain c2 where c2: "init_y_color y (?d y) = Some c2" and u: "init_y_units y (init_y_generated c2) \<noteq> None"
    using iy by (auto simp: init_y_def Let_def bind_eq_Some_conv)
  have "init_y_color y' (?d y') \<noteq> None" using init_color_None [of "?d y'" "?d y" y y'] c2 by simp
  then obtain c2' where c2': "init_y_color y' (?d y') = Some c2'" by blast
  have "init_y_units y' (init_y_generated c2') \<noteq> None"
    using u init_units_None [of "init_y_generated c2" "init_y_generated c2'" y y'] init_color(1) [OF c2] init_color(1) [OF c2'] l by simp
  then show ?thesis using c2' by (auto simp: init_y_def Let_def bind_eq_None_conv)
qed

subsection \<open>Properties\<close>

text \<open>C22. The rows of a primitive. Initialising the iterators at row \<open>ys\<close> and taking \<open>k\<close> steps with the
  stepper that \<^verbatim>\<open>init_y\<close> chose gives every iterator the drawing code reads in the enabled modes the value
  that initialising at row \<open>ys + k\<close> gives: depth, fog, perspective, the colours and the texture coordinates
  of the enabled units. The coordinates of a unit with a negative scale are excepted, they are rounded at
  each step. Wrap-around of the 32-bit iterators is included.\<close>

theorem rows_follow_init:
  assumes "init_y c ys = Some c0" "length (texture (state c)) = 2" "in_s32 ys" "in_s32 (ys + int k)"
    "\<forall>i < 2. tx_enable (texture (state c) ! i) \<longrightarrow> unit_exact (texture (state c) ! i)"
  shows "\<exists>ck c'. row_steps k c0 = Some ck \<and> init_y c (ys + int k) = Some c' \<and> same_row ck c'"
proof -
  have r0: "at_row c ys c0" by (rule init_y_at_row [OF assms(1,2)])
  obtain ck where ck: "row_steps k c0 = Some ck" "at_row c (ys + int k) ck"
    using at_row_steps [OF r0 assms(3-5)] by blast
  obtain c' where c': "init_y c (ys + int k) = Some c'" using init_y_defined [OF assms(1,2)] by blast
  have r': "at_row c (ys + int k) c'" by (rule init_y_at_row [OF c' assms(2)])
  have "same_row ck c'"
    using ck(2) r' unfolding same_row_def at_row_def Let_def
    by (auto simp: color_at_def depth_at_def units_at_def)
  then show ?thesis using ck(1) c' by blast
qed


definition demo_rows :: context_t where
  "demo_rows = (upd_state (\<lambda>s. s\<lparr>enables := 0x82\<rparr>) (context_zero (\<lambda>_. 0)))\<lparr>shade := shade_zero\<lparr>sh_drdy := 7, sh_dzdy := - 9\<rparr>\<rparr>"

lemma demo_rows_simps:
  "enables (state demo_rows) = 0x82" "texture (state demo_rows) = [texture_zero, texture_zero]"
  by (simp_all add: demo_rows_def upd_state_def)

theorem rows_follow_init_witness:
  "\<exists>c0 ck c'. init_y demo_rows 3 = Some c0 \<and> row_steps 2 c0 = Some ck \<and> init_y demo_rows 5 = Some c' \<and> same_row ck c'"
proof -
  obtain c0 where c0: "init_y demo_rows 3 = Some c0"
    by (simp add: init_y_def init_y_color_def init_y_units_def demo_rows_simps Let_def)
  have "\<not> tx_enable texture_zero" by (simp add: texture_zero_def)
  then have "\<exists>ck c'. row_steps 2 c0 = Some ck \<and> init_y demo_rows (3 + int 2) = Some c' \<and> same_row ck c'"
    using rows_follow_init [OF c0, of 2] by (simp add: demo_rows_simps in_s32_def nth_Cons split: nat.splits)
  then show ?thesis using c0 by auto
qed

end
