(* ===== verification/GGLPipeline.thy ===== *)
theory GGLPipeline
  imports GGLIter
begin

text \<open>
  The generic pixel pipeline: \<^verbatim>\<open>scanline\<close> of \<^verbatim>\<open>libpixelflinger/scanline.cpp\<close> with the functions it calls
  (\<^verbatim>\<open>rescale\<close>, \<^verbatim>\<open>blending\<close>, \<^verbatim>\<open>blendfactor\<close>, \<^verbatim>\<open>blend_factor\<close>, \<^verbatim>\<open>wrapping\<close>, \<^verbatim>\<open>ADJUST_COLOR_ITERATOR\<close>).
  Each stage of the loop body is one definition: the fragment colour, texturing of a unit, coverage, the
  alpha and depth tests, fog, blending, and the write. \<^term>\<open>None\<close> is a failed assertion, a shift by a
  count outside the word, a division by zero, or a read of a component that was never assigned.
\<close>

abbreviation (input) GGL_ZERO :: nat where "GGL_ZERO \<equiv> 0"
abbreviation (input) GGL_ONE :: nat where "GGL_ONE \<equiv> 1"
abbreviation (input) GGL_SRC_COLOR :: nat where "GGL_SRC_COLOR \<equiv> 0x0300"
abbreviation (input) GGL_ONE_MINUS_SRC_COLOR :: nat where "GGL_ONE_MINUS_SRC_COLOR \<equiv> 0x0301"
abbreviation (input) GGL_SRC_ALPHA :: nat where "GGL_SRC_ALPHA \<equiv> 0x0302"
abbreviation (input) GGL_ONE_MINUS_SRC_ALPHA :: nat where "GGL_ONE_MINUS_SRC_ALPHA \<equiv> 0x0303"
abbreviation (input) GGL_DST_COLOR :: nat where "GGL_DST_COLOR \<equiv> 0x0306"
abbreviation (input) GGL_ONE_MINUS_DST_COLOR :: nat where "GGL_ONE_MINUS_DST_COLOR \<equiv> 0x0307"
abbreviation (input) GGL_SRC_ALPHA_SATURATE :: nat where "GGL_SRC_ALPHA_SATURATE \<equiv> 0x0308"
abbreviation (input) GGL_EQUAL :: nat where "GGL_EQUAL \<equiv> 0x0202"
abbreviation (input) GGL_LEQUAL :: nat where "GGL_LEQUAL \<equiv> 0x0203"
abbreviation (input) GGL_GREATER :: nat where "GGL_GREATER \<equiv> 0x0204"
abbreviation (input) GGL_NOTEQUAL :: nat where "GGL_NOTEQUAL \<equiv> 0x0205"
abbreviation (input) GGL_GEQUAL :: nat where "GGL_GEQUAL \<equiv> 0x0206"

subsection \<open>Components and pixels\<close>

text \<open>A component: its value and its number of bits.\<close>

type_synonym comp = "u32 \<times> nat"

definition comp_at :: "pixel_t \<Rightarrow> nat \<Rightarrow> comp" where
  "comp_at px i = (px_c px ! i, px_s px ! i)"

definition set_comp :: "nat \<Rightarrow> comp \<Rightarrow> pixel_t \<Rightarrow> pixel_t" where
  "set_comp i v px = px\<lparr>px_c := (px_c px)[i := fst v], px_s := (px_s px)[i := snd v]\<rparr>"

definition set_c :: "nat \<Rightarrow> u32 \<Rightarrow> pixel_t \<Rightarrow> pixel_t" where
  "set_c i v px = px\<lparr>px_c := (px_c px)[i := v]\<rparr>"

definition pixel_zero :: pixel_t where
  "pixel_zero = \<lparr>px_c = [0, 0, 0, 0], px_s = [0, 0, 0, 0]\<rparr>"

text \<open>Brings two components to the larger of their sizes.\<close>

definition rescale :: "comp \<Rightarrow> comp \<Rightarrow> (comp \<times> comp) option" where
  "rescale u v = (case (u, v) of ((uc, su), (vc, sv)) \<Rightarrow>
     if su \<noteq> 0 \<and> sv \<noteq> 0 then
       if su > sv then do { vc \<leftarrow> ggl_expand vc (int sv) (int su); Some ((uc, su), (vc, su)) }
       else if su < sv then do { uc \<leftarrow> ggl_expand uc (int su) (int sv); Some ((uc, sv), (vc, sv)) }
       else Some (u, v)
     else Some (u, v))"

subsection \<open>Blending\<close>

definition blendfactor :: "u32 \<Rightarrow> nat \<Rightarrow> int \<Rightarrow> int option" where
  "blendfactor x sz def =
     (if sz = 0 then Some def
      else do {
        x \<leftarrow> (if sz > 16 then shr x (int sz - 16) else if sz < 16 then ggl_expand x (int sz) 16 else Some x);
        Some (s32 (uint (x + drop_bit 15 x)))
      })"

text \<open>The four factors, in the order alpha, red, green, blue; \<open>r\<close> is the value before the call (\<^term>\<open>None\<close>
  when nothing was assigned), which \<^verbatim>\<open>GGL_SRC_ALPHA_SATURATE\<close> and an unknown factor leave unchanged.\<close>

definition color_factor :: "pixel_t \<Rightarrow> u32 list option" where
  "color_factor px = do {
     r \<leftarrow> blendfactor (px_c px ! 1) (px_s px ! 1) 0;
     g \<leftarrow> blendfactor (px_c px ! 2) (px_s px ! 2) 0;
     b \<leftarrow> blendfactor (px_c px ! 3) (px_s px ! 3) 0;
     a \<leftarrow> blendfactor (px_c px ! 0) (px_s px ! 0) 0;
     Some [word_of_int a, word_of_int r, word_of_int g, word_of_int b]
   }"

definition alpha_factor :: "pixel_t \<Rightarrow> u32 list option" where
  "alpha_factor px = do {
     a \<leftarrow> blendfactor (px_c px ! 0) (px_s px ! 0) FIXED_ONE;
     Some (replicate 4 (word_of_int a))
   }"

definition one_minus :: "u32 list \<Rightarrow> u32 list" where
  "one_minus fs = map (\<lambda>f. 0x10000 - f) fs"

definition blend_factor :: "u32 list option \<Rightarrow> nat \<Rightarrow> pixel_t \<Rightarrow> pixel_t \<Rightarrow> u32 list option" where
  "blend_factor r factor src dst =
     (if factor = GGL_ZERO then Some (replicate 4 0)
      else if factor = GGL_ONE then Some (replicate 4 0x10000)
      else if factor = GGL_DST_COLOR then color_factor dst
      else if factor = GGL_SRC_COLOR then color_factor src
      else if factor = GGL_ONE_MINUS_DST_COLOR then map_option one_minus (color_factor dst)
      else if factor = GGL_ONE_MINUS_SRC_COLOR then map_option one_minus (color_factor src)
      else if factor = GGL_SRC_ALPHA then alpha_factor src
      else if factor = GGL_ONE_MINUS_SRC_ALPHA then map_option one_minus (alpha_factor src)
      else if factor = GGL_DST_ALPHA then alpha_factor dst
      else if factor = GGL_ONE_MINUS_DST_ALPHA then map_option one_minus (alpha_factor dst)
      else r)"

text \<open>\<^verbatim>\<open>fragment * sf + fb * df\<close> in 16.16 arithmetic; the words are read as \<^verbatim>\<open>GGLfixed\<close>.\<close>

definition blend_component :: "u32 \<Rightarrow> u32 \<Rightarrow> u32 \<Rightarrow> u32 \<Rightarrow> u32" where
  "blend_component f sf d df = word_of_int (gglMulAddx (sint f) (sint sf) (gglMulx (sint d) (sint df) 16) 16)"

definition clamp_component :: "nat \<Rightarrow> pixel_t \<Rightarrow> pixel_t" where
  "clamp_component i px =
     (let s = px_s px ! i in
      if s < 32 \<and> unat (px_c px ! i) \<ge> 2 ^ s then set_c i (push_bit s 1 - 1) px else px)"

definition rescale_pixels :: "nat \<Rightarrow> pixel_t \<times> pixel_t \<Rightarrow> (pixel_t \<times> pixel_t) option" where
  "rescale_pixels i p = do {
     (u, v) \<leftarrow> rescale (comp_at (fst p) i) (comp_at (snd p) i);
     Some (set_comp i u (fst p), set_comp i v (snd p))
   }"

definition blending :: "context_t \<Rightarrow> pixel_t \<Rightarrow> pixel_t \<Rightarrow> (pixel_t \<times> pixel_t) option" where
  "blending c fragment fb = (let bl = blend (state c) in do {
     p \<leftarrow> rescale_pixels 0 (fragment, fb);
     p \<leftarrow> rescale_pixels 1 p;
     p \<leftarrow> rescale_pixels 2 p;
     (fragment, fb) \<leftarrow> rescale_pixels 3 p;
     sf \<leftarrow> blend_factor None (bl_src bl) fragment fb;
     df \<leftarrow> blend_factor None (bl_dst bl) fragment fb;
     let fragment = set_c 1 (blend_component (px_c fragment ! 1) (sf ! 1) (px_c fb ! 1) (df ! 1)) fragment;
     let fragment = set_c 2 (blend_component (px_c fragment ! 2) (sf ! 2) (px_c fb ! 2) (df ! 2)) fragment;
     let fragment = set_c 3 (blend_component (px_c fragment ! 3) (sf ! 3) (px_c fb ! 3) (df ! 3)) fragment;
     sf \<leftarrow> (if bl_alpha_separate bl then blend_factor (Some sf) (bl_src_alpha bl) fragment fb else Some sf);
     df \<leftarrow> (if bl_alpha_separate bl then blend_factor (Some df) (bl_dst_alpha bl) fragment fb else Some df);
     let fragment = set_c 0 (blend_component (px_c fragment ! 0) (sf ! 0) (px_c fb ! 0) (df ! 0)) fragment;
     Some (clamp_component 3 (clamp_component 2 (clamp_component 1 (clamp_component 0 fragment))), fb)
   })"

subsection \<open>Texture coordinates\<close>

definition wrapping :: "int \<Rightarrow> u32 \<Rightarrow> nat \<Rightarrow> int" where
  "wrapping coord sz tx_wrap =
     (if tx_wrap = GGL_REPEAT then sint (drop_bit 16 (word_of_int coord) * sz)
      else if tx_wrap = GGL_CLAMP then
        let cmin = FIXED_HALF; cmax = sint (push_bit 16 sz - 0x8000);
            coord = (if coord < cmin then cmin else coord)
        in if coord > cmax then cmax else coord
      else
        let cmin = 0; cmax = sint (push_bit 16 sz);
            coord = (if coord < cmin then cmin else coord)
        in if coord > cmax then cmax else coord)"

definition ADJUST_COLOR_ITERATOR :: "int \<Rightarrow> int \<Rightarrow> int \<Rightarrow> int" where
  "ADJUST_COLOR_ITERATOR v dvdx len =
     (let e = s32 (dvdx * (len - 1) + v);
          v = (if e < 0 then s32 (v - e) else v)
      in v AND NOT (v div 2 ^ 31))"

text \<open>The call through \<^verbatim>\<open>surface.read\<close>.\<close>

definition call_read :: "context_t \<Rightarrow> surface_t \<Rightarrow> u32 \<Rightarrow> u32 \<Rightarrow> pixel_t \<Rightarrow> pixel_t option" where
  "call_read c s x y px = (case sf_read s of
     No_read \<Rightarrow> None | readABGR8888_proc \<Rightarrow> Some (readABGR8888 c s x y px)
   | readRGB565_proc \<Rightarrow> Some (readRGB565 c s x y px) | read_pixel_proc \<Rightarrow> read_pixel c s x y px)"

definition call_write :: "context_t \<Rightarrow> surface_t \<Rightarrow> u32 \<Rightarrow> u32 \<Rightarrow> pixel_t \<Rightarrow> context_t option" where
  "call_write c s x y px = (case sf_write s of No_write \<Rightarrow> None | write_pixel_proc \<Rightarrow> write_pixel c s x y px)"

text \<open>A texel index brought into the texture: by one period when the texture repeats, to the edge
  otherwise.\<close>

definition wrap_index :: "bool \<Rightarrow> int \<Rightarrow> int \<Rightarrow> int" where
  "wrap_index rep w u =
     (if rep then let u = (if u < 0 then s32 (u + w) else u) in if u \<ge> w then s32 (u - w) else u
      else let u = (if u < 0 then 0 else u) in if u \<ge> w then s32 (w - 1) else u)"

text \<open>The four weights of the bilinear filter, from the four fractional bits of the coordinates.\<close>

definition bilinear_weights :: "int \<Rightarrow> int \<Rightarrow> u32 list" where
  "bilinear_weights u v =
     (let u = (u div 2 ^ 12) AND 0xF; v = (v div 2 ^ 12) AND 0xF;
          u = u + u div 2 ^ 3; v = v + v div 2 ^ 3;
          m0 = word_of_int ((16 - u) * (16 - v)); m1 = word_of_int ((16 - u) * v); m2 = word_of_int (u * (16 - v))
      in [m0, m1, m2, 0x100 - (m0 + m1 + m2)])"

definition bilinear_component :: "u32 list \<Rightarrow> pixel_t list \<Rightarrow> pixel_t \<Rightarrow> nat \<Rightarrow> pixel_t" where
  "bilinear_component mm ts texel j =
     (let s = px_s (ts ! 0) ! j in
      if s = 0 then texel\<lparr>px_s := (px_s texel)[j := 0]\<rparr>
      else set_comp j (px_c (ts ! 0) ! j * mm ! 0 + px_c (ts ! 1) ! j * mm ! 1 +
             px_c (ts ! 2) ! j * mm ! 2 + px_c (ts ! 3) ! j * mm ! 3, s + 8) texel)"

definition read_texel :: "context_t \<Rightarrow> texture_t \<Rightarrow> int \<Rightarrow> int \<Rightarrow> pixel_t \<Rightarrow> pixel_t option" where
  "read_texel c tx u v texel =
     (let s = tx_surface tx in
      if tx_mag_filter tx = GGL_NEAREST \<and> tx_min_filter tx = GGL_NEAREST
      then call_read c s (word_of_int (u div 2 ^ 16)) (word_of_int (v div 2 ^ 16)) texel
      else
        let w = sint (sf_width s); h = sint (sf_height s);
            u = s32 (u - FIXED_HALF); v = s32 (v - FIXED_HALF);
            u0 = u div 2 ^ 16; v0 = v div 2 ^ 16;
            srep = (tx_s_wrap tx = GGL_REPEAT); trep = (tx_t_wrap tx = GGL_REPEAT);
            u1 = word_of_int (wrap_index srep w (u0 + 1)); u0 = word_of_int (wrap_index srep w u0);
            v1 = word_of_int (wrap_index trep h (v0 + 1)); v0 = word_of_int (wrap_index trep h v0)
        in do {
          t0 \<leftarrow> call_read c s u0 v0 pixel_zero;
          t1 \<leftarrow> call_read c s u0 v1 pixel_zero;
          t2 \<leftarrow> call_read c s u1 v0 pixel_zero;
          t3 \<leftarrow> call_read c s u1 v1 pixel_zero;
          Some (foldl (bilinear_component (bilinear_weights u v) [t0, t1, t2, t3]) texel [0, 1, 2, 3])
        })"

subsection \<open>Texture environment\<close>

text \<open>\<^verbatim>\<open>C + (C >> (s-1))\<close>, the value scaled so that all ones is a power of two.\<close>

definition env_factor :: "comp \<Rightarrow> u32 option" where
  "env_factor t = do { h \<leftarrow> shr (fst t) (int (snd t) - 1); Some (fst t + h) }"

text \<open>One component; \<open>i\<close> is the unit, whose number also selects the environment colour. The decal mode
  reads the texel's component even when the format has none: nothing was assigned to it.\<close>

definition env_component ::
  "texture_t \<Rightarrow> nat \<Rightarrow> nat \<Rightarrow> pixel_t \<times> pixel_t \<Rightarrow> (pixel_t \<times> pixel_t) option" where
  "env_component tx i j p = (case p of (fragment, texel) \<Rightarrow>
     let (cf, sf) = comp_at fragment j; (ct, st) = comp_at texel j; (at, sat) = comp_at texel 0 in
     if tx_env tx = GGL_REPLACE then
       Some (if st \<noteq> 0 then set_comp j (ct, st) fragment else fragment, texel)
     else if tx_env tx = GGL_MODULATE then
       if st \<noteq> 0 then do { k \<leftarrow> env_factor (ct, st); cf \<leftarrow> shr (cf * k) (int st); Some (set_c j cf fragment, texel) }
       else Some (fragment, texel)
     else if tx_env tx = GGL_DECAL then
       if sat \<noteq> 0 then
         if st = 0 then None
         else do {
           ((cf, sf), (ct, st)) \<leftarrow> rescale (cf, sf) (ct, st);
           k \<leftarrow> env_factor (at, sat);
           d \<leftarrow> shr ((ct - cf) * k) (int sat);
           Some (set_comp j (cf + d, sf) fragment, set_comp j (ct, st) texel)
         }
       else Some (fragment, texel)
     else if tx_env tx = GGL_BLEND then
       if st \<noteq> 0 then do {
         let cc = word_of_nat (tx_env_color tx ! i);
         cc \<leftarrow> (if sf > 8 then do { m \<leftarrow> shl 1 (int sf); Some (drop_bit 8 (cc * (m - 1))) }
               else if sf < 8 then do { a \<leftarrow> shr cc (8 - int sf); shr (cc - a) (8 - int sf) }
               else Some cc);
         k \<leftarrow> env_factor (ct, st);
         m \<leftarrow> shl 1 (int st);
         cf \<leftarrow> shr ((m - k) * cf + ct * cc) (int st);
         Some (set_c j cf fragment, texel)
       } else Some (fragment, texel)
     else if tx_env tx = GGL_ADD then
       if st \<noteq> 0 then do {
         ((cf, sf), (ct, st)) \<leftarrow> rescale (cf, sf) (ct, st);
         Some (set_comp j (cf + ct, sf) fragment, set_comp j (ct, st) texel)
       } else Some (fragment, texel)
     else Some (fragment, texel))"

definition texture_env :: "texture_t \<Rightarrow> nat \<Rightarrow> pixel_t \<times> pixel_t \<Rightarrow> (pixel_t \<times> pixel_t) option" where
  "texture_env tx i p = do {
     p \<leftarrow> env_component tx i 0 p;
     p \<leftarrow> env_component tx i 1 p;
     p \<leftarrow> env_component tx i 2 p;
     env_component tx i 3 p
   }"

subsection \<open>Stages of a pixel\<close>

type_synonym tex_coords = "(int \<times> int) list"

text \<open>The coordinates of a unit at the current pixel, and the unit's coordinates moved one pixel on.\<close>

definition unit_coords :: "texture_t \<Rightarrow> u32 \<Rightarrow> u32 \<Rightarrow> int \<times> int \<Rightarrow> (int \<times> int) \<times> (int \<times> int)" where
  "unit_coords tx x y st =
     (let ti = tx_iterators tx; sh = tx_shade tx; sf = tx_surface tx;
          (u, s) = (if tx_s_coord tx \<noteq> GGL_ONE_TO_ONE
                    then (wrapping (fst st) (sf_width sf) (tx_s_wrap tx), s32 (fst st + ti_dsdx ti))
                    else (sint (push_bit 16 (word_of_int (is0 sh div 2 ^ 16) + x) + 0x8000), fst st));
          (v, t) = (if tx_t_coord tx \<noteq> GGL_ONE_TO_ONE
                    then (wrapping (snd st) (sf_height sf) (tx_t_wrap tx), s32 (snd st + ti_dtdx ti))
                    else (sint (push_bit 16 (word_of_int (it0 sh div 2 ^ 16) + y) + 0x8000), snd st))
      in ((u, v), (s, t)))"

definition texture_unit ::
  "context_t \<Rightarrow> u32 \<Rightarrow> u32 \<Rightarrow> nat \<Rightarrow> tex_coords \<times> pixel_t \<times> pixel_t \<Rightarrow> (tex_coords \<times> pixel_t \<times> pixel_t) option" where
  "texture_unit c x y i p = (case p of (tc, fragment, texel) \<Rightarrow>
     let tx = texture (state c) ! i in
     if \<not> tx_enable tx then Some p
     else
       let ((u, v), st) = unit_coords tx x y (tc ! i) in do {
         texel \<leftarrow> read_texel c tx u v texel;
         (fragment, texel) \<leftarrow> texture_env tx i (fragment, texel);
         Some (tc[i := st], fragment, texel)
       })"

definition texturing :: "context_t \<Rightarrow> u32 \<Rightarrow> u32 \<Rightarrow> tex_coords \<times> pixel_t \<times> pixel_t \<Rightarrow> (tex_coords \<times> pixel_t \<times> pixel_t) option" where
  "texturing c x y p =
     (if has_flag (enables (state c)) GGL_ENABLE_TMUS
      then do { p \<leftarrow> texture_unit c x y 0 p; texture_unit c x y 1 p } else Some p)"

text \<open>The comparison of the alpha and of the depth test; \<^verbatim>\<open>GGL_ALWAYS\<close> has no case and passes.\<close>

definition test_passes :: "nat \<Rightarrow> int \<Rightarrow> int \<Rightarrow> bool" where
  "test_passes func v r =
     (if func = GGL_NEVER then False
      else if func = GGL_LESS then v < r
      else if func = GGL_EQUAL then v = r
      else if func = GGL_LEQUAL then v \<le> r
      else if func = GGL_GREATER then v > r
      else if func = GGL_NOTEQUAL then v \<noteq> r
      else if func = GGL_GEQUAL then v \<ge> r
      else True)"

definition apply_coverage :: "context_t \<Rightarrow> int \<Rightarrow> pixel_t \<Rightarrow> pixel_t" where
  "apply_coverage c cov fragment =
     (if has_flag (enables (state c)) GGL_ENABLE_AA
      then set_c 0 (word_of_int (uint (px_c fragment ! 0) * coverage c cov div 2 ^ 15)) fragment else fragment)"

definition alpha_test :: "context_t \<Rightarrow> pixel_t \<Rightarrow> bool option" where
  "alpha_test c fragment =
     (if has_flag (enables (state c)) GGL_ENABLE_ALPHA_TEST then do {
        m \<leftarrow> shl 1 (int (px_s fragment ! 0));
        if m = 1 then None
        else Some (test_passes (alpha_func (state c))
          (s32 (uint (px_c fragment ! 0) * (2 ^ 24 - 1) div uint (m - 1))) (alpha_ref (state c)))
      } else Some True)"

text \<open>The depth test, which also stores the new depth when it passes and the depth mask is set.\<close>

definition depth_test :: "context_t \<Rightarrow> u32 \<Rightarrow> u32 \<Rightarrow> int \<Rightarrow> bool \<times> context_t" where
  "depth_test c x y z =
     (let cb = fb_depth (buffers (state c)) in
      if sf_format cb \<noteq> 0 \<and> has_flag (enables (state c)) GGL_ENABLE_DEPTH_TEST then
        let p = fast_address cb 2 x y;
            zz = drop_bit 16 (word_of_int z :: u32);
            depth = load_pixel (memory c) p 2
        in if \<not> test_passes (depth_func (state c)) (uint zz) (uint depth) then (False, c)
           else (True, if mk_depth (mask_state (state c)) \<noteq> 0 then c\<lparr>memory := store_pixel (memory c) p 2 zz\<rparr> else c)
      else (True, c))"

definition fog_component :: "context_t \<Rightarrow> int \<Rightarrow> nat \<Rightarrow> pixel_t \<Rightarrow> pixel_t option" where
  "fog_component c f i fragment = do {
     let fc = int (fog_color (state c) ! i) * 0x10000 div 0xFF;
     m \<leftarrow> shl 1 (int (px_s fragment ! i));
     if m = 1 then None
     else
       let v = (px_c fragment ! i * 0x10000) div (m - 1)
       in Some (set_comp i (word_of_int (gglMulAddx (sint v) f (gglMulx fc (s32 (0x10000 - f)) 16) 16), 16) fragment)
   }"

definition apply_fog :: "context_t \<Rightarrow> int \<Rightarrow> pixel_t \<Rightarrow> pixel_t option" where
  "apply_fog c f fragment =
     (if has_flag (enables (state c)) GGL_ENABLE_FOG then do {
        fragment \<leftarrow> fog_component c f 1 fragment;
        fragment \<leftarrow> fog_component c f 2 fragment;
        fog_component c f 3 fragment
      } else Some fragment)"

definition apply_blending :: "context_t \<Rightarrow> u32 \<Rightarrow> u32 \<Rightarrow> pixel_t \<Rightarrow> pixel_t option" where
  "apply_blending c x y fragment =
     (if has_flag (enables (state c)) GGL_ENABLE_BLENDING then do {
        fb \<leftarrow> call_read c (fb_color (buffers (state c))) x y pixel_zero;
        (fragment, fb) \<leftarrow> blending c fragment fb;
        Some fragment
      } else Some fragment)"

subsection \<open>The loop\<close>

text \<open>The values the loop carries from pixel to pixel.\<close>

record span_t =
  sp_x :: u32
  sp_r :: int
  sp_g :: int
  sp_b :: int
  sp_a :: int
  sp_z :: int
  sp_f :: int
  sp_tc :: tex_coords
  sp_texel :: pixel_t
  sp_cov :: int

definition fragment_color :: "span_t \<Rightarrow> pixel_t" where
  "fragment_color sp =
     \<lparr>px_c = map (\<lambda>v. word_of_int (v div 2 ^ 16)) [sp_a sp, sp_r sp, sp_g sp, sp_b sp], px_s = [8, 8, 8, 8]\<rparr>"

text \<open>The body up to \<^verbatim>\<open>discard\<close>, and the iteration after it.\<close>

definition draw_pixel :: "context_t \<Rightarrow> span_t \<Rightarrow> (context_t \<times> span_t) option" where
  "draw_pixel c sp = (let x = sp_x sp; y = word_of_int (it_y (iterators c)) in do {
     (tc, fragment, texel) \<leftarrow> texturing c x y (sp_tc sp, fragment_color sp, sp_texel sp);
     let fragment = apply_coverage c (sp_cov sp) fragment;
     let sp = sp\<lparr>sp_tc := tc, sp_texel := texel,
       sp_cov := (if has_flag (enables (state c)) GGL_ENABLE_AA then sp_cov sp + 1 else sp_cov sp)\<rparr>;
     pass \<leftarrow> alpha_test c fragment;
     if \<not> pass then Some (c, sp)
     else
       let (pass, c) = depth_test c x y (sp_z sp) in
       if \<not> pass then Some (c, sp)
       else do {
         fragment \<leftarrow> apply_fog c (sp_f sp) fragment;
         fragment \<leftarrow> apply_blending c x y fragment;
         c \<leftarrow> call_write c (fb_color (buffers (state c))) x y fragment;
         Some (c, sp)
       }
   })"

definition next_pixel :: "context_t \<Rightarrow> span_t \<Rightarrow> span_t" where
  "next_pixel c sp =
     (let sh = shade c;
          sp = sp\<lparr>sp_x := sp_x sp + 1\<rparr>;
          sp = (if has_flag (enables (state c)) GGL_ENABLE_SMOOTH
                then sp\<lparr>sp_r := s32 (sp_r sp + sh_drdx sh), sp_g := s32 (sp_g sp + sh_dgdx sh),
                        sp_b := s32 (sp_b sp + sh_dbdx sh), sp_a := s32 (sp_a sp + sh_dadx sh)\<rparr>
                else sp)
      in sp\<lparr>sp_z := s32 (sp_z sp + sh_dzdx sh), sp_f := s32 (sp_f sp + sh_dfdx sh)\<rparr>)"

fun scanline_loop :: "nat \<Rightarrow> context_t \<Rightarrow> span_t \<Rightarrow> context_t option" where
  "scanline_loop 0 c sp = Some c"
| "scanline_loop (Suc n) c sp = do {
     (c, sp) \<leftarrow> draw_pixel c sp;
     scanline_loop n c (next_pixel c sp)
   }"

text \<open>The iterators at the first pixel of the span.\<close>

definition start_color :: "context_t \<Rightarrow> int \<Rightarrow> int \<Rightarrow> int \<Rightarrow> int" where
  "start_color c xc dvdx ydvdy =
     (if has_flag (enables (state c)) GGL_ENABLE_SMOOTH
      then ADJUST_COLOR_ITERATOR (s32 (it_xl (iterators c) * dvdx + ydvdy)) dvdx xc else ydvdy)"

definition start_coords :: "context_t \<Rightarrow> texture_t \<Rightarrow> int \<times> int" where
  "start_coords c tx =
     (let ti = tx_iterators tx; xs = it_xl (iterators c) in
      if has_flag (enables (state c)) GGL_ENABLE_W then (ti_ydsdy ti, ti_ydtdy ti)
      else (s32 (xs * ti_dsdx ti + ti_ydsdy ti), s32 (xs * ti_dtdx ti + ti_ydtdy ti)))"

definition start_span :: "context_t \<Rightarrow> span_t" where
  "start_span c =
     (let ci = iterators c; sh = shade c; xs = it_xl ci; xc = s32 (it_xr ci - xs) in
      \<lparr>sp_x = word_of_int xs,
       sp_r = start_color c xc (sh_drdx sh) (it_ydrdy ci), sp_g = start_color c xc (sh_dgdx sh) (it_ydgdy ci),
       sp_b = start_color c xc (sh_dbdx sh) (it_ydbdy ci), sp_a = start_color c xc (sh_dadx sh) (it_ydady ci),
       sp_z = s32 (xs * sh_dzdx sh + it_ydzdy ci), sp_f = s32 (xs * sh_dfdx sh + it_ydfdy ci),
       sp_tc = map (start_coords c) (texture (state c)), sp_texel = pixel_zero, sp_cov = xs\<rparr>)"

text \<open>A negative width makes the count-down run through the whole range of \<^verbatim>\<open>int\<close>.\<close>

definition scanline :: "context_t \<Rightarrow> context_t option" where
  "scanline c =
     (let xc = s32 (it_xr (iterators c) - it_xl (iterators c))
      in if xc < 0 then None else scanline_loop (nat xc) c (start_span c))"

subsection \<open>What a span writes\<close>

definition color_bytes :: "context_t \<Rightarrow> u32 \<Rightarrow> u32 \<Rightarrow> int set" where
  "color_bytes c x y =
     (let s = fb_color (buffers (state c)); sz = fm_size (the_format (sf_format s)); a = pixel_address s sz x y in
      if x < sf_width s \<and> y < sf_height s then {a ..< a + int sz} else {})"

definition depth_bytes :: "context_t \<Rightarrow> u32 \<Rightarrow> u32 \<Rightarrow> int set" where
  "depth_bytes c x y =
     (let s = fb_depth (buffers (state c)); a = fast_address s 2 x y in
      if sf_format s \<noteq> 0 \<and> has_flag (enables (state c)) GGL_ENABLE_DEPTH_TEST \<and> mk_depth (mask_state (state c)) \<noteq> 0
      then {a ..< a + 2} else {})"

text \<open>A result that differs from the context only in the bytes of a set.\<close>

definition writes_only :: "int set \<Rightarrow> context_t \<Rightarrow> context_t \<Rightarrow> bool" where
  "writes_only A c c' \<longleftrightarrow> c' = c\<lparr>memory := memory c'\<rparr> \<and> (\<forall>b. b \<notin> A \<longrightarrow> memory c' b = memory c b)"

lemma writes_only_refl [simp]: "writes_only A c c"
  by (simp add: writes_only_def)

lemma writes_only_trans: "writes_only A c c' \<Longrightarrow> writes_only B c' c'' \<Longrightarrow> A \<subseteq> C \<Longrightarrow> B \<subseteq> C \<Longrightarrow> writes_only C c c''"
  unfolding writes_only_def
proof (elim conjE, intro conjI allI impI)
  assume 1: "c' = c\<lparr>memory := memory c'\<rparr>" and 2: "c'' = c'\<lparr>memory := memory c''\<rparr>"
  show "c'' = c\<lparr>memory := memory c''\<rparr>" by (subst 2, subst 1) simp
next
  fix b
  assume "\<forall>b. b \<notin> A \<longrightarrow> memory c' b = memory c b" "\<forall>b. b \<notin> B \<longrightarrow> memory c'' b = memory c' b" "A \<subseteq> C" "B \<subseteq> C" "b \<notin> C"
  then show "memory c'' b = memory c b" by (metis subsetD)
qed

lemma writes_only_mono: "writes_only A c c' \<Longrightarrow> A \<subseteq> B \<Longrightarrow> writes_only B c c'"
  by (auto simp: writes_only_def)

lemma writes_only_state:
  assumes "writes_only A c c'"
  shows "state c' = state c" "iterators c' = iterators c" "shade c' = shade c" "coverage c' = coverage c"
    "color_bytes c' = color_bytes c" "depth_bytes c' = depth_bytes c"
proof -
  obtain m where c': "c' = c\<lparr>memory := m\<rparr>" using assms unfolding writes_only_def by blast
  show "state c' = state c" "iterators c' = iterators c" "shade c' = shade c" "coverage c' = coverage c"
    "color_bytes c' = color_bytes c" "depth_bytes c' = depth_bytes c"
    by (simp_all add: c' color_bytes_def depth_bytes_def fun_eq_iff)
qed

lemma store_pixel_outside: "b < a \<or> a + int sz \<le> b \<Longrightarrow> store_pixel m a sz v b = m b"
  by (auto simp: store_pixel_def)

lemma write_pixel_only:
  assumes "write_pixel c (fb_color (buffers (state c))) x y px = Some c'"
  shows "writes_only (color_bytes c x y) c c'"
proof -
  let ?s = "fb_color (buffers (state c))"
  let ?a = "pixel_address ?s (fm_size (the_format (sf_format ?s))) x y"
  obtain v where xy: "x < sf_width ?s" "y < sf_height ?s"
    and c': "c' = c\<lparr>memory := store_pixel (memory c) ?a (fm_size (the_format (sf_format ?s))) v\<rparr>"
    using assms unfolding write_pixel_def Let_def by (auto simp: bind_eq_Some_conv split: if_splits)
  show ?thesis unfolding writes_only_def c' color_bytes_def Let_def
    using xy by (auto intro!: store_pixel_outside)
qed

lemma depth_test_only: "writes_only (depth_bytes c x y) c (snd (depth_test c x y z))"
  by (auto simp: depth_test_def writes_only_def depth_bytes_def Let_def store_pixel_outside)

lemma draw_pixel_only:
  assumes d: "draw_pixel c sp = Some (c', sp')" and y: "y = word_of_int (it_y (iterators c))"
  shows "writes_only (color_bytes c (sp_x sp) y \<union> depth_bytes c (sp_x sp) y) c c'" "sp_x sp' = sp_x sp"
proof -
  let ?d = "depth_test c (sp_x sp) y (sp_z sp)"
  have "(writes_only (color_bytes c (sp_x sp) y \<union> depth_bytes c (sp_x sp) y) c c') \<and> sp_x sp' = sp_x sp"
  proof -
    consider "c' = c" "sp_x sp' = sp_x sp" | "c' = snd ?d" "sp_x sp' = sp_x sp" |
      px where "call_write (snd ?d) (fb_color (buffers (state (snd ?d)))) (sp_x sp) y px = Some c'" "sp_x sp' = sp_x sp"
      using d unfolding draw_pixel_def Let_def y
      by (auto simp: bind_eq_Some_conv case_prod_beta split: if_splits)
    then show ?thesis
    proof cases
      case 1
      then show ?thesis by simp
    next
      case 2
      then show ?thesis using writes_only_mono [OF depth_test_only] by auto
    next
      case (3 px)
      have w: "write_pixel (snd ?d) (fb_color (buffers (state (snd ?d)))) (sp_x sp) y px = Some c'"
        using 3(1) by (simp add: call_write_def split: write_proc.splits)
      note dt = depth_test_only [of c "sp_x sp" y "sp_z sp"]
      have "writes_only (color_bytes c (sp_x sp) y) (snd ?d) c'"
        using write_pixel_only [OF w] unfolding writes_only_state(5) [OF dt] .
      then show ?thesis using writes_only_trans [OF dt] 3(2) by blast
    qed
  qed
  then show "writes_only (color_bytes c (sp_x sp) y \<union> depth_bytes c (sp_x sp) y) c c'" "sp_x sp' = sp_x sp" by blast+
qed

lemma next_pixel_x [simp]: "sp_x (next_pixel c sp) = sp_x sp + 1"
  by (simp add: next_pixel_def Let_def)

text \<open>The bytes of the pixels of a span.\<close>

definition span_bytes :: "context_t \<Rightarrow> u32 \<Rightarrow> nat \<Rightarrow> int set" where
  "span_bytes c x n = (\<Union>k < n. color_bytes c (x + word_of_nat k) (word_of_int (it_y (iterators c))) \<union>
     depth_bytes c (x + word_of_nat k) (word_of_int (it_y (iterators c))))"

lemma span_bytes_Suc:
  "span_bytes c x (Suc n) = color_bytes c x (word_of_int (it_y (iterators c))) \<union>
     depth_bytes c x (word_of_int (it_y (iterators c))) \<union> span_bytes c (x + 1) n"
  unfolding span_bytes_def lessThan_Suc_eq_insert_0 by (simp add: image_UN add.assoc)

lemma scanline_loop_only:
  "scanline_loop n c sp = Some c' \<Longrightarrow> writes_only (span_bytes c (sp_x sp) n) c c'"
proof (induction n arbitrary: c sp)
  case 0
  then show ?case by simp
next
  case (Suc n)
  let ?y = "word_of_int (it_y (iterators c))"
  obtain c1 sp1 where d: "draw_pixel c sp = Some (c1, sp1)" and l: "scanline_loop n c1 (next_pixel c1 sp1) = Some c'"
    using Suc.prems by (auto simp: bind_eq_Some_conv)
  note dp = draw_pixel_only [OF d refl]
  have "span_bytes c1 = span_bytes c" by (simp add: fun_eq_iff span_bytes_def writes_only_state [OF dp(1)])
  then have "writes_only (span_bytes c (sp_x sp + 1) n) c1 c'" using Suc.IH [OF l] dp(2) by simp
  then show ?case using writes_only_trans [OF dp(1)] unfolding span_bytes_Suc by blast
qed

subsection \<open>Properties\<close>

text \<open>C23. Memory safety of the generic pipeline. A span that is drawn changes nothing of the context but
  memory, and of memory only bytes of the pixels \<open>xl \<le> x < xr\<close> of row \<open>y\<close>: of the colour buffer those that
  lie in the surface, and of the depth buffer only when there is one, the test is enabled and the depth
  mask is set.\<close>

theorem scanline_writes_span:
  assumes "scanline c = Some c'"
  shows "c' = c\<lparr>memory := memory c'\<rparr> \<and>
    (\<forall>b. memory c' b \<noteq> memory c b \<longrightarrow>
       (\<exists>k < nat (s32 (it_xr (iterators c) - it_xl (iterators c))).
          b \<in> color_bytes c (word_of_int (it_xl (iterators c) + int k)) (word_of_int (it_y (iterators c))) \<union>
              depth_bytes c (word_of_int (it_xl (iterators c) + int k)) (word_of_int (it_y (iterators c)))))"
proof -
  have "writes_only (span_bytes c (word_of_int (it_xl (iterators c))) (nat (s32 (it_xr (iterators c) - it_xl (iterators c))))) c c'"
    using assms scanline_loop_only [of _ c "start_span c"]
    by (simp add: scanline_def Let_def start_span_def split: if_splits)
  then show ?thesis unfolding writes_only_def span_bytes_def by auto
qed

definition demo_span :: context_t where
  "demo_span = (upd_state (\<lambda>s. s\<lparr>buffers := (buffers s)\<lparr>fb_color := demo_565\<lparr>sf_write := write_pixel_proc\<rparr>\<rparr>\<rparr>) demo_ctx)
     \<lparr>iterators := (iterators demo_ctx)\<lparr>it_xl := 1, it_xr := 2, it_y := 0, it_ydrdy := 0xFF0000\<rparr>\<rparr>"

lemma demo_span_simps:
  "enables (state demo_span) = 0" "fb_color (buffers (state demo_span)) = demo_565\<lparr>sf_write := write_pixel_proc\<rparr>"
  "mk_color (mask_state (state demo_span)) = 0xF" "sf_format (fb_depth (buffers (state demo_span))) = 0"
  "it_xl (iterators demo_span) = 1" "it_xr (iterators demo_span) = 2" "it_y (iterators demo_span) = 0"
  by (simp_all add: demo_span_def demo_ctx_def upd_state_def state_zero_def surface_zero_def)

lemma demo_565_simps:
  "sf_width demo_565 = 8" "sf_height demo_565 = 8" "sf_stride demo_565 = 8" "sf_data demo_565 = 0" "sf_format demo_565 = 4"
  "the_format 4 = mk_format 2 16 [(0, 0), (16, 11), (11, 5), (5, 0)] GGL_RGB"
  by (simp_all add: demo_565_def surface_zero_def the_format_def gPixelFormatInfos_def)

theorem scanline_writes_span_witness:
  "\<exists>c'. scanline demo_span = Some c' \<and> memory c' 4 = memory demo_span 4"
proof -
  have nf: "\<not> has_flag 0 f" for f by (simp add: has_flag_def)
  have "\<exists>c'. scanline demo_span = Some c'"
    by (simp add: scanline_def demo_span_simps s32_def draw_pixel_def texturing_def apply_coverage_def
        alpha_test_def depth_test_def apply_fog_def apply_blending_def call_write_def write_pixel_def demo_565_simps nf Let_def
        start_span_def start_color_def fragment_color_def write_component_def mk_format_def fm_h_def fm_l_def dither_at_def
        downshift_component_def shr_def shl_def)
  then obtain c' where c': "scanline demo_span = Some c'" by blast
  have "4 \<notin> color_bytes demo_span (word_of_int (1 + int k)) 0" "4 \<notin> depth_bytes demo_span (word_of_int (1 + int k)) 0" if "k < 1" for k
    using that by (simp_all add: color_bytes_def depth_bytes_def demo_span_simps demo_565_simps pixel_address_def mk_format_def s32_def)
  then have "memory c' 4 = memory demo_span 4"
    using scanline_writes_span [OF c'] by (auto simp: demo_span_simps s32_def)
  then show ?thesis using c' by blast
qed

subsection \<open>Blending\<close>

definition clamp_value :: "nat \<Rightarrow> u32 \<Rightarrow> u32" where
  "clamp_value s v = (if s < 32 \<and> 2 ^ s \<le> unat v then push_bit s 1 - 1 else v)"

lemma clamp_value_bound: "s < 32 \<Longrightarrow> unat (clamp_value s v) < 2 ^ s"
proof -
  have "(push_bit s 1 - 1 :: u32) = take_bit s (mask s)" unfolding mask_push by (simp add: take_bit_eq_mask)
  then have "unat (push_bit s 1 - 1 :: u32) = take_bit s (unat (mask s :: u32))" by (simp only: unsigned_take_bit_eq)
  then have "unat (push_bit s 1 - 1 :: u32) < 2 ^ s" by simp
  then show "s < 32 \<Longrightarrow> unat (clamp_value s v) < 2 ^ s" by (simp add: clamp_value_def)
qed

lemma clamp_component_value:
  "clamp_component i px = px\<lparr>px_c := (px_c px)[i := clamp_value (px_s px ! i) (px_c px ! i)]\<rparr>"
  by (simp add: clamp_component_def set_c_def Let_def clamp_value_def)

definition clamp_pixel :: "pixel_t \<Rightarrow> pixel_t" where
  "clamp_pixel px = clamp_component 3 (clamp_component 2 (clamp_component 1 (clamp_component 0 px)))"

lemma clamp_pixel_nth:
  assumes "length (px_c px) = 4"
  shows "px_s (clamp_pixel px) = px_s px" "\<forall>j < 4. px_c (clamp_pixel px) ! j = clamp_value (px_s px ! j) (px_c px ! j)"
  using assms by (simp_all add: clamp_pixel_def clamp_component_value all_less_4)

lemma rescale_size:
  "rescale u v = Some (u', v') \<Longrightarrow> snd u' = (if snd u \<noteq> 0 \<and> snd v \<noteq> 0 then max (snd u) (snd v) else snd u) \<and>
     snd v' = (if snd u \<noteq> 0 \<and> snd v \<noteq> 0 then max (snd u) (snd v) else snd v)"
  by (cases u, cases v) (auto simp: rescale_def bind_eq_Some_conv split: if_splits)

lemma rescale_same: "snd u = snd v \<Longrightarrow> rescale u v = Some (u, v)"
  by (cases u, cases v) (simp add: rescale_def)

lemma rescale_pixels_size:
  assumes "rescale_pixels i (p, q) = Some (p', q')" "length (px_c p) = 4" "length (px_s p) = 4" "i < 4"
  shows "length (px_c p') = 4" "length (px_s p') = 4"
    "px_s p' = (px_s p)[i := (if px_s p ! i \<noteq> 0 \<and> px_s q ! i \<noteq> 0 then max (px_s p ! i) (px_s q ! i) else px_s p ! i)]"
    "j \<noteq> i \<Longrightarrow> px_s q' ! j = px_s q ! j"
  using assms by (auto simp: rescale_pixels_def bind_eq_Some_conv set_comp_def comp_at_def list_update_same_conv dest!: rescale_size)

lemma blending_sizes:
  assumes bl: "blending c fragment fb = Some (f', fb')" and l: "length (px_c fragment) = 4" "length (px_s fragment) = 4"
  shows "\<exists>px. f' = clamp_pixel px \<and> length (px_c px) = 4 \<and> length (px_s px) = 4 \<and>
    (\<forall>i < 4. px_s px ! i = (if px_s fragment ! i \<noteq> 0 \<and> px_s fb ! i \<noteq> 0 then max (px_s fragment ! i) (px_s fb ! i) else px_s fragment ! i))"
proof -
  obtain p0 q0 p1 q1 p2 q2 p3 q3 cc where
    r: "rescale_pixels 0 (fragment, fb) = Some (p0, q0)" "rescale_pixels 1 (p0, q0) = Some (p1, q1)"
      "rescale_pixels 2 (p1, q1) = Some (p2, q2)" "rescale_pixels 3 (p2, q2) = Some (p3, q3)"
    and f': "f' = clamp_pixel (p3\<lparr>px_c := cc\<rparr>)" "length cc = length (px_c p3)"
    using bl unfolding blending_def Let_def clamp_pixel_def [symmetric] set_c_def
    by (auto simp: bind_eq_Some_conv case_prod_beta)
  note s0 = rescale_pixels_size [OF r(1) l] and s1 = rescale_pixels_size [OF r(2)]
    and s2 = rescale_pixels_size [OF r(3)] and s3 = rescale_pixels_size [OF r(4)]
  note s1 = s1 [OF s0(1,2)] note s2 = s2 [OF s1(1,2)] note s3 = s3 [OF s2(1,2)]
  show ?thesis
    by (rule exI [of _ "p3\<lparr>px_c := cc\<rparr>"]) (use f' s0 s1 s2 s3 l in \<open>simp add: all_less_4\<close>)
qed

lemma full_factor: "blendfactor 255 8 d = Some 65536" "blendfactor 0 8 d = Some 0"
proof -
  have u: "expand_up v 8 8 = v OR push_bit 8 v" for v
    by (subst expand_up.simps) (simp add: Let_def)
  show "blendfactor 255 8 d = Some 65536" "blendfactor 0 8 d = Some 0"
    by (simp_all add: blendfactor_def ggl_expand_def expand_def u s32_def)
qed

lemma uint_small:
  fixes w :: u32
  assumes "uint w < 2 ^ 31"
  shows "s32 (uint w) = uint w" "sint w = uint w"
proof -
  have l: "- (2 ^ 31) \<le> uint w" by (rule order_trans [OF _ uint_ge_0]) simp
  then show "s32 (uint w) = uint w" using assms by (intro s32_id) (simp add: in_s32_def)
  show "sint w = uint w" using l assms by (simp add: sint_uint signed_take_bit_int_eq_self)
qed

lemma blend_component_extreme:
  assumes "unat f < 2 ^ 31" "unat d < 2 ^ 31"
  shows "blend_component f 0x10000 d 0 = f" "blend_component f 0 d 0x10000 = d"
proof -
  have u: "uint f < 2 ^ 31" "uint d < 2 ^ 31" using assms by (simp_all add: uint_nat del: of_nat_unat)
  have "sint f = uint f" "sint d = uint d" using u by (simp_all add: uint_small)
  note f = this u
  have k: "sint (0x10000 :: u32) = 65536" by simp
  have m: "gglMulx (uint d) 65536 16 = uint d" "gglMulx (uint d) 0 16 = 0"
    using uint_small [OF u(2)] by (simp_all add: gglMulx_def s32_def)
  show "blend_component f 0x10000 d 0 = f" "blend_component f 0 d 0x10000 = d"
    unfolding blend_component_def k f using m uint_small [OF u(1)] uint_small [OF u(2)] by (simp_all add: gglMulAddx_def s32_def)
qed

lemma rescale_pixels_same:
  "px_s p = px_s q \<Longrightarrow> rescale_pixels i (p, q) = Some (p, q)"
  by (simp add: rescale_pixels_def rescale_same comp_at_def set_comp_def)

lemma clamp_small: "unat v < 256 \<Longrightarrow> clamp_value 8 v = v"
  by (simp add: clamp_value_def)

lemma blending_over:
  assumes bl: "blending c fragment fb = Some (f', fb')" and l: "length (px_c fragment) = 4"
    and m: "bl_src (blend (state c)) = GGL_SRC_ALPHA \<and> bl_dst (blend (state c)) = GGL_ONE_MINUS_SRC_ALPHA \<and>
     px_s fragment = [8, 8, 8, 8] \<and> px_s fb = [8, 8, 8, 8] \<and> length (px_c fb) = 4 \<and>
     (\<forall>i < 4. unat (px_c fragment ! i) < 256 \<and> unat (px_c fb ! i) < 256)"
  shows "(px_c fragment ! 0 = 255 \<longrightarrow> (\<forall>i \<in> {1, 2, 3}. px_c f' ! i = px_c fragment ! i)) \<and>
     (px_c fragment ! 0 = 0 \<longrightarrow> (\<forall>i \<in> {1, 2, 3}. px_c f' ! i = px_c fb ! i))"
proof -
  have same: "rescale_pixels i (fragment, fb) = Some (fragment, fb)" for i using m by (simp add: rescale_pixels_same)
  have res: "\<exists>a. f' = clamp_pixel (fragment\<lparr>px_c := [a, blend_component (px_c fragment ! 1) s (px_c fb ! 1) d,
      blend_component (px_c fragment ! 2) s (px_c fb ! 2) d, blend_component (px_c fragment ! 3) s (px_c fb ! 3) d]\<rparr>)"
    if s: "alpha_factor fragment = Some [s, s, s, s]" "d = 0x10000 - s" for s d
  proof -
    obtain a0 a1 a2 a3 where a: "px_c fragment = [a0, a1, a2, a3]"
      using l by (auto simp: numeral_eq_Suc length_Suc_conv)
    have om: "one_minus [s, s, s, s] = [d, d, d, d]" using s(2) by (simp add: one_minus_def)
    show ?thesis using bl unfolding blending_def Let_def clamp_pixel_def [symmetric] same set_c_def
      using m s(1) om by (auto simp: bind_eq_Some_conv same blend_factor_def a)
  qed
  have r4: "replicate 4 x = [x, x, x, x]" for x :: u32 by (simp add: numeral_eq_Suc)
  have alpha: "px_c fragment ! 0 = 255 \<Longrightarrow> alpha_factor fragment = Some [0x10000, 0x10000, 0x10000, 0x10000]"
    "px_c fragment ! 0 = 0 \<Longrightarrow> alpha_factor fragment = Some [0, 0, 0, 0]"
    using m r4 by (simp_all add: alpha_factor_def full_factor)
  have b: "unat (px_c fragment ! i) < 256 \<and> unat (px_c fb ! i) < 256" if "i < 4" for i using m that by blast
  have e: "blend_component (px_c fragment ! i) 0x10000 (px_c fb ! i) 0 = px_c fragment ! i"
    "blend_component (px_c fragment ! i) 0 (px_c fb ! i) 0x10000 = px_c fb ! i" if "i < 4" for i
    using b [OF that] by (intro blend_component_extreme; simp)+
  show ?thesis
  proof (intro conjI impI)
    assume "px_c fragment ! 0 = 255"
    from res [OF alpha(1) [OF this] refl] e obtain a where
      f': "f' = clamp_pixel (fragment\<lparr>px_c := [a, px_c fragment ! 1, px_c fragment ! 2, px_c fragment ! 3]\<rparr>)" by auto
    show "\<forall>i \<in> {1, 2, 3}. px_c f' ! i = px_c fragment ! i"
      unfolding f' using clamp_pixel_nth(2) [of "fragment\<lparr>px_c := [a, px_c fragment ! 1, px_c fragment ! 2, px_c fragment ! 3]\<rparr>"] m b
      by (simp add: clamp_small)
  next
    assume "px_c fragment ! 0 = 0"
    from res [OF alpha(2) [OF this] refl] e obtain a where
      f': "f' = clamp_pixel (fragment\<lparr>px_c := [a, px_c fb ! 1, px_c fb ! 2, px_c fb ! 3]\<rparr>)" by auto
    show "\<forall>i \<in> {1, 2, 3}. px_c f' ! i = px_c fb ! i"
      unfolding f' using clamp_pixel_nth(2) [of "fragment\<lparr>px_c := [a, px_c fb ! 1, px_c fb ! 2, px_c fb ! 3]\<rparr>"] m b
      by (simp add: clamp_small)
  qed
qed


definition demo_blend :: context_t where
  "demo_blend = upd_state (\<lambda>s. s\<lparr>blend := (blend s)\<lparr>bl_src := GGL_SRC_ALPHA, bl_dst := GGL_ONE_MINUS_SRC_ALPHA\<rparr>\<rparr>) demo_ctx"


end
