(* ===== verification/GGLSpan565.thy ===== *)
theory GGLSpan565
  imports GGLPipeline
begin

text \<open>
  The specialised pipelines of \<^verbatim>\<open>libpixelflinger/scanline.cpp\<close> that draw into 565 colour buffers: the
  source iterators (\<^verbatim>\<open>horz_iterator32\<close>, \<^verbatim>\<open>clamp_iterator\<close>, \<^verbatim>\<open>horz_clamp_iterator\<close>), the ditherer, the
  blenders and the scanline functions built from them. All functions have the shape of one loop, which
  reads a source pixel, reads the destination, and stores the result of a blender. The intermediate
  values of the blenders that the code keeps in \<^verbatim>\<open>int\<close> are not negative, so they are 32-bit words here.
\<close>

subsection \<open>Source iterators\<close>

text \<open>The column and row of the texel that is drawn one-to-one at the first pixel of the span.\<close>

definition tex_u :: "context_t \<Rightarrow> int" where
  "tex_u c = s32 (is0 (tx_shade (texture (state c) ! 0)) div 2 ^ 16 + it_xl (iterators c))"

definition tex_v :: "context_t \<Rightarrow> int" where
  "tex_v c = s32 (it0 (tx_shade (texture (state c) ! 0)) div 2 ^ 16 + it_y (iterators c))"

definition horz_iterator32 :: "context_t \<Rightarrow> int" where
  "horz_iterator32 c =
     (let s = tx_surface (texture (state c) ! 0) in sf_data s + s32 (tex_u c + sf_stride s * tex_v c) * 4)"

definition horz_get_pixel32 :: "(int \<Rightarrow> u8) \<Rightarrow> int \<Rightarrow> u32 \<times> int" where
  "horz_get_pixel32 m src = (load_pixel m src 4, src + 4)"

record clamp_iterator =
  ci_s :: int
  ci_t :: int
  ci_ds :: int
  ci_dt :: int
  ci_width_m1 :: int
  ci_height_m1 :: int
  ci_data :: int
  ci_stride :: int

definition clamp_iterator_init :: "context_t \<Rightarrow> clamp_iterator" where
  "clamp_iterator_init c =
     (let xs = it_xl (iterators c); tx = texture (state c) ! 0; ti = tx_iterators tx; s = tx_surface tx in
      \<lparr>ci_s = s32 (xs * ti_dsdx ti + ti_ydsdy ti), ci_t = s32 (xs * ti_dtdx ti + ti_ydtdy ti),
       ci_ds = ti_dsdx ti, ci_dt = ti_dtdx ti,
       ci_width_m1 = sint (sf_width s - 1), ci_height_m1 = sint (sf_height s - 1),
       ci_data = sf_data s, ci_stride = sf_stride s\<rparr>)"

definition clamp_to :: "int \<Rightarrow> int \<Rightarrow> int" where
  "clamp_to hi u = (let u = (if u < 0 then 0 else u) in if u > hi then hi else u)"

definition get_uv :: "clamp_iterator \<Rightarrow> (int \<times> int) \<times> clamp_iterator" where
  "get_uv ci =
     ((clamp_to (ci_width_m1 ci) (ci_s ci div 2 ^ 16), clamp_to (ci_height_m1 ci) (ci_t ci div 2 ^ 16)),
      ci\<lparr>ci_s := s32 (ci_s ci + ci_ds ci), ci_t := s32 (ci_t ci + ci_dt ci)\<rparr>)"

text \<open>\<^verbatim>\<open>get_pixel16\<close> and \<^verbatim>\<open>get_pixel32\<close>, by the size of a pixel.\<close>

definition clamp_get_pixel :: "nat \<Rightarrow> (int \<Rightarrow> u8) \<Rightarrow> clamp_iterator \<Rightarrow> u32 \<times> clamp_iterator" where
  "clamp_get_pixel sz m ci =
     (let ((u, v), ci') = get_uv ci in (load_pixel m (ci_data ci + s32 (u + ci_stride ci * v) * int sz) sz, ci'))"

definition is_context_horizontal :: "context_t \<Rightarrow> bool" where
  "is_context_horizontal c \<longleftrightarrow> ti_dtdx (tx_iterators (texture (state c) ! 0)) = 0"

record horz_clamp_iterator =
  hc_s :: int
  hc_ds :: int
  hc_width_m1 :: int
  hc_data :: int

definition horz_clamp_init :: "context_t \<Rightarrow> nat \<Rightarrow> horz_clamp_iterator" where
  "horz_clamp_init c shift =
     (let xs = it_xl (iterators c); tx = texture (state c) ! 0; ti = tx_iterators tx; s = tx_surface tx;
          v = s32 (xs * ti_dtdx ti + ti_ydtdy ti) div 2 ^ 16;
          v = (if v < 0 then 0 else if v \<ge> sint (sf_height s) then s32 (sint (sf_height s) - 1) else v)
      in \<lparr>hc_s = s32 (xs * ti_dsdx ti + ti_ydsdy ti), hc_ds = ti_dsdx ti, hc_width_m1 = sint (sf_width s - 1),
          hc_data = sf_data s + s32 (s32 (sf_stride s * v) * 2 ^ shift)\<rparr>)"

definition horz_clamp_get_pixel :: "nat \<Rightarrow> (int \<Rightarrow> u8) \<Rightarrow> horz_clamp_iterator \<Rightarrow> u32 \<times> horz_clamp_iterator" where
  "horz_clamp_get_pixel sz m ci =
     (load_pixel m (hc_data ci + clamp_to (hc_width_m1 ci) (hc_s ci div 2 ^ 16) * int sz) sz,
      ci\<lparr>hc_s := s32 (hc_s ci + hc_ds ci)\<rparr>)"

subsection \<open>Dithering\<close>

text \<open>The row of the matrix and the index in it.\<close>

record ditherer =
  di_line :: nat
  di_index :: int

definition ditherer_init :: "context_t \<Rightarrow> ditherer" where
  "ditherer_init c = \<lparr>di_line = nat (it_y (iterators c) mod 8) * 8, di_index = it_xl (iterators c) mod 8\<rparr>"

definition di_step :: "ditherer \<Rightarrow> ditherer" where
  "di_step d = d\<lparr>di_index := di_index d + 1\<rparr>"

definition di_get_value :: "nat list \<Rightarrow> ditherer \<Rightarrow> u32 \<times> ditherer" where
  "di_get_value mx d = (word_of_nat (mx ! (di_line d + nat (di_index d mod 8))), di_step d)"

definition cap :: "u32 \<Rightarrow> u32 \<Rightarrow> u32" where
  "cap hi v = (if v > hi then hi else v)"

definition rgb888ToRgb565 :: "nat list \<Rightarrow> u32 \<Rightarrow> u32 \<Rightarrow> u32 \<Rightarrow> ditherer \<Rightarrow> u32 \<times> ditherer" where
  "rgb888ToRgb565 mx r g b d =
     (let (threshold, d) = di_get_value mx d;
          r = cap 0xFF (r + drop_bit 3 threshold); g = cap 0xFF (g + drop_bit 4 threshold); b = cap 0xFF (b + drop_bit 3 threshold)
      in ((push_bit 8 (r AND 0xF8) OR push_bit 3 (g AND 0xFC) OR drop_bit 3 b) AND 0xFFFF, d))"

definition dither_abgr8888ToRgb565 :: "nat list \<Rightarrow> u32 \<Rightarrow> ditherer \<Rightarrow> u32 \<times> ditherer" where
  "dither_abgr8888ToRgb565 mx s d = rgb888ToRgb565 mx (s AND 0xFF) (drop_bit 8 s AND 0xFF) (drop_bit 16 s AND 0xFF) d"

subsection \<open>Blenders\<close>

text \<open>A blender takes the source pixel and the destination and gives the new destination, or
  \<^term>\<open>None\<close> when it does not write.\<close>

definition convertAbgr8888ToRgb565 :: "u32 \<Rightarrow> u32" where
  "convertAbgr8888ToRgb565 pix =
     ((push_bit 8 pix AND 0xF800) OR (drop_bit 5 pix AND 0x07E0) OR (drop_bit 19 pix AND 0x001F)) AND 0xFFFF"

definition pack565 :: "u32 \<Rightarrow> u32 \<Rightarrow> u32 \<Rightarrow> u32" where
  "pack565 r g b = (push_bit 11 r OR push_bit 5 g OR b) AND 0xFFFF"

definition red565 :: "u32 \<Rightarrow> u32" where "red565 d = drop_bit 11 d AND 0x1F"
definition green565 :: "u32 \<Rightarrow> u32" where "green565 d = drop_bit 5 d AND 0x3F"
definition blue565 :: "u32 \<Rightarrow> u32" where "blue565 d = d AND 0x1F"

definition red_of :: "u32 \<Rightarrow> u32" where "red_of s = drop_bit 3 s AND 0x1F"
definition green_of :: "u32 \<Rightarrow> u32" where "green_of s = drop_bit 10 s AND 0x3F"
definition blue_of :: "u32 \<Rightarrow> u32" where "blue_of s = drop_bit 19 s AND 0x1F"

text \<open>\<^verbatim>\<open>0x100 - (sA + (sA>>7))\<close>\<close>

definition inv_alpha :: "u32 \<Rightarrow> u32" where
  "inv_alpha sA = 0x100 - (sA + drop_bit 7 sA)"

definition over565 :: "u32 \<Rightarrow> u32 \<Rightarrow> u32 \<Rightarrow> u32" where
  "over565 f s d = pack565 (red_of s + drop_bit 8 (f * red565 d)) (green_of s + drop_bit 8 (f * green565 d))
     (blue_of s + drop_bit 8 (f * blue565 d))"

definition blender_32to16_write :: "u32 \<Rightarrow> u32 \<Rightarrow> u32 option" where
  "blender_32to16_write s d =
     (if s = 0 then None
      else
        let sA = drop_bit 24 s in
        Some (if sA = 0xFF then convertAbgr8888ToRgb565 s else over565 (inv_alpha sA) s d))"

definition blender_32to16_write_dither :: "nat list \<Rightarrow> u32 \<Rightarrow> u32 \<Rightarrow> ditherer \<Rightarrow> u32 option \<times> ditherer" where
  "blender_32to16_write_dither mx s d di =
     (if s = 0 then (None, di_step di)
      else
        let sA = drop_bit 24 s in
        if sA = 0xFF then let (v, di) = dither_abgr8888ToRgb565 mx s di in (Some v, di)
        else
          let (t, di) = di_get_value mx di; threshold = push_bit 2 t; f = inv_alpha sA;
              r = drop_bit 8 (push_bit 8 (red_of s) + f * red565 d + threshold);
              g = drop_bit 8 (push_bit 8 (green_of s) + f * green565 d + threshold);
              b = drop_bit 8 (push_bit 8 (blue_of s) + f * blue565 d + threshold)
          in (Some (pack565 (cap 0x1F r) (cap 0x3F g) (cap 0x1F b)), di))"

definition blender_32to16_srcA_write :: "u32 \<Rightarrow> u32 \<Rightarrow> u32 option" where
  "blender_32to16_srcA_write s d =
     (if s = 0 then None
      else
        let sA = drop_bit 24 s; f1 = sA + drop_bit 7 sA; f2 = 0x100 - f1 in
        Some (pack565 (drop_bit 8 (f1 * red_of s + f2 * red565 d)) (drop_bit 8 (f1 * green_of s + f2 * green565 d))
          (drop_bit 8 (f1 * blue_of s + f2 * blue565 d))))"

text \<open>The modulating blenders hold the four scaled colours.\<close>

record blender_modulate =
  bm_r :: u32
  bm_g :: u32
  bm_b :: u32
  bm_a :: u32

definition modulate_scale :: "int \<Rightarrow> u32" where
  "modulate_scale y = word_of_int (y div 2 ^ 16 + y div 2 ^ 16 div 2 ^ 7)"

definition blender_modulate_init :: "context_t \<Rightarrow> blender_modulate" where
  "blender_modulate_init c =
     (let ci = iterators c in
      \<lparr>bm_r = modulate_scale (it_ydrdy ci), bm_g = modulate_scale (it_ydgdy ci), bm_b = modulate_scale (it_ydbdy ci),
       bm_a = modulate_scale (it_ydady ci)\<rparr>)"

text \<open>The products in 5.8 and 6.8 format.\<close>

definition mod_rgb :: "blender_modulate \<Rightarrow> u32 \<Rightarrow> u32 \<times> u32 \<times> u32" where
  "mod_rgb bm s =
     (drop_bit 3 ((s AND 0xFF) * bm_r bm), drop_bit 2 ((drop_bit 8 s AND 0xFF) * bm_g bm),
      drop_bit 3 ((drop_bit 16 s AND 0xFF) * bm_b bm))"

definition mod_blend :: "u32 \<Rightarrow> u32 \<times> u32 \<times> u32 \<Rightarrow> u32 \<Rightarrow> u32" where
  "mod_blend f rgb d = (case rgb of (r, g, b) \<Rightarrow>
     pack565 (drop_bit 8 (r + f * red565 d)) (drop_bit 8 (g + f * green565 d)) (drop_bit 8 (b + f * blue565 d)))"

definition mod_blend_dither :: "u32 \<Rightarrow> u32 \<Rightarrow> u32 \<times> u32 \<times> u32 \<Rightarrow> u32 \<Rightarrow> u32" where
  "mod_blend_dither threshold f rgb d = (case rgb of (r, g, b) \<Rightarrow>
     pack565 (cap 0x1F (drop_bit 8 (r + f * red565 d + threshold))) (cap 0x3F (drop_bit 8 (g + f * green565 d + threshold)))
       (cap 0x1F (drop_bit 8 (b + f * blue565 d + threshold))))"

definition blender_32to16_modulate_write :: "blender_modulate \<Rightarrow> u32 \<Rightarrow> u32 \<Rightarrow> u32 option" where
  "blender_32to16_modulate_write bm s d =
     (if s = 0 then None
      else
        let sA = drop_bit 8 (drop_bit 24 s * bm_a bm) in Some (mod_blend (inv_alpha sA) (mod_rgb bm s) d))"

definition blender_32to16_modulate_write_dither ::
  "blender_modulate \<Rightarrow> nat list \<Rightarrow> u32 \<Rightarrow> u32 \<Rightarrow> ditherer \<Rightarrow> u32 option \<times> ditherer" where
  "blender_32to16_modulate_write_dither bm mx s d di =
     (if s = 0 then (None, di_step di)
      else
        let sA = drop_bit 8 (drop_bit 24 s * bm_a bm); (t, di) = di_get_value mx di
        in (Some (mod_blend_dither (push_bit 2 t) (inv_alpha sA) (mod_rgb bm s) d), di))"

definition blender_x32to16_modulate_write :: "blender_modulate \<Rightarrow> u32 \<Rightarrow> u32 \<Rightarrow> u32 option" where
  "blender_x32to16_modulate_write bm s d = Some (mod_blend (0x100 - bm_a bm) (mod_rgb bm s) d)"

definition blender_x32to16_modulate_write_dither ::
  "blender_modulate \<Rightarrow> nat list \<Rightarrow> u32 \<Rightarrow> u32 \<Rightarrow> ditherer \<Rightarrow> u32 option \<times> ditherer" where
  "blender_x32to16_modulate_write_dither bm mx s d di =
     (let (t, di) = di_get_value mx di
      in (Some (mod_blend_dither (push_bit 2 t) (0x100 - bm_a bm) (mod_rgb bm s) d), di))"

definition blender_16to16_modulate_write :: "blender_modulate \<Rightarrow> u32 \<Rightarrow> u32 \<Rightarrow> u32 option" where
  "blender_16to16_modulate_write bm s d =
     Some (mod_blend (0x100 - bm_a bm) (drop_bit 11 s * bm_r bm, (drop_bit 5 s AND 0x3F) * bm_g bm, (s AND 0x1F) * bm_b bm) d)"

subsection \<open>The loop\<close>

text \<open>\<^verbatim>\<open>while (di.count--)\<close>: \<open>get\<close> reads the source, \<open>bl\<close> is the blender with the ditherer's state.\<close>

fun span_loop ::
  "((int \<Rightarrow> u8) \<Rightarrow> 'i \<Rightarrow> u32 \<times> 'i) \<Rightarrow> (u32 \<Rightarrow> u32 \<Rightarrow> 'd \<Rightarrow> u32 option \<times> 'd) \<Rightarrow> nat \<Rightarrow> int \<Rightarrow> 'i \<Rightarrow> 'd \<Rightarrow> (int \<Rightarrow> u8) \<Rightarrow> (int \<Rightarrow> u8)" where
  "span_loop get bl 0 dst it di m = m"
| "span_loop get bl (Suc n) dst it di m =
     (let (s, it) = get m it; (r, di) = bl s (load_pixel m dst 2) di;
          m = (case r of None \<Rightarrow> m | Some v \<Rightarrow> store_pixel m dst 2 v)
      in span_loop get bl n (dst + 2) it di m)"

text \<open>A blender without dithering.\<close>

definition plain :: "(u32 \<Rightarrow> u32 \<Rightarrow> u32 option) \<Rightarrow> u32 \<Rightarrow> u32 \<Rightarrow> unit \<Rightarrow> u32 option \<times> unit" where
  "plain bl s d u = (bl s d, u)"

definition copy_write :: "(u32 \<Rightarrow> u32) \<Rightarrow> u32 \<Rightarrow> u32 \<Rightarrow> u32 option" where
  "copy_write f s d = Some (f s)"

definition copy_dither :: "nat list \<Rightarrow> u32 \<Rightarrow> u32 \<Rightarrow> ditherer \<Rightarrow> u32 option \<times> ditherer" where
  "copy_dither mx s d di = (let (v, di) = dither_abgr8888ToRgb565 mx s di in (Some v, di))"

text \<open>\<^verbatim>\<open>dst_iterator16\<close>: the count and the address of the first destination pixel.\<close>

definition dst_count :: "context_t \<Rightarrow> int" where
  "dst_count c = s32 (it_xr (iterators c) - it_xl (iterators c))"

definition dst_address16 :: "context_t \<Rightarrow> int" where
  "dst_address16 c =
     (let cb = fb_color (buffers (state c)) in sf_data cb + s32 (it_xl (iterators c) + sf_stride cb * it_y (iterators c)) * 2)"

definition span565 ::
  "context_t \<Rightarrow> ((int \<Rightarrow> u8) \<Rightarrow> 'i \<Rightarrow> u32 \<times> 'i) \<Rightarrow> 'i \<Rightarrow> (u32 \<Rightarrow> u32 \<Rightarrow> 'd \<Rightarrow> u32 option \<times> 'd) \<Rightarrow> 'd \<Rightarrow> context_t option" where
  "span565 c get it bl di =
     (if dst_count c < 0 then None
      else Some (c\<lparr>memory := span_loop get bl (nat (dst_count c)) (dst_address16 c) it di (memory c)\<rparr>))"

text \<open>A source that is clamped: the horizontal iterator when the row does not change.\<close>

definition span565_clamp ::
  "context_t \<Rightarrow> nat \<Rightarrow> nat \<Rightarrow> (u32 \<Rightarrow> u32 \<Rightarrow> 'd \<Rightarrow> u32 option \<times> 'd) \<Rightarrow> 'd \<Rightarrow> context_t option" where
  "span565_clamp c sz shift bl di =
     (if is_context_horizontal c then span565 c (horz_clamp_get_pixel sz) (horz_clamp_init c shift) bl di
      else span565 c (clamp_get_pixel sz) (clamp_iterator_init c) bl di)"

subsection \<open>The scanline functions\<close>

definition scanline_t32cb16_clamp :: "context_t \<Rightarrow> context_t option" where
  "scanline_t32cb16_clamp c = span565_clamp c 4 2 (plain (copy_write convertAbgr8888ToRgb565)) ()"

definition scanline_t32cb16_dither :: "context_t \<Rightarrow> context_t option" where
  "scanline_t32cb16_dither c =
     span565 c horz_get_pixel32 (horz_iterator32 c) (copy_dither (ditherMatrix c)) (ditherer_init c)"

definition scanline_t32cb16_clamp_dither :: "context_t \<Rightarrow> context_t option" where
  "scanline_t32cb16_clamp_dither c = span565_clamp c 4 2 (copy_dither (ditherMatrix c)) (ditherer_init c)"

definition scanline_t32cb16blend_dither :: "context_t \<Rightarrow> context_t option" where
  "scanline_t32cb16blend_dither c =
     span565 c horz_get_pixel32 (horz_iterator32 c) (blender_32to16_write_dither (ditherMatrix c)) (ditherer_init c)"

definition scanline_t32cb16blend_clamp :: "context_t \<Rightarrow> context_t option" where
  "scanline_t32cb16blend_clamp c = span565_clamp c 4 2 (plain blender_32to16_write) ()"

definition scanline_t32cb16blend_clamp_dither :: "context_t \<Rightarrow> context_t option" where
  "scanline_t32cb16blend_clamp_dither c =
     span565 c (clamp_get_pixel 4) (clamp_iterator_init c) (blender_32to16_write_dither (ditherMatrix c)) (ditherer_init c)"

definition scanline_t32cb16blend_clamp_mod :: "context_t \<Rightarrow> context_t option" where
  "scanline_t32cb16blend_clamp_mod c =
     span565 c (clamp_get_pixel 4) (clamp_iterator_init c) (plain (blender_32to16_modulate_write (blender_modulate_init c))) ()"

definition scanline_t32cb16blend_clamp_mod_dither :: "context_t \<Rightarrow> context_t option" where
  "scanline_t32cb16blend_clamp_mod_dither c =
     span565 c (clamp_get_pixel 4) (clamp_iterator_init c)
       (blender_32to16_modulate_write_dither (blender_modulate_init c) (ditherMatrix c)) (ditherer_init c)"

definition scanline_x32cb16blend_clamp_mod :: "context_t \<Rightarrow> context_t option" where
  "scanline_x32cb16blend_clamp_mod c =
     span565 c (clamp_get_pixel 4) (clamp_iterator_init c) (plain (blender_x32to16_modulate_write (blender_modulate_init c))) ()"

definition scanline_x32cb16blend_clamp_mod_dither :: "context_t \<Rightarrow> context_t option" where
  "scanline_x32cb16blend_clamp_mod_dither c =
     span565 c (clamp_get_pixel 4) (clamp_iterator_init c)
       (blender_x32to16_modulate_write_dither (blender_modulate_init c) (ditherMatrix c)) (ditherer_init c)"

definition scanline_t16cb16_clamp :: "context_t \<Rightarrow> context_t option" where
  "scanline_t16cb16_clamp c = span565_clamp c 2 1 (plain (copy_write id)) ()"

definition scanline_t32cb16blend :: "context_t \<Rightarrow> context_t option" where
  "scanline_t32cb16blend c = span565 c horz_get_pixel32 (horz_iterator32 c) (plain blender_32to16_write) ()"

definition scanline_t32cb16blend_srca :: "context_t \<Rightarrow> context_t option" where
  "scanline_t32cb16blend_srca c = span565 c horz_get_pixel32 (horz_iterator32 c) (plain blender_32to16_srcA_write) ()"

definition scanline_t16cb16blend_clamp_mod :: "context_t \<Rightarrow> context_t option" where
  "scanline_t16cb16blend_clamp_mod c =
     (let a = it_ydady (iterators c) div 2 ^ 16 in
      if a = 0 then Some c
      else if a = 255 then scanline_t16cb16_clamp c
      else span565 c (clamp_get_pixel 2) (clamp_iterator_init c) (plain (blender_16to16_modulate_write (blender_modulate_init c))) ())"

text \<open>The constant colour is not a source that is read: its blender ignores the source iterator.\<close>

definition scanline_col32cb16blend :: "context_t \<Rightarrow> context_t option" where
  "scanline_col32cb16blend c =
     (let s = packed8888 c in
      span565 c (\<lambda>m it. (s, it)) () (plain (\<lambda>s d. Some (over565 (inv_alpha (drop_bit 24 s)) s d))) ())"

text \<open>\<^verbatim>\<open>scanline_t32cb16\<close> writes pairs of pixels through \<^verbatim>\<open>dst32\<close>, which is never assigned: as soon as the
  pair loop runs the behaviour is undefined. Single pixels go through \<^verbatim>\<open>dst\<close>.\<close>

definition t32cb16_one :: "int \<Rightarrow> int \<Rightarrow> (int \<Rightarrow> u8) \<Rightarrow> (int \<Rightarrow> u8)" where
  "t32cb16_one dst src m = store_pixel m dst 2 (convertAbgr8888ToRgb565 (load_pixel m src 4))"

definition scanline_t32cb16 :: "context_t \<Rightarrow> context_t option" where
  "scanline_t32cb16 c =
     (let ct = dst_count c; dst = dst_address16 c; src = horz_iterator32 c;
          first = (ct = 1 \<or> dst mod 4 \<ge> 2);
          m = (if first then t32cb16_one dst src (memory c) else memory c);
          dst = (if first then dst + 2 else dst); src = (if first then src + 4 else src);
          ct = (if first then ct - 1 else ct)
      in if ct < 0 \<or> ct \<ge> 2 then None
         else Some (c\<lparr>memory := (if ct = 1 then t32cb16_one dst src m else m)\<rparr>))"

subsection \<open>What the loop writes\<close>

lemma span_loop_only:
  "b < dst \<or> dst + 2 * int n \<le> b \<Longrightarrow> span_loop get bl n dst it di m b = m b"
proof (induction n arbitrary: dst it di m)
  case 0
  then show ?case by simp
next
  case (Suc n)
  obtain s it' where g: "get m it = (s, it')" by fastforce
  obtain r di' where w: "bl s (load_pixel m dst 2) di = (r, di')" by fastforce
  have b: "b < dst + 2 \<or> dst + 2 + 2 * int n \<le> b" "b < dst \<or> dst + 2 \<le> b" using Suc.prems by auto
  have "store_pixel m dst 2 v b = m b" for v using store_pixel_outside [of b dst 2 m v] b(2) by simp
  then show ?case using Suc.IH [OF b(1)] by (simp add: g w split: option.split)
qed

lemma span565_only:
  assumes "span565 c get it bl di = Some c'"
  shows "writes_only {dst_address16 c ..< dst_address16 c + 2 * dst_count c} c c'"
proof -
  have "0 \<le> dst_count c" and c': "c' = c\<lparr>memory := span_loop get bl (nat (dst_count c)) (dst_address16 c) it di (memory c)\<rparr>"
    using assms by (simp_all add: span565_def split: if_splits)
  then show ?thesis by (auto simp: writes_only_def intro!: span_loop_only)
qed

subsection \<open>Fields of a 565 pixel\<close>

lemma uint_low: "uint (w AND 0x1F :: u32) = uint w mod 32" "uint (w AND 0x3F :: u32) = uint w mod 64"
  "uint (w AND 0xFF :: u32) = uint w mod 256" "uint (w AND 0xFFFF :: u32) = uint w mod 65536"
proof -
  have m: "uint (w AND mask n :: u32) = uint w mod 2 ^ n" for n
    by (simp only: take_bit_eq_mask [symmetric] unsigned_take_bit_eq) (simp only: take_bit_eq_mod)
  show "uint (w AND 0x1F :: u32) = uint w mod 32" using m [of 5] by (simp add: mask_eq_exp_minus_1)
  show "uint (w AND 0x3F :: u32) = uint w mod 64" using m [of 6] by (simp add: mask_eq_exp_minus_1)
  show "uint (w AND 0xFF :: u32) = uint w mod 256" using m [of 8] by (simp add: mask_eq_exp_minus_1)
  show "uint (w AND 0xFFFF :: u32) = uint w mod 65536" using m [of 16] by (simp add: mask_eq_exp_minus_1)
qed

lemma uint_drop: "uint (drop_bit n w :: u32) = uint w div 2 ^ n"
proof -
  have "take_bit 32 (uint w) = uint w" using uint_bounded [of w] by (intro take_bit_int_eq_self) simp_all
  then have "uint (drop_bit n w) = drop_bit n (uint w)" by (simp only: unsigned_drop_bit_eq) simp
  then show ?thesis by (simp only: drop_bit_eq_div)
qed

text \<open>Packing components that fit their fields.\<close>

lemma unpack565:
  assumes "uint r < 32" "uint g < 64" "uint b < 32"
  shows "red565 (pack565 r g b) = r" "green565 (pack565 r g b) = g" "blue565 (pack565 r g b) = b"
proof -
  have k: "k < n" if "uint w < 2 ^ n" "bit w k" for w :: u32 and n k
    using bit_bounded [of w n k] that by (simp add: uint_nat del: of_nat_unat)
  have rb: "bit r k \<Longrightarrow> k < 5" and gb: "bit g k \<Longrightarrow> k < 6" and bb: "bit b k \<Longrightarrow> k < 5" for k
    using k [of r 5] k [of g 6] k [of b 5] assms by auto
  have m: "(0x1F :: u32) = mask 5" "(0x3F :: u32) = mask 6" "(0xFFFF :: u32) = mask 16" by (simp_all add: mask_eq_exp_minus_1)
  show "red565 (pack565 r g b) = r"
    unfolding red565_def pack565_def m by (rule bit_word_eqI) (auto simp: bit_simps dest: rb gb bb)
  show "green565 (pack565 r g b) = g"
    unfolding green565_def pack565_def m by (rule bit_word_eqI) (auto simp: bit_simps dest: rb gb bb)
  show "blue565 (pack565 r g b) = b"
    unfolding blue565_def pack565_def m by (rule bit_word_eqI) (auto simp: bit_simps dest: rb gb bb)
qed


subsection \<open>Blending over\<close>

definition premultiplied :: "u32 \<Rightarrow> bool" where
  "premultiplied s \<longleftrightarrow> s AND 0xFF \<le> drop_bit 24 s \<and> drop_bit 8 s AND 0xFF \<le> drop_bit 24 s \<and> drop_bit 16 s AND 0xFF \<le> drop_bit 24 s"

text \<open>\<open>c + (256 - a) d / 256\<close> stays in the range of the destination when \<open>c\<close> is at most \<open>a\<close>.\<close>

lemma over_bound:
  fixes a c d K M :: int
  assumes "0 \<le> c" "c \<le> a" "a < 256" "0 \<le> d" "d < M" "0 < K" "K * M = 256"
  shows "c div K + (256 - (a + a div 128)) * d div 256 < M"
proof -
  let ?f = "256 - (a + a div 128)"
  have f: "0 \<le> ?f" "?f \<le> 256 - a" using assms(1-3) by linarith+
  have "?f * d \<le> (256 - a) * (M - 1)" using assms f by (intro mult_mono) auto
  moreover have "256 * (?f * d div 256) \<le> ?f * d" by simp
  ultimately have q: "256 * (?f * d div 256) \<le> (256 - a) * (M - 1)" by linarith
  have "K * (c div K) \<le> a" using assms(2,6) by (metis mult_div_mod_eq order_trans pos_mod_sign le_add_same_cancel1)
  then have "M * (K * (c div K)) \<le> M * a" using assms(4,5) by (intro mult_left_mono) auto
  then have p: "256 * (c div K) \<le> M * a" using assms(7) by (simp add: mult.assoc [symmetric] mult.commute [of M])
  have "256 * (c div K + ?f * d div 256) \<le> M * a + (256 - a) * (M - 1)" using p q unfolding distrib_left by linarith
  also have "\<dots> < 256 * M" using assms(3) by (simp add: algebra_simps)
  finally show ?thesis by simp
qed

lemma uint_add_small: "uint a + uint b < 2 ^ 32 \<Longrightarrow> uint (a + b) = uint a + uint b" for a b :: u32
  using add_nonneg_nonneg [OF uint_ge_0 [of a] uint_ge_0 [of b]] by (simp add: uint_word_ariths mod_pos_pos_trivial)

lemma over_channel:
  fixes s f c d :: u32
  assumes f: "f = inv_alpha A" "uint A < 256" and c: "uint v \<le> uint A" "uint c = uint v div K" and d: "uint d < M"
    and K: "0 < K" "K * M = 256" "M \<le> 64"
  shows "uint (c + drop_bit 8 (f * d)) = uint c + (256 - (uint A + uint A div 128)) * uint d div 256"
    "uint (c + drop_bit 8 (f * d)) < M"
proof -
  let ?f = "256 - (uint A + uint A div 128)"
  have A: "0 \<le> uint A" "uint A div 128 \<le> 1" "0 \<le> uint A div 128" using f(2) uint_ge_0 [of A] by linarith+
  have "0 \<le> ?f" "?f \<le> 256" using A f(2) by linarith+
  moreover then have "?f < 2 ^ 32" by simp
  moreover have "inv_alpha A = word_of_int ?f"
  proof -
    have "drop_bit 7 A = word_of_int (uint A div 128)"
      using arg_cong [OF uint_drop [of 7 A], of "word_of_int :: int \<Rightarrow> u32"] by simp
    then show ?thesis unfolding inv_alpha_def by simp
  qed
  ultimately have uf: "uint f = ?f" unfolding f(1) using uint_word_of_int_small [of ?f] by (simp only:)
  have b: "?f * uint d \<le> 256 * 64" using \<open>0 \<le> ?f\<close> \<open>?f \<le> 256\<close> d K(3) by (intro mult_mono) auto
  have "uint (f * d) = ?f * uint d" using b \<open>0 \<le> ?f\<close> by (subst uint_mult_small) (simp_all add: uf)
  then have dr: "uint (drop_bit 8 (f * d)) = ?f * uint d div 256" by (simp add: uint_drop)
  have lt: "uint c + ?f * uint d div 256 < M" using over_bound [OF _ c(1) f(2) _ d K(1,2)] c(2) by simp
  have "uint c + uint (drop_bit 8 (f * d)) < 64" using lt K(3) unfolding dr by linarith
  also have "(64 :: int) < 2 ^ 32" by simp
  finally have "uint c + uint (drop_bit 8 (f * d)) < 2 ^ 32" .
  then have "uint (c + drop_bit 8 (f * d)) = uint c + ?f * uint d div 256"
    using uint_add_small dr by simp
  then show "uint (c + drop_bit 8 (f * d)) = uint c + ?f * uint d div 256" "uint (c + drop_bit 8 (f * d)) < M" using lt by simp_all
qed


text \<open>The channels of a 32-bit source in the destination's scale.\<close>

lemma mod_div_mod: "0 < b \<Longrightarrow> 0 < c \<Longrightarrow> x mod (b * c) div b = x div b mod (c :: int)"
  by (simp add: zmod_zmult2_eq)

lemma source_channels:
  "uint (red_of s) = uint (s AND 0xFF) div 8" "uint (green_of s) = uint (drop_bit 8 s AND 0xFF) div 4"
  "uint (blue_of s) = uint (drop_bit 16 s AND 0xFF) div 8" "uint (drop_bit 24 s) < 256"
proof -
  have s: "0 \<le> uint s" "uint s < 2 ^ 32" using uint_bounded [of s] by simp_all
  show "uint (red_of s) = uint (s AND 0xFF) div 8" 
    using mod_div_mod [of 8 32 "uint s"] by (simp add: red_of_def uint_low uint_drop)
  show "uint (green_of s) = uint (drop_bit 8 s AND 0xFF) div 4" 
    using mod_div_mod [of 4 64 "uint s div 256"] by (simp add: green_of_def uint_low uint_drop zdiv_zmult2_eq [symmetric])
  show "uint (blue_of s) = uint (drop_bit 16 s AND 0xFF) div 8" 
    using mod_div_mod [of 8 32 "uint s div 65536"] by (simp add: blue_of_def uint_low uint_drop zdiv_zmult2_eq [symmetric])
  show "uint (drop_bit 24 s) < 256" using s by (simp add: uint_drop)
qed

lemma dest_channels: "uint (red565 d) < 32" "uint (green565 d) < 64" "uint (blue565 d) < 32"
  by (simp_all add: red565_def green565_def blue565_def uint_low)

lemma convert_channels: "convertAbgr8888ToRgb565 s = pack565 (red_of s) (green_of s) (blue_of s)"
proof -
  have m: "(0x1F :: u32) = mask 5" "(0x3F :: u32) = mask 6" "(0xFFFF :: u32) = mask 16" "(0xF800 :: u32) = push_bit 11 (mask 5)"
    "(0x07E0 :: u32) = push_bit 5 (mask 6)" by (simp_all add: mask_eq_exp_minus_1)
  show ?thesis unfolding convertAbgr8888ToRgb565_def pack565_def red_of_def green_of_def blue_of_def m
    by (rule bit_word_eqI) (auto simp: bit_simps)
qed

lemma over_opaque: "uint A = 255 \<Longrightarrow> inv_alpha A = 0"
proof -
  assume "uint A = 255"
  then have "A = 255" by (metis word_of_int_uint of_int_numeral)
  then show ?thesis by (simp add: inv_alpha_def)
qed

subsection \<open>Properties\<close>

text \<open>C25. The premultiplied source-over blender. For every source pixel whose colours do not exceed its
  alpha and every destination, each channel of the stored 565 pixel is exactly the source channel plus the
  destination channel weighted by the inverse alpha, and no channel overflows into its neighbour; the
  opaque and the transparent shortcuts of the code give the same values as the general formula.\<close>

theorem blender_over_exact:
  assumes "premultiplied s"
  shows "\<exists>d' f. d' = (case blender_32to16_write s d of None \<Rightarrow> d | Some v \<Rightarrow> v) \<and>
    f = 256 - (uint (drop_bit 24 s) + uint (drop_bit 24 s) div 128) \<and>
    uint (red565 d') = uint (red_of s) + f * uint (red565 d) div 256 \<and>
    uint (green565 d') = uint (green_of s) + f * uint (green565 d) div 256 \<and>
    uint (blue565 d') = uint (blue_of s) + f * uint (blue565 d) div 256"
proof -
  let ?A = "drop_bit 24 s"
  let ?f = "256 - (uint ?A + uint ?A div 128)"
  note ch = source_channels [of s] and dc = dest_channels [of d]
  have pm: "uint (s AND 0xFF) \<le> uint ?A" "uint (drop_bit 8 s AND 0xFF) \<le> uint ?A" "uint (drop_bit 16 s AND 0xFF) \<le> uint ?A"
    using assms by (simp_all add: premultiplied_def word_le_def)
  note r = over_channel [OF refl ch(4) pm(1) ch(1) dc(1), simplified]
  note g = over_channel [OF refl ch(4) pm(2) ch(2) dc(2), simplified]
  note b = over_channel [OF refl ch(4) pm(3) ch(3) dc(3), simplified]
  have ov: "red565 (over565 (inv_alpha ?A) s d) = red_of s + drop_bit 8 (inv_alpha ?A * red565 d)"
    "green565 (over565 (inv_alpha ?A) s d) = green_of s + drop_bit 8 (inv_alpha ?A * green565 d)"
    "blue565 (over565 (inv_alpha ?A) s d) = blue_of s + drop_bit 8 (inv_alpha ?A * blue565 d)"
    unfolding over565_def by (rule unpack565; use r(2) g(2) b(2) in simp)+
  have "convertAbgr8888ToRgb565 s = over565 (inv_alpha ?A) s d" if "?A = 0xFF"
    using over_opaque [of ?A] that by (simp add: convert_channels over565_def)
  then have w: "s \<noteq> 0 \<Longrightarrow> blender_32to16_write s d = Some (over565 (inv_alpha ?A) s d)"
    by (simp add: blender_32to16_write_def Let_def)
  show ?thesis
  proof (cases "s = 0")
    case True
    then show ?thesis by (simp add: blender_32to16_write_def red_of_def green_of_def blue_of_def)
  next
    case False
    then show ?thesis unfolding w [OF False] by (simp add: ov r(1) g(1) b(1))
  qed
qed

theorem blender_over_exact_witness:
  "\<exists>d'. blender_32to16_write 0x80402010 0xFFFF = Some d' \<and> uint (red565 d') = 2 + 127 * 31 div 256"
proof -
  have p: "premultiplied 0x80402010" by (simp add: premultiplied_def drop_bit_eq_div)
  have "blender_32to16_write 0x80402010 0xFFFF \<noteq> None" by (simp add: blender_32to16_write_def Let_def)
  then show ?thesis using blender_over_exact [OF p, of "0xFFFF"]
    by (auto simp: red_of_def red565_def drop_bit_eq_div)
qed

subsection \<open>The horizontal special case\<close>

text \<open>Loops over related iterators that read the same pixels do the same.\<close>

lemma span_loop_related:
  assumes "R it it'" "\<And>m i i'. R i i' \<Longrightarrow> fst (get m i) = fst (get' m i') \<and> R (snd (get m i)) (snd (get' m i'))"
  shows "span_loop get bl n dst it di m = span_loop get' bl n dst it' di m"
  using assms(1)
proof (induction n arbitrary: dst it it' di m)
  case 0
  then show ?case by simp
next
  case (Suc n)
  have g: "fst (get m it) = fst (get' m it')" "R (snd (get m it)) (snd (get' m it'))" using assms(2) [OF Suc.prems] by blast+
  show ?case using Suc.IH [OF g(2)] by (simp add: case_prod_beta g(1) Let_def)
qed

text \<open>A texture whose addresses do not leave the range of \<^verbatim>\<open>int\<close>.\<close>

definition texture_fits :: "surface_t \<Rightarrow> bool" where
  "texture_fits s \<longleftrightarrow> 0 < sf_width s \<and> 0 < sf_height s \<and> uint (sf_width s) \<le> sf_stride s \<and>
     sf_stride s * uint (sf_height s) * 4 < 2 ^ 31"

lemma sint_pred: "0 < w \<Longrightarrow> uint w < 2 ^ 31 \<Longrightarrow> sint (w - 1) = uint w - 1 \<and> sint w = uint w" for w :: u32
proof -
  assume w: "0 < w" "uint w < 2 ^ 31"
  have "uint (w - 1) = uint w - 1" using w(1) uint_minus_simple_alt [of 1 w] by (simp add: word_le_def word_less_def)
  then show ?thesis using w(2) uint_small(2) [of "w - 1"] uint_small(2) [of w] by simp
qed

lemma clamp_to_range: "0 \<le> hi \<Longrightarrow> 0 \<le> clamp_to hi u \<and> clamp_to hi u \<le> hi"
  by (simp add: clamp_to_def Let_def)

lemma texture_fits_bounds:
  assumes "texture_fits s"
  shows "0 < uint (sf_width s)" "0 < uint (sf_height s)" "0 < sf_stride s" "uint (sf_width s) \<le> sf_stride s"
    "sf_stride s * uint (sf_height s) * 4 < 2147483648" "uint (sf_width s) < 2 ^ 31" "uint (sf_height s) < 2 ^ 31"
proof -
  show w: "0 < uint (sf_width s)" "0 < uint (sf_height s)" using assms by (simp_all add: texture_fits_def word_less_def)
  show st: "uint (sf_width s) \<le> sf_stride s" and p: "sf_stride s * uint (sf_height s) * 4 < 2147483648"
    using assms by (simp_all add: texture_fits_def)
  show s: "0 < sf_stride s" using w(1) st by linarith
  have "sf_stride s * 1 \<le> sf_stride s * uint (sf_height s)" "1 * uint (sf_height s) \<le> sf_stride s * uint (sf_height s)"
    using s w by (intro mult_left_mono mult_right_mono; simp)+
  then have "uint (sf_width s) < 2147483648" "uint (sf_height s) < 2147483648" using p st s by linarith+
  then show "uint (sf_width s) < 2 ^ 31" "uint (sf_height s) < 2 ^ 31" by simp_all
qed

lemma horizontal_span:
  assumes h: "is_context_horizontal c" and fit: "texture_fits (tx_surface (texture (state c) ! 0))" and sz: "sz = 2 ^ shift" "sz \<in> {2, 4}"
  shows "span565 c (horz_clamp_get_pixel sz) (horz_clamp_init c shift) bl di =
    span565 c (clamp_get_pixel sz) (clamp_iterator_init c) bl di"
proof -
  let ?tx = "texture (state c) ! 0"
  let ?s = "tx_surface ?tx" and ?ti = "tx_iterators ?tx"
  note b = texture_fits_bounds [OF fit]
  have pos: "0 < sf_width ?s" "0 < sf_height ?s" using fit by (simp_all add: texture_fits_def)
  note wi = sint_pred [OF pos(1) b(6)] and he = sint_pred [OF pos(2) b(7)]
  define t where "t = s32 (it_xl (iterators c) * ti_dtdx ?ti + ti_ydtdy ?ti)"
  define V where "V = clamp_to (uint (sf_height ?s) - 1) (t div 65536)"
  have V: "0 \<le> V" "V \<le> uint (sf_height ?s) - 1" using clamp_to_range [of "uint (sf_height ?s) - 1" "t div 65536"] b(2) by (simp_all add: V_def)
  define R where "R = (\<lambda>(i :: horz_clamp_iterator) (i' :: clamp_iterator).
    hc_s i = ci_s i' \<and> hc_ds i = ci_ds i' \<and> hc_width_m1 i = uint (sf_width ?s) - 1 \<and> ci_width_m1 i' = uint (sf_width ?s) - 1 \<and>
    ci_height_m1 i' = uint (sf_height ?s) - 1 \<and> ci_t i' = t \<and> ci_dt i' = 0 \<and> ci_data i' = sf_data ?s \<and> ci_stride i' = sf_stride ?s \<and>
    hc_data i = sf_data ?s + sf_stride ?s * V * int sz)"
  have "0 \<le> sf_stride ?s * V" "sf_stride ?s * V \<le> sf_stride ?s * (uint (sf_height ?s) - 1)"
    using b(3) V by (simp_all add: mult_left_mono)
  then have sv: "0 \<le> sf_stride ?s * V" "sf_stride ?s * V + sf_stride ?s \<le> sf_stride ?s * uint (sf_height ?s)"
    by (simp_all add: algebra_simps)
  have init: "R (horz_clamp_init c shift) (clamp_iterator_init c)"
  proof -
    have e1: "s32 (s32 (sf_stride ?s * V) * 2 ^ shift) = sf_stride ?s * V * int sz"
    proof -
      define P where "P = sf_stride ?s * V"
      have P: "0 \<le> P" "P * 4 < 2147483648" using sv b(3,5) unfolding P_def by linarith+
      have "s32 P = P" using P by (intro s32_id') linarith+
      moreover have "s32 (P * int sz) = P * int sz" using sz(2) P by (auto intro!: s32_id')
      ultimately show ?thesis unfolding P_def [symmetric] by (simp add: sz(1))
    qed
    have e2: "(if t div 2 ^ 16 < 0 then 0 else if t div 2 ^ 16 \<ge> sint (sf_height ?s) then s32 (sint (sf_height ?s) - 1) else t div 2 ^ 16) = V"
      using b(2,7) he by (simp add: V_def clamp_to_def Let_def s32_id')
    show ?thesis
      unfolding R_def horz_clamp_init_def clamp_iterator_init_def Let_def t_def [symmetric] e2 e1
      using h wi he by (simp add: is_context_horizontal_def)
  qed
  have step: "fst (horz_clamp_get_pixel sz m i) = fst (clamp_get_pixel sz m i') \<and>
      R (snd (horz_clamp_get_pixel sz m i)) (snd (clamp_get_pixel sz m i'))" if r: "R i i'" for m i i'
  proof -
    define u where "u = clamp_to (uint (sf_width ?s) - 1) (ci_s i' div 65536)"
    have u: "0 \<le> u" "u \<le> uint (sf_width ?s) - 1" using clamp_to_range [of "uint (sf_width ?s) - 1" "ci_s i' div 65536"] b(1) by (simp_all add: u_def)
    have "s32 (u + sf_stride ?s * V) = u + sf_stride ?s * V" using sv b(3,4,5) u by (intro s32_id') auto
    then have "sf_data ?s + s32 (u + sf_stride ?s * V) * int sz = sf_data ?s + sf_stride ?s * V * int sz + u * int sz" by (simp add: algebra_simps)
    moreover have "s32 t = t" by (simp add: t_def)
    ultimately show ?thesis using r
      by (simp add: R_def horz_clamp_get_pixel_def clamp_get_pixel_def get_uv_def Let_def V_def [symmetric] u_def [symmetric] add.assoc)
  qed
  have "span_loop (horz_clamp_get_pixel sz) bl n dst (horz_clamp_init c shift) di m =
      span_loop (clamp_get_pixel sz) bl n dst (clamp_iterator_init c) di m" for n dst m
    by (rule span_loop_related [where R = R, OF init step])
  then show ?thesis by (simp add: span565_def)
qed

text \<open>C26. The horizontal special case. The four clamped pipelines switch to a cheaper iterator when the
  texture row does not change along the span. For every texture whose addresses stay in the range of
  \<^verbatim>\<open>int\<close>, the result is the one of the general clamping iterator.\<close>

theorem horizontal_case_equivalent:
  assumes "texture_fits (tx_surface (texture (state c) ! 0))"
  shows "scanline_t32cb16_clamp c =
      span565 c (clamp_get_pixel 4) (clamp_iterator_init c) (plain (copy_write convertAbgr8888ToRgb565)) () \<and>
    scanline_t32cb16_clamp_dither c =
      span565 c (clamp_get_pixel 4) (clamp_iterator_init c) (copy_dither (ditherMatrix c)) (ditherer_init c) \<and>
    scanline_t32cb16blend_clamp c =
      span565 c (clamp_get_pixel 4) (clamp_iterator_init c) (plain blender_32to16_write) () \<and>
    scanline_t16cb16_clamp c =
      span565 c (clamp_get_pixel 2) (clamp_iterator_init c) (plain (copy_write id)) ()"
proof -
  show ?thesis
    unfolding scanline_t32cb16_clamp_def scanline_t32cb16_clamp_dither_def scanline_t32cb16blend_clamp_def scanline_t16cb16_clamp_def
    by (simp add: span565_clamp_def horizontal_span [OF _ assms])
qed

definition demo_texture :: context_t where
  "demo_texture = upd_tmu 0 (\<lambda>t. t\<lparr>tx_surface := surface_zero\<lparr>sf_width := 4, sf_height := 4, sf_stride := 4, sf_format := 1\<rparr>\<rparr>) demo_ctx"

theorem horizontal_case_equivalent_witness:
  "scanline_t16cb16_clamp demo_texture =
     span565 demo_texture (clamp_get_pixel 2) (clamp_iterator_init demo_texture) (plain (copy_write id)) ()"
proof -
  have "texture_fits (tx_surface (texture (state demo_texture) ! 0))"
    by (simp add: texture_fits_def demo_texture_def demo_ctx_def surface_zero_def upd_tmu_def upd_state_def)
  then show ?thesis using horizontal_case_equivalent by blast
qed

end
