(* ===== verification/GGLScanline.thy ===== *)
theory GGLScanline
  imports GGLSpan565 GGLClear
begin

text \<open>
  The remaining scanline functions of \<^verbatim>\<open>libpixelflinger/scanline.cpp\<close>: the fills and the copy, the two
  perspective drivers that cut a scanline into spans of 32 pixels, the calls through \<^verbatim>\<open>c->scanline\<close>,
  \<^verbatim>\<open>c->span\<close> and \<^verbatim>\<open>c->rect\<close>, and the rectangle blitters. \<^term>\<open>None\<close> is undefined behaviour: a null
  procedure, a negative count, a \<^verbatim>\<open>memcpy\<close> of overlapping ranges.
\<close>

subsection \<open>Fills and copies\<close>

text \<open>\<^verbatim>\<open>size_t ct = xr - xl\<close>\<close>

definition span_ct :: "context_t \<Rightarrow> nat" where
  "span_ct c = nat (s32 (it_xr (iterators c) - it_xl (iterators c)) mod 2 ^ 64)"

text \<open>The address of the first pixel of the span, by the size of a pixel of the pointer's type; the
  functions that work on bytes multiply by \<^verbatim>\<open>fp->size\<close> in \<^verbatim>\<open>int\<close>.\<close>

definition cb_address :: "context_t \<Rightarrow> nat \<Rightarrow> int" where
  "cb_address c sz =
     (let cb = fb_color (buffers (state c)) in sf_data cb + s32 (it_xl (iterators c) + sf_stride cb * it_y (iterators c)) * int sz)"

definition cb_byte_address :: "context_t \<Rightarrow> nat \<Rightarrow> int" where
  "cb_byte_address c sz =
     (let cb = fb_color (buffers (state c))
      in sf_data cb + s32 (s32 (it_xl (iterators c) + sf_stride cb * it_y (iterators c)) * int sz))"

definition tex_byte_address :: "context_t \<Rightarrow> nat \<Rightarrow> int" where
  "tex_byte_address c sz =
     (let tex = tx_surface (texture (state c) ! 0) in sf_data tex + s32 (s32 (tex_u c + sf_stride tex * tex_v c) * int sz))"

definition cb_size :: "context_t \<Rightarrow> nat" where
  "cb_size c = fm_size (the_format (sf_format (fb_color (buffers (state c)))))"

definition memcpy :: "(int \<Rightarrow> u8) \<Rightarrow> int \<Rightarrow> int \<Rightarrow> nat \<Rightarrow> (int \<Rightarrow> u8) option" where
  "memcpy m dst src n =
     (if dst < src + int n \<and> src < dst + int n then None
      else Some (\<lambda>b. if dst \<le> b \<and> b < dst + int n then m (src + (b - dst)) else m b))"

definition scanline_memcpy :: "context_t \<Rightarrow> context_t option" where
  "scanline_memcpy c = do {
     m \<leftarrow> memcpy (memory c) (cb_byte_address c (cb_size c)) (tex_byte_address c (cb_size c)) (span_ct c * cb_size c);
     Some (c\<lparr>memory := m\<rparr>)
   }"

definition scanline_memset8 :: "context_t \<Rightarrow> context_t option" where
  "scanline_memset8 c = Some (c\<lparr>memory := memset8 (memory c) (cb_address c 1) (packed c) (span_ct c)\<rparr>)"

definition scanline_memset16 :: "context_t \<Rightarrow> context_t option" where
  "scanline_memset16 c = Some (c\<lparr>memory := android_memset16 (memory c) (cb_address c 2) (packed c) (span_ct c * 2)\<rparr>)"

definition scanline_memset32 :: "context_t \<Rightarrow> context_t option" where
  "scanline_memset32 c = Some (c\<lparr>memory := android_memset32 (memory c) (cb_address c 4) (packed c) (span_ct c * 4)\<rparr>)"

definition scanline_clear :: "context_t \<Rightarrow> context_t option" where
  "scanline_clear c = Some (c\<lparr>memory := memset8 (memory c) (cb_byte_address c (cb_size c)) 0 (span_ct c * cb_size c)\<rparr>)"

definition scanline_set :: "context_t \<Rightarrow> context_t option" where
  "scanline_set c = Some (c\<lparr>memory := memset8 (memory c) (cb_byte_address c (cb_size c)) 0xFF (span_ct c * cb_size c)\<rparr>)"

definition scanline_noop :: "context_t \<Rightarrow> context_t option" where
  "scanline_noop c = Some c"

subsection \<open>The pipelines a perspective span can run\<close>

text \<open>The call through \<^verbatim>\<open>c->span\<close>, and through \<^verbatim>\<open>c->scanline\<close> when it is not a perspective driver.\<close>

definition run_span :: "scanline_proc \<Rightarrow> context_t \<Rightarrow> context_t option" where
  "run_span p c = (case p of
     Scanline \<Rightarrow> scanline c
   | Scanline_t32cb16blend \<Rightarrow> scanline_t32cb16blend c
   | Scanline_t32cb16blend_dither \<Rightarrow> scanline_t32cb16blend_dither c
   | Scanline_t32cb16blend_srca \<Rightarrow> scanline_t32cb16blend_srca c
   | Scanline_t32cb16blend_clamp \<Rightarrow> scanline_t32cb16blend_clamp c
   | Scanline_t32cb16blend_clamp_dither \<Rightarrow> scanline_t32cb16blend_clamp_dither c
   | Scanline_t32cb16blend_clamp_mod \<Rightarrow> scanline_t32cb16blend_clamp_mod c
   | Scanline_x32cb16blend_clamp_mod \<Rightarrow> scanline_x32cb16blend_clamp_mod c
   | Scanline_t32cb16blend_clamp_mod_dither \<Rightarrow> scanline_t32cb16blend_clamp_mod_dither c
   | Scanline_x32cb16blend_clamp_mod_dither \<Rightarrow> scanline_x32cb16blend_clamp_mod_dither c
   | Scanline_t32cb16 \<Rightarrow> scanline_t32cb16 c
   | Scanline_t32cb16_dither \<Rightarrow> scanline_t32cb16_dither c
   | Scanline_t32cb16_clamp \<Rightarrow> scanline_t32cb16_clamp c
   | Scanline_t32cb16_clamp_dither \<Rightarrow> scanline_t32cb16_clamp_dither c
   | Scanline_col32cb16blend \<Rightarrow> scanline_col32cb16blend c
   | Scanline_t16cb16_clamp \<Rightarrow> scanline_t16cb16_clamp c
   | Scanline_t16cb16blend_clamp_mod \<Rightarrow> scanline_t16cb16blend_clamp_mod c
   | Scanline_memcpy \<Rightarrow> scanline_memcpy c
   | Scanline_memset8 \<Rightarrow> scanline_memset8 c
   | Scanline_memset16 \<Rightarrow> scanline_memset16 c
   | Scanline_memset32 \<Rightarrow> scanline_memset32 c
   | Scanline_noop \<Rightarrow> scanline_noop c
   | Scanline_set \<Rightarrow> scanline_set c
   | Scanline_clear \<Rightarrow> scanline_clear c
   | _ \<Rightarrow> None)"

subsection \<open>Perspective\<close>

text \<open>The coordinates at the start of the scanline, before the division by \<open>w\<close>.\<close>

definition coord_start :: "int \<Rightarrow> int \<Rightarrow> int \<Rightarrow> int \<Rightarrow> int \<Rightarrow> int" where
  "coord_start v0 dvdx dvdy xs ys = s32 (v0 + dvdy * ys + dvdx * xs + s32 (dvdx + dvdy) div 2)"

text \<open>\<^verbatim>\<open>gglMulx\<close> with a variable shift; a shift of 0 is outside its domain.\<close>

definition mulx :: "int \<Rightarrow> int \<Rightarrow> int \<Rightarrow> int option" where
  "mulx a b sh = (if 1 \<le> sh \<and> sh \<le> 32 then Some (gglMulx a b (nat sh)) else None)"

text \<open>One coordinate of a unit in \<^verbatim>\<open>scanline_perspective\<close>: the value and its quotient at the start of the
  span; the result has those at its end and the iterator's start and step. A length of 0 is a full span of
  32 pixels.\<close>

definition persp_coord :: "int \<Rightarrow> int \<Rightarrow> int \<Rightarrow> int \<Rightarrow> int \<Rightarrow> int \<times> int \<Rightarrow> ((int \<times> int) \<times> int \<times> int) option" where
  "persp_coord dx q1 iwscale span sc vq = (case vq of (v, v0) \<Rightarrow> do {
     let v = (if span \<noteq> 0 then s32 (v + dx * span) else s32 (v + dx * 2 ^ 5));
     v1 \<leftarrow> mulx v q1 iwscale;
     let d = s32 (v1 - v0);
     let dvdx = (if span \<noteq> 0 then d sdiv span else d div 2 ^ 5);
     let scale = sc + (iwscale - 30);
     y \<leftarrow> scale_by scale v0;
     dvdx \<leftarrow> scale_by scale dvdx;
     Some ((v, v1), y, dvdx)
   })"

type_synonym persp_unit = "(int \<times> int) \<times> (int \<times> int)"

definition persp_unit_span ::
  "int \<Rightarrow> int \<Rightarrow> int \<Rightarrow> nat \<Rightarrow> context_t \<times> persp_unit list \<Rightarrow> (context_t \<times> persp_unit list) option" where
  "persp_unit_span q1 iwscale span i p = (case p of (c, tc) \<Rightarrow>
     let tmu = texture (state c) ! i; sh = tx_shade tmu; ti = tx_iterators tmu in
     if \<not> tx_enable tmu then Some p
     else do {
       (s, ys, ds) \<leftarrow> persp_coord (idsdx sh) q1 iwscale span (ti_sscale ti) (fst (tc ! i));
       (t, yt, dt) \<leftarrow> persp_coord (idtdx sh) q1 iwscale span (ti_tscale ti) (snd (tc ! i));
       let c = upd_tmu i (\<lambda>tx. tx\<lparr>tx_iterators := (tx_iterators tx)\<lparr>ti_ydsdy := ys, ti_dsdx := ds, ti_ydtdy := yt, ti_dtdx := dt\<rparr>\<rparr>) c;
       Some (c\<lparr>generated_tex := (generated_tex c)[i := (generated_tex c ! i)\<lparr>gt_dsdx := ds, gt_dtdx := dt\<rparr>]\<rparr>, tc[i := (s, t)])
     })"

definition persp_start :: "context_t \<Rightarrow> int \<Rightarrow> int \<Rightarrow> nat \<Rightarrow> persp_unit option" where
  "persp_start c q0 iwscale i =
     (let sh = tx_shade (texture (state c) ! i); xs = it_xl (iterators c); ys = it_y (iterators c);
          s = coord_start (is0 sh) (idsdx sh) (idsdy sh) xs ys; t = coord_start (it0 sh) (idtdx sh) (idtdy sh) xs ys
      in do { sq \<leftarrow> mulx s q0 iwscale; tq \<leftarrow> mulx t q0 iwscale; Some ((s, sq), (t, tq)) })"

text \<open>The loop over the spans: \<open>n\<close> full spans, then the rest.\<close>

fun persp_spans :: "int \<Rightarrow> int \<Rightarrow> nat \<Rightarrow> int \<Rightarrow> int \<Rightarrow> context_t \<times> persp_unit list \<Rightarrow> context_t option" where
  "persp_spans iwscale rest n w0 xl (c, tc) =
     (let full = (n \<noteq> 0); span = (if full then 0 else rest);
          w1 = (if full then s32 (w0 + s32 (sh_dwdx (shade c) * 2 ^ 5)) else s32 (sh_dwdx (shade c) * span + w0)) in
      if \<not> full \<and> rest = 0 then Some c
      else do {
        q1 \<leftarrow> gglRecipQ w1 30;
        p \<leftarrow> persp_unit_span q1 iwscale span 0 (c, tc);
        (c, tc) \<leftarrow> persp_unit_span q1 iwscale span 1 p;
        let xr = s32 (xl + (if span \<noteq> 0 then span else 32));
        let c = upd_iterators (\<lambda>ci. ci\<lparr>it_xl := xl, it_xr := xr\<rparr>) c;
        c \<leftarrow> run_span (span_ptr c) c;
        (case n of 0 \<Rightarrow> Some c | Suc k \<Rightarrow> persp_spans iwscale rest k w1 xr (c, tc))
      })"

definition scanline_perspective :: "context_t \<Rightarrow> context_t option" where
  "scanline_perspective c =
     (let ci = iterators c; xc = (it_xr ci - it_xl ci) mod 2 ^ 32; w0 = s32 (it_xl ci * sh_dwdx (shade c) + it_ydwdy ci) in do {
        q0 \<leftarrow> gglRecipQ w0 30;
        let iwscale = 32 - gglClz q0;
        t0 \<leftarrow> (if tx_enable (texture (state c) ! 0) then persp_start c q0 iwscale 0 else Some ((0, 0), (0, 0)));
        t1 \<leftarrow> (if tx_enable (texture (state c) ! 1) then persp_start c q0 iwscale 1 else Some ((0, 0), (0, 0)));
        persp_spans iwscale (xc mod 32) (nat (xc div 32)) w0 (it_xl ci) (c, [t0, t1])
      })"

text \<open>\<^verbatim>\<open>scanline_perspective_single\<close>: the part at the label \<^verbatim>\<open>finish\<close>, then the full spans.\<close>

definition single_finish :: "nat \<Rightarrow> int \<Rightarrow> int \<Rightarrow> int \<times> int \<Rightarrow> int \<times> int \<Rightarrow> int \<Rightarrow> int \<Rightarrow> context_t \<Rightarrow> context_t option" where
  "single_finish i ss ts st0 dst xl xr c = do {
     let c = upd_iterators (\<lambda>ci. ci\<lparr>it_xl := xl, it_xr := xr\<rparr>) c;
     ys \<leftarrow> scale_by ss (fst st0);
     ds \<leftarrow> scale_by ss (fst dst);
     yt \<leftarrow> scale_by ts (snd st0);
     dt \<leftarrow> scale_by ts (snd dst);
     let c = upd_tmu i (\<lambda>tx. tx\<lparr>tx_iterators := (tx_iterators tx)\<lparr>ti_ydsdy := ys, ti_dsdx := ds, ti_ydtdy := yt, ti_dtdx := dt\<rparr>\<rparr>) c;
     let c = c\<lparr>generated_tex := (generated_tex c)[i := (generated_tex c ! i)\<lparr>gt_dsdx := ds, gt_dtdx := dt\<rparr>]\<rparr>;
     run_span (span_ptr c) c
   }"

fun single_spans :: "nat \<Rightarrow> int \<Rightarrow> int \<Rightarrow> int \<Rightarrow> nat \<Rightarrow> int \<Rightarrow> int \<times> int \<Rightarrow> int \<times> int \<Rightarrow> int \<Rightarrow> context_t \<Rightarrow> context_t option" where
  "single_spans i iwscale ss ts 0 w st st0 xl c = Some c"
| "single_spans i iwscale ss ts (Suc n) w st st0 xl c = do {
     let sh = tx_shade (texture (state c) ! i);
     let w = s32 (w + s32 (sh_dwdx (shade c) * 2 ^ 5));
     let s = s32 (fst st + s32 (idsdx sh * 2 ^ 5));
     let t = s32 (snd st + s32 (idtdx sh * 2 ^ 5));
     iw \<leftarrow> gglRecipQ w 30;
     sq \<leftarrow> mulx s iw iwscale;
     tq \<leftarrow> mulx t iw iwscale;
     let dsdx = s32 (sq - fst st0) div 2 ^ 5;
     let dtdx = s32 (tq - snd st0) div 2 ^ 5;
     c \<leftarrow> single_finish i ss ts st0 (dsdx, dtdx) xl (s32 (xl + 32)) c;
     single_spans i iwscale ss ts n w (s, t) (sq, tq) (s32 (xl + 32)) c
   }"

definition scanline_perspective_single :: "context_t \<Rightarrow> context_t option" where
  "scanline_perspective_single c =
     (let ci = iterators c; xc = (it_xr ci - it_xl ci) mod 2 ^ 32; dwdx = sh_dwdx (shade c);
          w = s32 (it_xl ci * dwdx + it_ydwdy ci); k = 31 - gglClz (sint (enabled_tmu (state c))); i = nat k;
          tmu = texture (state c) ! i; sh = tx_shade tmu; ti = tx_iterators tmu in
      if k < 0 \<or> k \<ge> 2 then None
      else do {
        iw \<leftarrow> gglRecipQ w 30;
        let iwscale = 32 - gglClz iw;
        let ss = ti_sscale ti + (iwscale - 30);
        let ts = ti_tscale ti + (iwscale - 30);
        let s = coord_start (is0 sh) (idsdx sh) (idsdy sh) (it_xl ci) (it_y ci);
        let t = coord_start (it0 sh) (idtdx sh) (idtdy sh) (it_xl ci) (it_y ci);
        s0 \<leftarrow> mulx s iw iwscale;
        t0 \<leftarrow> mulx t iw iwscale;
        let flat = (dwdx = 0);
        let pre = (if flat then s32 xc else xc mod 32);
        let n = (if flat then 0 else nat (xc div 32));
        if flat \<or> pre \<noteq> 0 then
          if pre = 0 then None
          else do {
            let w = (if flat then w else s32 (w + dwdx * pre));
            iw \<leftarrow> (if flat then Some iw else gglRecipQ w 30);
            let s = s32 (s + idsdx sh * pre);
            let t = s32 (t + idtdx sh * pre);
            sq \<leftarrow> mulx s iw iwscale;
            tq \<leftarrow> mulx t iw iwscale;
            let d = (s32 (sq - s0) sdiv pre, s32 (tq - t0) sdiv pre);
            c \<leftarrow> single_finish i ss ts (s0, t0) d (it_xl ci) (s32 (it_xl ci + pre)) c;
            single_spans i iwscale ss ts n w (s, t) (sq, tq) (s32 (it_xl ci + pre)) c
          }
        else single_spans i iwscale ss ts n w (s, t) (s0, t0) (it_xl ci) c
      })"

subsection \<open>Rectangles\<close>

definition call_scanline :: "context_t \<Rightarrow> context_t option" where
  "call_scanline c = (case scanline_ptr c of
     Scanline_perspective \<Rightarrow> scanline_perspective c
   | Scanline_perspective_single \<Rightarrow> scanline_perspective_single c
   | p \<Rightarrow> run_span p c)"

text \<open>\<^verbatim>\<open>do { c->scanline(c); c->step_y(c); } while (--yc)\<close>\<close>

fun rect_rows :: "nat \<Rightarrow> context_t \<Rightarrow> context_t option" where
  "rect_rows 0 c = Some c"
| "rect_rows (Suc n) c = do { c \<leftarrow> call_scanline c; c \<leftarrow> call_step_y c; rect_rows n c }"

definition rect_generic :: "context_t \<Rightarrow> nat \<Rightarrow> context_t option" where
  "rect_generic c yc = rect_rows (if yc = 0 then 2 ^ 64 else yc) c"

fun memcpy_rows :: "nat \<Rightarrow> int \<Rightarrow> int \<Rightarrow> int \<Rightarrow> int \<Rightarrow> nat \<Rightarrow> (int \<Rightarrow> u8) \<Rightarrow> (int \<Rightarrow> u8) option" where
  "memcpy_rows 0 dst src dbpr sbpr sz m = Some m"
| "memcpy_rows (Suc n) dst src dbpr sbpr sz m = do {
     m \<leftarrow> memcpy m dst src sz;
     memcpy_rows n (dst + dbpr) (src + sbpr) dbpr sbpr sz m
   }"

definition rect_memcpy :: "context_t \<Rightarrow> nat \<Rightarrow> context_t option" where
  "rect_memcpy c yc =
     (let cb = fb_color (buffers (state c)); tex = tx_surface (texture (state c) ! 0); sz = cb_size c; ct = span_ct c;
          dst = cb_byte_address c sz; src = tex_byte_address c sz in do {
        m \<leftarrow> (if sf_stride cb = sf_stride tex \<and> int ct = sf_stride cb mod 2 ^ 64
             then memcpy (memory c) dst src (ct * sz * yc)
             else memcpy_rows (if yc = 0 then 2 ^ 64 else yc) dst src (s32 (sf_stride cb * int sz)) (s32 (sf_stride tex * int sz))
               (ct * sz) (memory c));
        Some (c\<lparr>memory := m\<rparr>)
      })"

definition call_rect :: "context_t \<Rightarrow> nat \<Rightarrow> context_t option" where
  "call_rect c yc = (case rect_ptr c of No_blit \<Rightarrow> None | Rect_generic \<Rightarrow> rect_generic c yc | Rect_memcpy \<Rightarrow> rect_memcpy c yc)"

subsection \<open>The selected pipeline fits the buffers\<close>

text \<open>What a pipeline assumes of the format of the colour buffer and of the texture it reads.\<close>

definition span_fits :: "scanline_proc \<Rightarrow> nat \<Rightarrow> nat \<Rightarrow> bool" where
  "span_fits p cb t = (case p of
     Scanline_t32cb16blend \<Rightarrow> cb = 4 \<and> t = 1 | Scanline_t32cb16blend_dither \<Rightarrow> cb = 4 \<and> t = 1
   | Scanline_t32cb16blend_srca \<Rightarrow> cb = 4 \<and> t = 1 | Scanline_t32cb16blend_clamp \<Rightarrow> cb = 4 \<and> t = 1
   | Scanline_t32cb16blend_clamp_dither \<Rightarrow> cb = 4 \<and> t = 1 | Scanline_t32cb16blend_clamp_mod \<Rightarrow> cb = 4 \<and> t = 1
   | Scanline_x32cb16blend_clamp_mod \<Rightarrow> cb = 4 \<and> t = 2 | Scanline_t32cb16blend_clamp_mod_dither \<Rightarrow> cb = 4 \<and> t = 1
   | Scanline_x32cb16blend_clamp_mod_dither \<Rightarrow> cb = 4 \<and> t = 2 | Scanline_t32cb16 \<Rightarrow> cb = 4 \<and> t = 1
   | Scanline_t32cb16_dither \<Rightarrow> cb = 4 \<and> t = 1 | Scanline_t32cb16_clamp \<Rightarrow> cb = 4 \<and> t \<in> {1, 2}
   | Scanline_t32cb16_clamp_dither \<Rightarrow> cb = 4 \<and> t \<in> {1, 2} | Scanline_col32cb16blend \<Rightarrow> cb = 4
   | Scanline_t16cb16_clamp \<Rightarrow> cb = 4 \<and> t = 4 | Scanline_t16cb16blend_clamp_mod \<Rightarrow> cb = 4 \<and> t = 4
   | Scanline_memcpy \<Rightarrow> t = cb | Scanline_memset8 \<Rightarrow> fm_size (the_format cb) = 1
   | Scanline_memset16 \<Rightarrow> fm_size (the_format cb) = 2 | Scanline_memset32 \<Rightarrow> fm_size (the_format cb) = 4
   | _ \<Rightarrow> True)"

abbreviation needs_cb :: "needs_t \<Rightarrow> nat" where "needs_cb nd \<equiv> GGL_READ_NEEDS CB_FORMAT (nd_n nd)"
abbreviation needs_t0 :: "needs_t \<Rightarrow> nat" where "needs_t0 nd \<equiv> GGL_READ_NEEDS T_FORMAT (nd_t nd ! 0)"

text \<open>Filters that compare whole words.\<close>

lemma match_words:
  assumes "needs_match x (mk_filter n p t0 t1 0xFFFFFFFF mp 0xFFFFFFFF mt1)"
  shows "nd_n x = n" "nd_t x ! 0 = t0"
proof -
  have o: "a OR b = 0 \<longleftrightarrow> a = 0 \<and> b = 0" for a b :: u32 by (auto simp: bit_eq_iff bit_simps)
  have z: "(a XOR b) AND 0xFFFFFFFF = 0 \<longleftrightarrow> b = a" for a b :: u32
  proof -
    have "(0xFFFFFFFF :: u32) = - 1" by simp
    then show ?thesis by (simp only: and.right_neutral) (auto simp: bit_eq_iff bit_simps)
  qed
  show "nd_n x = n" "nd_t x ! 0 = t0" using assms by (simp_all add: needs_match_def mk_filter_def o z)
qed

lemma read_format: "GGL_READ_NEEDS (0, 6) n = unat (n AND 0x3F)"
  by (simp add: GGL_READ_NEEDS_def NEEDS_MASK_def mask_eq_exp_minus_1)

lemma shortcuts_fit:
  "\<forall>(f, p, iy) \<in> set shortcuts. needs_match nd f \<longrightarrow> span_fits p (needs_cb nd) (needs_t0 nd)"
proof -
  have f: "span_fits p (needs_cb nd) (needs_t0 nd)"
    if "needs_match nd (mk_filter n q t0 t1 0xFFFFFFFF mq 0xFFFFFFFF mt1)" "span_fits p (unat (n AND 0x3F)) (unat (t0 AND 0x3F))" for n q t0 t1 mq mt1 p
    using match_words [OF that(1)] that(2) by (simp add: read_format)
  show ?thesis
    unfolding shortcuts_def filter565_def list.set ball_simps prod.case
    by (intro conjI impI TrueI) (erule f | simp add: span_fits_def)+
qed


lemma pick_shortcut_fits:
  assumes "pick_shortcut nd = (p, iy, g)"
  shows "span_fits p (needs_cb nd) (needs_t0 nd)"
proof -
  let ?cb = "needs_cb nd" and ?t0 = "needs_t0 nd"
  let ?copy = "?t0 = ?cb \<and> needs_match nd noblend1to1 \<and>
    fm_components (the_format ?t0) \<in> {GGL_RGB, GGL_RGBA, GGL_LUMINANCE, GGL_LUMINANCE_ALPHA}"
  consider "p = Scanline_memcpy" "?t0 = ?cb" | "p = Scanline_memset8" "fm_size (the_format ?cb) = 1"
    | "p = Scanline_memset16" "fm_size (the_format ?cb) = 2" | "p = Scanline_memset32" "fm_size (the_format ?cb) = 4"
    | f where "(f, p, iy) \<in> set shortcuts" "needs_match nd f" | "p = Scanline"
  proof (cases "find (\<lambda>(f, _). needs_match nd f) shortcuts")
    case None
    then show thesis using assms that unfolding pick_shortcut_def Let_def by (simp split: if_splits)
  next
    case (Some e)
    obtain f q jy where e: "e = (f, q, jy)" by (cases e)
    have "(f, q, jy) \<in> set shortcuts" "needs_match nd f"
      using Some unfolding e find_Some_iff by (auto, metis nth_mem)
    then show thesis using assms that Some unfolding pick_shortcut_def Let_def e by (simp split: if_splits)
  qed
  then show ?thesis
  proof cases
    case (5 f)
    then show ?thesis using shortcuts_fit [of nd] by blast
  qed (simp_all add: span_fits_def)
qed

text \<open>The pipeline that will touch pixels: the one a perspective driver runs, or the scanline itself.\<close>

definition active_span :: "context_t \<Rightarrow> scanline_proc" where
  "active_span c = (if scanline_ptr c \<in> {Scanline_perspective, Scanline_perspective_single} then span_ptr c else scanline_ptr c)"

definition span_inv :: "context_t \<Rightarrow> bool" where
  "span_inv c \<longleftrightarrow> span_fits (active_span c) (needs_cb (needs (state c))) (needs_t0 (needs (state c)))"

lemma pick_not_perspective:
  "pick_shortcut nd = (p, iy, g) \<Longrightarrow> p \<notin> {Scanline_perspective, Scanline_perspective_single}"
proof -
  assume a: "pick_shortcut nd = (p, iy, g)"
  have "\<forall>(f, p, iy) \<in> set shortcuts. p \<notin> {Scanline_perspective, Scanline_perspective_single}"
    unfolding shortcuts_def list.set ball_simps prod.case by simp
  then have "find (\<lambda>(f, _). needs_match nd f) shortcuts = Some (f, q, jy) \<Longrightarrow> q \<notin> {Scanline_perspective, Scanline_perspective_single}" for f q jy
    by (force simp: find_Some_iff dest: nth_mem)
  then show ?thesis using a unfolding pick_shortcut_def Let_def by (auto split: if_splits option.splits)
qed

lemma pick_span_inv:
  assumes "span_inv c"
  shows "span_inv (ggl_pick c)"
proof -
  let ?nd = "new_needs (state c) (dirty c)"
  show ?thesis
  proof (cases "dirty c = 0 \<or> ?nd = needs (state c)")
    case True
    then have "needs (state (ggl_pick c)) = needs (state c)" "scanline_ptr (ggl_pick c) = scanline_ptr c" "span_ptr (ggl_pick c) = span_ptr c"
      by (auto simp: ggl_pick_def Let_def)
    moreover from this have "active_span (ggl_pick c) = active_span c" by (simp add: active_span_def)
    ultimately show ?thesis using assms by (simp add: span_inv_def)
  next
    case False
    define c1 where "c1 = ggl_pick_cb (ggl_pick_texture (upd_state (\<lambda>s. s\<lparr>needs := ?nd\<rparr>) c))"
    obtain p iy g where pk: "pick_shortcut (needs (state c1)) = (p, iy, g)" by (cases "pick_shortcut (needs (state c1))")
    have s: "state (ggl_pick_scanline c1) = state c1"
      by (simp add: ggl_pick_scanline_def pick_scanline_def Let_def split: prod.split)
    have "active_span (ggl_pick_scanline c1) = p"
      using pick_not_perspective [OF pk] by (auto simp: ggl_pick_scanline_def pick_scanline_def Let_def pk active_span_def)
    then have "span_inv (ggl_pick_scanline c1)" using pick_shortcut_fits [OF pk] by (simp add: span_inv_def s)
    moreover have "ggl_pick c = (ggl_pick_scanline c1)\<lparr>dirty := 0\<rparr>" using False by (simp add: ggl_pick_def Let_def c1_def)
    moreover have "active_span ((ggl_pick_scanline c1)\<lparr>dirty := 0\<rparr>) = active_span (ggl_pick_scanline c1)" by (simp add: active_span_def)
    ultimately show ?thesis by (simp add: span_inv_def)
  qed
qed

text \<open>No setter touches the scanline pointers.\<close>

definition span_ptrs :: "context_t \<Rightarrow> scanline_proc \<times> scanline_proc" where
  "span_ptrs c = (scanline_ptr c, span_ptr c)"

lemma span_ptrs_upd:
  "span_ptrs (upd_state f c) = span_ptrs c" "span_ptrs (ggl_state_changed c fl) = span_ptrs c"
  "span_ptrs (ggl_error c e) = span_ptrs c" "span_ptrs (upd_shade h c) = span_ptrs c"
  "span_ptrs (c\<lparr>activeTMU := n\<rparr>) = span_ptrs c" "span_ptrs (c\<lparr>activeTMUIndex := n\<rparr>) = span_ptrs c"
  "span_ptrs (if b then c else d) = (if b then span_ptrs c else span_ptrs d)"
  by (simp_all add: ctx_defs Let_def span_ptrs_def)

lemma span_ptrs_upds:
  "span_ptrs (upd_tmu i g c) = span_ptrs c" "span_ptrs (upd_scissor j c) = span_ptrs c" "span_ptrs (upd_buffers k c) = span_ptrs c"
  "span_ptrs (set_flag fl b c) = span_ptrs c" "span_ptrs (upd_mask l c) = span_ptrs c" "span_ptrs (upd_clear o' c) = span_ptrs c"
  by (simp_all add: span_ptrs_upd upd_tmu_def upd_scissor_def upd_buffers_def set_flag_def upd_mask_def upd_clear_def)

lemma span_ptrs_parts:
  "span_ptrs (ggl_set_scissor c) = span_ptrs c" "span_ptrs (enable_flag fl c b) = span_ptrs c" "span_ptrs (blend_changed c) = span_ptrs c"
  "span_ptrs (ggl_enable_texture2d c b) = span_ptrs c"
  by (simp_all add: span_ptrs_upd span_ptrs_upds ggl_set_scissor_def enable_flag_def blend_changed_def ggl_enable_texture2d_def Let_def)

lemmas span_ptrs_simps = span_ptrs_upd span_ptrs_upds span_ptrs_parts

lemma span_ptrs_enable: "span_ptrs (enable_disable c n b) = span_ptrs c"
  unfolding enable_disable_def
  by (simp add: span_ptrs_simps ggl_enable_blending_def ggl_enable_alpha_test_def ggl_enable_logic_op_def ggl_enable_dither_def
      ggl_enable_stencil_test_def ggl_enable_depth_test_def ggl_enable_aa_def ggl_enable_w_lerp_def ggl_enable_fog_def
      ggl_enable_point_aa_nice_def ggl_enable_scissor_test_def Let_def)

lemma call_span_ptrs:
  assumes "k \<notin> {ValidatePoint, ValidateLine, ValidateRect, ValidateTriangle}"
  shows "span_ptrs (ggl_exec al c k) = span_ptrs c"
proof (cases k)
  case (TexParameteri t p x)
  then show ?thesis by (simp add: ggl_texParameteri_def span_ptrs_simps Let_def split: option.split prod.split)
qed (use assms in \<open>simp_all add: span_ptrs_simps span_ptrs_enable ggl_enableDisable_def ggl_scissor_def Let_def ggl_activeTexture_def
    ggl_bindTexture_def ggl_bindTextureLod_def ggl_colorBuffer_def ggl_readBuffer_def ggl_depthBuffer_def ggl_enable_depth_test_def
    ggl_shadeModel_def ggl_color4xv_def ggl_colorGrad12xv_def ggl_zGrad3xv_def ggl_wGrad3xv_def ggl_fogGrad3xv_def ggl_fogColor3xv_def
    ggl_blendFunc_def ggl_blendFuncSeparate_def ggl_texEnvi_def ggl_texEnvxv_def ggl_texCoord2x_def ggl_texCoord2i_def
    ggl_texCoordGradScale8xv_def ggl_texGeni_def ggl_colorMask_def ggl_depthMask_def ggl_stencilMask_def ggl_alphaFuncx_def
    ggl_depthFunc_def ggl_logicOp_def ggl_clearColorx_def ggl_clearDepthx_def ggl_clearStencil_def\<close>)

lemma validate_span_inv:
  assumes "span_inv c" and k: "k \<in> {ValidatePoint, ValidateLine, ValidateRect, ValidateTriangle}"
  shows "span_inv (ggl_exec al c k)"
proof -
  have "span_inv ((ggl_pick c)\<lparr>procs := p\<rparr>)" for p
  proof -
    have "active_span ((ggl_pick c)\<lparr>procs := p\<rparr>) = active_span (ggl_pick c)" by (simp add: active_span_def)
    then show ?thesis using pick_span_inv [OF assms(1)] by (simp add: span_inv_def)
  qed
  then show ?thesis using k
    by (auto simp: pointx_validate_def linex_validate_def recti_validate_def trianglex_validate_def Let_def)
qed

lemma call_span_inv:
  assumes "span_inv c" "call_ok c k"
  shows "span_inv (ggl_exec al c k)"
proof (cases "k \<in> {ValidatePoint, ValidateLine, ValidateRect, ValidateTriangle}")
  case True
  then show ?thesis by (rule validate_span_inv [OF assms(1)])
next
  case False
  have "needs (state (ggl_exec al c k)) = needs (state c)" using call_tracked [OF assms(2) False, of al] by (simp add: tracked_def)
  moreover have "active_span (ggl_exec al c k) = active_span c"
    using call_span_ptrs [OF False, of al c] by (simp add: span_ptrs_def active_span_def)
  ultimately show ?thesis using assms(1) by (simp add: span_inv_def)
qed

lemma reachable_span_inv: "ggl_reachable al c \<Longrightarrow> span_inv c"
proof (induction rule: ggl_reachable.induct)
  case (init m)
  have "active_span (ggl_init_context m) = Scanline"
    by (simp add: active_span_def ctx_defs ggl_init_context_def ggl_init_texture_def ggl_init_scanline_def ggl_init_trap_def ggl_init_clear_def
      upd_clear_def upd_shade_def Let_def context_zero_def)
  then show ?case by (simp add: span_inv_def span_fits_def)
next
  case (step c k)
  then show ?case by (simp add: call_span_inv)
qed

lemma bit_3F: "bit (0x3F :: u32) k \<longleftrightarrow> k < 6"
proof -
  have "(0x3F :: u32) = mask 6" by (simp add: mask_eq_exp_minus_1)
  then show ?thesis by (simp only: bit_mask_iff) auto
qed

lemma format_field:
  assumes "w AND 0x3F = 0"
  shows "GGL_READ_NEEDS (0, 6) (GGL_BUILD_NEEDS v (0, 6) OR w) = v mod 64"
proof -
  have w: "bit w k \<Longrightarrow> \<not> k < 6" for k using arg_cong [OF assms, of "\<lambda>w. bit w k"] by (simp add: bit_and_iff bit_3F del: bit_numeral_word_iff)
  have "(GGL_BUILD_NEEDS v (0, 6) OR w) AND 0x3F = take_bit 6 (word_of_nat v :: u32)"
    by (rule bit_word_eqI) (auto simp: GGL_BUILD_NEEDS_def bit_NEEDS_MASK bit_and_iff bit_or_iff bit_take_bit_iff bit_3F w simp del: bit_numeral_word_iff)
  then show ?thesis by (simp add: read_format unsigned_take_bit_eq unsigned_of_nat) (simp add: take_bit_nat_def)
qed

lemma build_high [simp]: "6 \<le> fst f \<Longrightarrow> GGL_BUILD_NEEDS v f AND 0x3F = 0"
  by (rule bit_word_eqI) (auto simp: bit_and_iff bit_3F simp del: bit_numeral_word_iff dest: bit_build)

lemma needs_rest_high: "needs_rest s AND 0x3F = 0"
  by (rule bit_word_eqI) (auto simp: bit_and_iff bit_3F simp del: bit_numeral_word_iff dest: bit_needs_rest)

lemma texture_needs_field: "GGL_READ_NEEDS (0, 6) (texture_needs tx) = sf_format (tx_surface tx) mod 64"
proof -
  show ?thesis unfolding texture_needs_def or.assoc
    by (rule format_field) (simp add: bit.conj_disj_distrib2)
qed

lemma current_formats:
  assumes cur: "needs_current (state c) (needs (state c))" and l: "length (texture (state c)) = 2" "length (nd_t (needs (state c))) = 2"
  shows "needs_cb (needs (state c)) = cb_format (state c) mod 64"
    "tx_enable (texture (state c) ! 0) \<Longrightarrow> needs_t0 (needs (state c)) = sf_format (tx_surface (texture (state c) ! 0)) mod 64"
proof -
  let ?nd = "needs (state c)"
  obtain u where u: "pick_needs_n (state c) = GGL_BUILD_NEEDS (cb_format (state c)) CB_FORMAT OR (needs_rest (state c) OR GGL_BUILD_NEEDS u W)"
    using pick_needs_n_split [of "state c"] by (auto simp: ac_simps)
  have m: "(w AND NOT (NEEDS_MASK W)) AND 0x3F = w AND 0x3F" for w
    by (rule bit_word_eqI) (auto simp: bit_and_iff bit_u32_not bit_3F bit_NEEDS_MASK simp del: bit_numeral_word_iff)
  have "nd_n ?nd AND 0x3F = pick_needs_n (state c) AND 0x3F"
    using arg_cong [where f = "\<lambda>w. w AND 0x3F", OF conjunct1 [OF conjunct2 [OF cur [unfolded needs_current_def]]]] by (simp only: m)
  then have "needs_cb ?nd = GGL_READ_NEEDS (0, 6) (pick_needs_n (state c))" by (simp add: read_format)
  also have "\<dots> = cb_format (state c) mod 64" unfolding u
    by (rule format_field) (simp add: bit.conj_disj_distrib2 needs_rest_high)
  finally show "needs_cb ?nd = cb_format (state c) mod 64" .
  obtain a b u v where l2: "texture (state c) = [a, b]" "nd_t ?nd = [u, v]"
    using l by (auto simp: numeral_2_eq_2 length_Suc_conv)
  show "needs_t0 ?nd = sf_format (tx_surface (texture (state c) ! 0)) mod 64" if "tx_enable (texture (state c) ! 0)"
    using cur that texture_needs_field [of a] by (auto simp: needs_current_def l2 split: if_splits)
qed


lemma reachable_fits:
  assumes "ggl_reachable al c" "dirty c = 0" "cb_format (state c) < 64"
    and t: "tx_enable (texture (state c) ! 0) \<Longrightarrow> sf_format (tx_surface (texture (state c) ! 0)) < 64"
  shows "\<exists>t. span_fits (active_span c) (cb_format (state c)) t \<and>
    (tx_enable (texture (state c) ! 0) \<longrightarrow> t = sf_format (tx_surface (texture (state c) ! 0)))"
proof -
  have i: "ctx_ok c" "in_sync c" using reachable_inv [OF assms(1)] by (simp_all add: ggl_inv_def)
  have l: "length (texture (state c)) = 2" "length (nd_t (needs (state c))) = 2" using i(1) by (simp_all add: ctx_ok_def)
  note f = current_formats [OF in_sync_current [OF i assms(2)] l]
  show ?thesis using reachable_span_inv [OF assms(1)] f assms(3) t by (intro exI [of _ "needs_t0 (needs (state c))"]) (simp add: span_inv_def)
qed

subsection \<open>The selection as a property\<close>


definition fits_bound :: context_t where
  "fits_bound = ggl_colorBuffer (\<lambda>_. True) (ggl_init_context (\<lambda>_. 0))
     \<lparr>gs_width = 8, gs_height = 8, gs_stride = 8, gs_data = 64, gs_format = 4\<rparr>"

lemma fits_bound_facts:
  "ggl_reachable (\<lambda>_. True) (recti_validate fits_bound)" "cb_format (state (recti_validate fits_bound)) = 4"
  "\<not> tx_enable (texture (state (recti_validate fits_bound)) ! 0)" "dirty (recti_validate fits_bound) = 0"
proof -
  have "ggl_reachable (\<lambda>_. True) fits_bound"
    using ggl_reachable.step [OF ggl_reachable.init [of "\<lambda>_. True" "\<lambda>_. 0"], of "ColorBuffer _"] by (simp add: fits_bound_def)
  then show r: "ggl_reachable (\<lambda>_. True) (recti_validate fits_bound)"
    using ggl_reachable.step [of "\<lambda>_. True" fits_bound ValidateRect] by simp
  show "dirty (recti_validate fits_bound) = 0" by (simp add: recti_validate_def Let_def)
  obtain t b where p: "state (ggl_pick fits_bound) = (state fits_bound)\<lparr>needs := (if dirty fits_bound = 0 then needs (state fits_bound)
      else new_needs (state fits_bound) (dirty fits_bound)), texture := t, buffers := (buffers (state fits_bound))\<lparr>fb_color := b\<rparr>\<rparr>"
    "map (\<lambda>t. (tx_enable t, texture_needs t)) t = unit_views (state fits_bound)" "sf_format b = cb_format (state fits_bound)"
    using pick_state [of fits_bound] by blast
  have f: "cb_format (state fits_bound) = 4"
    by (simp add: fits_bound_def ggl_colorBuffer_def Let_def ctx_defs set_scissor_eq)
  have u: "map tx_enable (texture (state fits_bound)) = [False, False]"
    by (simp add: fits_bound_def ggl_colorBuffer_def Let_def ctx_defs set_scissor_eq ggl_init_context_def ggl_init_texture_def
      ggl_init_scanline_def ggl_init_trap_def ggl_init_clear_def context_zero_def state_zero_def texture_zero_def numeral_2_eq_2)
  then show "cb_format (state (recti_validate fits_bound)) = 4" using p f by (simp add: recti_validate_def Let_def)
  show "\<not> tx_enable (texture (state (recti_validate fits_bound)) ! 0)" using p(2) u by (auto simp: recti_validate_def Let_def p(1) unit_views_def map_eq_Cons_conv)
qed


end
