(* ===== verification/GGLTrap.thy ===== *)
theory GGLTrap
  imports GGLScanline
begin

text \<open>
  The rasterization of points, lines, rectangles and triangles: \<^verbatim>\<open>libpixelflinger/trap.cpp\<close>. Coordinates
  are 28.4 fixed point in \<^verbatim>\<open>int32_t\<close>, the edges of the big triangles step in 16.16. \<^term>\<open>None\<close> is undefined
  behaviour (an edge that was never set up, a division by zero, a write outside the coverage buffer) or a
  call that does not return.
\<close>

subsection \<open>Sub-pixel coordinates\<close>

text \<open>\<^verbatim>\<open>x & ~(TRI_ONE-1)\<close> on 28.4 values.\<close>

definition TRI_FLOOR :: "int \<Rightarrow> int" where "TRI_FLOOR x = x - x mod 16"
definition TRI_CEIL :: "int \<Rightarrow> int" where "TRI_CEIL x = TRI_FLOOR (s32 (x + 15))"
definition TRI_ROUND :: "int \<Rightarrow> int" where "TRI_ROUND x = TRI_FLOOR (s32 (x + 8))"
definition TRI_FROM_INT :: "int \<Rightarrow> int" where "TRI_FROM_INT x = s32 (x * 16)"
definition TRI_FROM_FIXED :: "int \<Rightarrow> int" where "TRI_FROM_FIXED x = s32 (x + 2048) div 2 ^ 12"
definition TRI_SNAP_NEXT_HALF :: "int \<Rightarrow> int" where "TRI_SNAP_NEXT_HALF x = s32 (TRI_CEIL (s32 (x + 8)) - 8)"
definition TRI_SNAP_PREV_HALF :: "int \<Rightarrow> int" where "TRI_SNAP_PREV_HALF x = s32 (TRI_CEIL (s32 (x - 8)) - 8)"

type_synonym point = "int \<times> int"

definition set_span :: "int \<Rightarrow> int \<Rightarrow> context_t \<Rightarrow> context_t" where
  "set_span xl xr c = upd_iterators (\<lambda>ci. ci\<lparr>it_xl := xl, it_xr := xr\<rparr>) c"

text \<open>The scissor, read as \<^verbatim>\<open>GGLint\<close>.\<close>

definition clip_left :: "context_t \<Rightarrow> int" where "clip_left c = sint (sc_left (scissor (state c)))"
definition clip_right :: "context_t \<Rightarrow> int" where "clip_right c = sint (sc_right (scissor (state c)))"
definition clip_top :: "context_t \<Rightarrow> int" where "clip_top c = sint (sc_top (scissor (state c)))"
definition clip_bottom :: "context_t \<Rightarrow> int" where "clip_bottom c = sint (sc_bottom (scissor (state c)))"

subsection \<open>Rectangles and points\<close>

definition recti :: "context_t \<Rightarrow> int \<Rightarrow> int \<Rightarrow> int \<Rightarrow> int \<Rightarrow> context_t option" where
  "recti c l t r b =
     (let l = (if l < clip_left c then clip_left c else l);
          t = (if t < clip_top c then clip_top c else t);
          r = (if r > clip_right c then clip_right c else r);
          b = (if b > clip_bottom c then clip_bottom c else b);
          xc = s32 (r - l); yc = s32 (b - t) in
      if xc > 0 \<and> yc > 0 then do {
        c \<leftarrow> call_init_y (set_span l r c) t;
        call_rect c (nat yc)
      } else Some c)"

definition pointx :: "context_t \<Rightarrow> point \<Rightarrow> int \<Rightarrow> context_t option" where
  "pointx c v rad =
     (let half = TRI_ROUND rad div 2;
          half = (if half = 0 then 8 else half);
          odd_size = (half mod 16 \<ge> 8);
          xc = (if odd_size then s32 (TRI_FLOOR (fst v) + 8) else TRI_ROUND (fst v));
          yc = (if odd_size then s32 (TRI_FLOOR (snd v) + 8) else TRI_ROUND (snd v))
      in recti c (s32 (xc - half) div 16) (s32 (yc - half) div 16) (s32 (xc + half) div 16) (s32 (yc + half) div 16))"

subsection \<open>Antialiased points\<close>

text \<open>The sixteen samples of a pixel, at offsets -6, -2, 2 and 6 from its centre.\<close>

definition coverage_hits :: "int \<Rightarrow> int \<Rightarrow> int \<Rightarrow> int" where
  "coverage_hits x y rr =
     int (length (filter (\<lambda>(i, j). s32 (s32 (rr - s32 ((x + i) * (x + i))) - s32 ((y + j) * (y + j))) > 0)
       (List.product [-6, -2, 2, 6] [-6, -2, 2, 6])))"

definition coverageNice :: "int \<Rightarrow> int \<Rightarrow> int \<Rightarrow> int \<Rightarrow> int \<Rightarrow> int" where
  "coverageNice x y rmin rmax rr =
     (let d2 = s32 (x * x + y * y) in
      if d2 \<ge> rmax then 0 else if d2 < rmin then 0x7FFF
      else min 0x7FFF (coverage_hits x y rr * 2 ^ 11))"

definition coverageFast :: "int \<Rightarrow> int \<Rightarrow> int \<Rightarrow> int \<Rightarrow> int \<Rightarrow> int" where
  "coverageFast x y rmin rmax scale =
     (let d2 = s32 (x * x + y * y) in
      if d2 \<ge> rmax then 0 else if d2 < rmin then 0x7FFF
      else s32 (0x7FFF - s32 (s32 (d2 - rmin) * scale)))"

definition s16 :: "int \<Rightarrow> int" where "s16 x = (x + 2 ^ 15) mod 2 ^ 16 - 2 ^ 15"

text \<open>A store of \<open>n\<close> values from column \<open>l\<close> into the coverage buffer.\<close>

definition cov_range_ok :: "context_t \<Rightarrow> int \<Rightarrow> int \<Rightarrow> bool" where
  "cov_range_ok c l r \<longleftrightarrow> l \<ge> r \<or>
     fb_coverage (buffers (state c)) \<and> 0 \<le> l \<and> r \<le> int (fb_coverageBufferSize (buffers (state c)))"

definition store_coverage :: "int \<Rightarrow> int \<Rightarrow> (int \<Rightarrow> int) \<Rightarrow> context_t \<Rightarrow> context_t option" where
  "store_coverage l r f c =
     (if cov_range_ok c l r then Some (c\<lparr>coverage := (\<lambda>i. if l \<le> i \<and> i < r then s16 (f i) else coverage c i)\<rparr>) else None)"

text \<open>The loop over the rows of an antialiased point; \<open>cov x y\<close> is the coverage at an offset from the centre.\<close>

fun aa_point_rows :: "(int \<Rightarrow> int \<Rightarrow> int) \<Rightarrow> int \<Rightarrow> int \<Rightarrow> int \<Rightarrow> nat \<Rightarrow> int \<Rightarrow> context_t \<Rightarrow> context_t option" where
  "aa_point_rows cov l r xstart 0 y c = Some c"
| "aa_point_rows cov l r xstart (Suc n) y c = do {
     c \<leftarrow> store_coverage l r (\<lambda>i. cov (s32 (xstart + 16 * (i - l))) y) c;
     c \<leftarrow> call_scanline c;
     c \<leftarrow> call_step_y c;
     aa_point_rows cov l r xstart n (s32 (y + 16)) c
   }"

text \<open>The part the two antialiased points share: the box of the point, clipped.\<close>

definition aa_point_box :: "context_t \<Rightarrow> point \<Rightarrow> int \<Rightarrow> (int \<times> int \<times> int \<times> int) \<times> point" where
  "aa_point_box c v rad =
     (let l = s32 (fst v - rad) div 16; t = s32 (snd v - rad) div 16;
          r = s32 (fst v + rad + 15) div 16; b = s32 (snd v + rad + 15) div 16;
          xstart = s32 (TRI_FROM_INT l - fst v + 8); ystart = s32 (TRI_FROM_INT t - snd v + 8);
          (l, xstart) = (if l < clip_left c then (clip_left c, s32 (xstart + (clip_left c - l) * 16)) else (l, xstart));
          (t, ystart) = (if t < clip_top c then (clip_top c, s32 (ystart + (clip_top c - t) * 16)) else (t, ystart));
          r = (if r > clip_right c then clip_right c else r);
          b = (if b > clip_bottom c then clip_bottom c else b)
      in ((l, t, r, b), (xstart, ystart)))"

definition aa_nice_pointx :: "context_t \<Rightarrow> point \<Rightarrow> int \<Rightarrow> context_t option" where
  "aa_nice_pointx c v sz =
     (let rad = s32 (sz + 1) div 2; ((l, t, r, b), (xstart, ystart)) = aa_point_box c v rad;
          xc = s32 (r - l); yc = s32 (b - t) in
      if xc > 0 \<and> yc > 0 then
        let rr = s32 (rad * rad); rmin = s32 ((rad - 12) * (rad - 12)); rmax = s32 ((rad + 12) * (rad + 12)) in do {
          c \<leftarrow> call_init_y (set_span l r c) t;
          aa_point_rows (\<lambda>x y. coverageNice x y rmin rmax rr) l r xstart (nat yc) ystart c
        }
      else Some c)"

definition aa_pointx :: "context_t \<Rightarrow> point \<Rightarrow> int \<Rightarrow> context_t option" where
  "aa_pointx c v sz =
     (let rad = s32 (sz + 1) div 2; ((l, t, r, b), (xstart, ystart)) = aa_point_box c v rad;
          xc = s32 (r - l); yc = s32 (b - t) in
      if xc > 0 \<and> yc > 0 then
        let rad = s32 (rad * 2 ^ 4);
            rmin = s32 (s32 (rad - 0xB5) * s32 (rad - 0xB5)); rmax = s32 (s32 (rad + 0xB5) * s32 (rad + 0xB5)) in
        if s32 (rmax - rmin) = 0 then None
        else
          let scale = 0x800000 sdiv s32 (rmax - rmin); rmin = rmin div 2 ^ 8; rmax = rmax div 2 ^ 8 in do {
            c \<leftarrow> call_init_y (set_span l r c) t;
            aa_point_rows (\<lambda>x y. coverageFast x y rmin rmax scale) l r xstart (nat yc) ystart c
          }
      else Some c)"

subsection \<open>Small triangles\<close>

text \<open>The three edges of a triangle made counter-clockwise, as \<open>(dx, dy, x, y)\<close>: the difference from
  the edge's first vertex to its second and the first vertex.\<close>

record edge_eq =
  ee_dx :: int
  ee_dy :: int
  ee_x :: int
  ee_y :: int

definition small_ccw :: "point \<Rightarrow> point \<Rightarrow> point \<Rightarrow> point \<times> point" where
  "small_ccw p0 p1 p2 = (case (p0, p1, p2) of ((x0, y0), (x1, y1), (x2, y2)) \<Rightarrow>
     if s32 (s32 (x0 - x1) * s32 (y2 - y0)) < s32 (s32 (y0 - y1) * s32 (x2 - x0)) then (p1, p0) else (p0, p1))"

definition small_edge :: "point \<Rightarrow> point \<Rightarrow> edge_eq" where
  "small_edge p q = \<lparr>ee_dx = s32 (fst p - fst q), ee_dy = s32 (snd p - snd q), ee_x = fst p, ee_y = snd p\<rparr>"

text \<open>The value of an edge equation at a pixel centre, with the right-exclusive fill rule.\<close>

definition edge_start :: "edge_eq \<Rightarrow> int \<Rightarrow> int \<Rightarrow> int" where
  "edge_start e mx my =
     (let v = s32 (s32 (ee_dy e * s32 (ee_x e - mx)) - s32 (ee_dx e * s32 (ee_y e - my))) in
      if ee_dy e < 0 \<or> ee_dy e = 0 \<and> ee_dx e > 0 then s32 (v + 1) else v)"

type_synonym edge_values = "int \<times> int \<times> int"

definition all_positive :: "edge_values \<Rightarrow> bool" where
  "all_positive e = (case e of (a, b, c) \<Rightarrow> a > 0 \<and> b > 0 \<and> c > 0)"

definition step_values :: "edge_values \<Rightarrow> edge_values \<Rightarrow> edge_values" where
  "step_values d e = (case (d, e) of ((a, b, c), (x, y, z)) \<Rightarrow> (s32 (x + s32 (a * 16)), s32 (y + s32 (b * 16)), s32 (z + s32 (c * 16))))"

text \<open>The two loops over a row: while the stop condition does not hold, at most \<open>n\<close> times.\<close>

fun small_scan :: "bool \<Rightarrow> nat \<Rightarrow> edge_values \<Rightarrow> int \<Rightarrow> edge_values \<Rightarrow> int \<times> edge_values" where
  "small_scan stop 0 d x e = (x, e)"
| "small_scan stop (Suc n) d x e =
     (if all_positive e = stop then (x, e) else small_scan stop n d (x + 1) (step_values d e))"

definition small_row :: "int \<Rightarrow> int \<Rightarrow> edge_values \<Rightarrow> edge_values \<Rightarrow> int \<times> int" where
  "small_row minx maxx d e =
     (let (xl, e1) = small_scan True (nat (maxx - minx)) d minx e;
          (xr, e2) = small_scan False (nat (maxx - xl)) d xl e1
      in (xl, xr))"

fun small_rows :: "int \<Rightarrow> int \<Rightarrow> nat \<Rightarrow> edge_values \<Rightarrow> edge_values \<Rightarrow> edge_values \<Rightarrow> context_t \<Rightarrow> context_t option" where
  "small_rows minx maxx 0 dx dy e c = Some c"
| "small_rows minx maxx (Suc n) dx dy e c = do {
     let (xl, xr) = small_row minx maxx dx e;
     c \<leftarrow> (if xl < xr then call_scanline (set_span xl xr c) else Some c);
     c \<leftarrow> call_step_y c;
     small_rows minx maxx n dx dy (step_values dy e) c
   }"

definition trianglex_small :: "context_t \<Rightarrow> point \<Rightarrow> point \<Rightarrow> point \<Rightarrow> context_t option" where
  "trianglex_small c v0 v1 v2 =
     (let (p0, p1) = small_ccw v0 v1 v2; p2 = v2;
          e0 = small_edge p0 p1; e1 = small_edge p1 p2; e2 = small_edge p2 p0;
          bminx = TRI_FLOOR (min (fst p0) (min (fst p1) (fst p2))) div 16;
          bminy = TRI_FLOOR (min (snd p0) (min (snd p1) (snd p2))) div 16;
          bmaxx = TRI_CEIL (max (fst p0) (max (fst p1) (fst p2))) div 16;
          bmaxy = TRI_CEIL (max (snd p0) (max (snd p1) (snd p2))) div 16;
          minx = max bminx (clip_left c); miny = max bminy (clip_top c);
          maxx = min bmaxx (clip_right c); maxy = min bmaxy (clip_bottom c) in
      if minx \<ge> maxx \<or> miny \<ge> maxy then Some c
      else
        let my = s32 (s32 (miny * 16) + 8); mx = s32 (s32 (minx * 16) + 8);
            dx = (- ee_dy e0, - ee_dy e1, - ee_dy e2); dy = (ee_dx e0, ee_dx e1, ee_dx e2) in do {
          c \<leftarrow> call_init_y c miny;
          small_rows minx maxx (nat (maxy - miny)) dx dy (edge_start e0 mx my, edge_start e1 mx my, edge_start e2 mx my) c
        })"

subsection \<open>Big triangles\<close>

record Edge =
  ed_x :: int
  ed_x_incr :: int
  ed_y_top :: int
  ed_y_bot :: int

definition edge_setup :: "Edge list \<Rightarrow> point \<Rightarrow> point \<Rightarrow> int \<Rightarrow> int \<Rightarrow> Edge list option" where
  "edge_setup edges p1 p2 ymin ymax =
     (let (top, bot) = (if snd p1 > snd p2 then (p2, p1) else (p1, p2));
          y1 = snd top OR 1; y2 = snd bot OR 1; dy = s32 (y2 - y1) in
      if dy = 0 \<or> y1 > ymax \<or> y2 < ymin then Some edges
      else
        let ymin = (if y1 > ymin then TRI_SNAP_NEXT_HALF y1 else ymin);
            ymax = (if y2 < ymax then TRI_SNAP_PREV_HALF y2 else ymax) in
        if ymin > ymax then Some edges
        else
          let x1 = fst top; dx = s32 (fst bot - x1); x = s32 (s32 (x1 * 2 ^ 12) + 2 ^ 15) in do {
            incr \<leftarrow> (if dx \<noteq> 0 then gglDivQ16 dx dy else Some 0);
            let x = (if y1 < ymin then s32 (x + s32 (incr * s32 (ymin - y1)) div 2 ^ 4) else x);
            Some (edges @ [\<lparr>ed_x = x, ed_x_incr = incr, ed_y_top = ymin, ed_y_bot = ymax\<rparr>])
          })"

text \<open>\<^verbatim>\<open>do ... while (--count)\<close>; the two pairs are the positions and the increments of the sorted edges.\<close>

fun sweep_rows :: "int \<Rightarrow> int \<Rightarrow> nat \<Rightarrow> int \<times> int \<Rightarrow> int \<times> int \<Rightarrow> context_t \<Rightarrow> context_t option" where
  "sweep_rows xmin xmax 0 x xi c = Some c"
| "sweep_rows xmin xmax (Suc n) x xi c = do {
     let xl = max (fst x div 2 ^ 16) xmin;
     let xr = min (snd x div 2 ^ 16) xmax;
     c \<leftarrow> (if xl < xr then call_scanline (set_span xl xr c) else Some c);
     c \<leftarrow> call_step_y c;
     sweep_rows xmin xmax n (s32 (fst x + fst xi), s32 (snd x + snd xi)) xi c
   }"

definition edge_advance :: "int \<Rightarrow> Edge \<Rightarrow> Edge" where
  "edge_advance count e = e\<lparr>ed_x := s32 (ed_x e + ed_x_incr e * count)\<rparr>"

definition triangle_sweep_edges :: "Edge \<Rightarrow> Edge \<Rightarrow> int \<Rightarrow> int \<Rightarrow> context_t \<Rightarrow> ((Edge \<times> Edge) \<times> context_t) option" where
  "triangle_sweep_edges left right ytop ybot c =
     (let count = s32 (s32 (ybot - ytop) div 16 + 1) in
      if count \<le> 0 then Some ((left, right), c)
      else
        let (l, r) = (if ed_x left > ed_x right \<or> ed_x left = ed_x right \<and> ed_x_incr left > ed_x_incr right
                      then (right, left) else (left, right)) in do {
          c \<leftarrow> sweep_rows (clip_left c) (clip_right c) (nat count) (ed_x l, ed_x r) (ed_x_incr l, ed_x_incr r) c;
          Some ((edge_advance count left, edge_advance count right), c)
        })"

text \<open>The choice of the two edges that begin at the top; the third is \<open>None\<close> when only two were set up.\<close>

definition choose_edges :: "Edge list \<Rightarrow> (Edge \<times> Edge \<times> Edge option) \<times> int \<times> int" where
  "choose_edges es =
     (let y_top = min (ed_y_top (es ! 0)) (ed_y_top (es ! 1)); y_bot = max (ed_y_bot (es ! 0)) (ed_y_bot (es ! 1)) in
      if length es = 3 then
        let y_top = min y_top (ed_y_top (es ! 2)); y_bot = max y_bot (ed_y_bot (es ! 2)) in
        if ed_y_top (es ! 0) > y_top then ((es ! 2, es ! 1, Some (es ! 0)), y_top, y_bot)
        else if ed_y_top (es ! 1) > y_top then ((es ! 0, es ! 2, Some (es ! 1)), y_top, y_bot)
        else ((es ! 0, es ! 1, Some (es ! 2)), y_top, y_bot)
      else ((es ! 0, es ! 1, None), y_top, y_bot))"

definition trianglex_big :: "context_t \<Rightarrow> point \<Rightarrow> point \<Rightarrow> point \<Rightarrow> context_t option" where
  "trianglex_big c v0 v1 v2 = do {
     let ymin = s32 (TRI_FROM_INT (clip_top c) + 8);
     let ymax = s32 (TRI_FROM_INT (clip_bottom c) - 8);
     es \<leftarrow> edge_setup [] v0 v1 ymin ymax;
     es \<leftarrow> edge_setup es v0 v2 ymin ymax;
     es \<leftarrow> edge_setup es v1 v2 ymin ymax;
     if length es < 2 then Some c
     else do {
       let ((left, right, other), y_top, y_bot) = choose_edges es;
       c \<leftarrow> call_init_y c (y_top div 16);
       let y_mid = min (ed_y_bot left) (ed_y_bot right);
       ((left, right), c) \<leftarrow> triangle_sweep_edges left right y_top y_mid c;
       let y_mid = s32 (y_mid + 16);
       if y_mid \<le> y_bot then do {
         other \<leftarrow> other;
         let other = (if ed_y_top other < y_mid then other\<lparr>ed_x := s32 (ed_x other + ed_x_incr other)\<rparr> else other);
         let (left, right) = (if ed_y_bot left = y_bot then (left, other) else (other, right));
         (es, c) \<leftarrow> triangle_sweep_edges left right y_mid y_bot c;
         Some c
       } else Some c
     }
   }"

subsection \<open>Lines\<close>

text \<open>The four corners of a line: its ends moved by the offset in both directions.\<close>

definition line_quad :: "point \<Rightarrow> point \<Rightarrow> point \<Rightarrow> point list" where
  "line_quad v0 v1 n =
     [(s32 (fst v0 + fst n), s32 (snd v0 + snd n)), (s32 (fst v1 + fst n), s32 (snd v1 + snd n)),
      (s32 (fst v1 - fst n), s32 (snd v1 - snd n)), (s32 (fst v0 - fst n), s32 (snd v0 - snd n))]"

definition linex :: "context_t \<Rightarrow> point \<Rightarrow> point \<Rightarrow> int \<Rightarrow> context_t option" where
  "linex c v0 v1 width =
     (let dx = s32 \<bar>s32 (fst v0 - fst v1)\<bar>; dy = s32 \<bar>s32 (snd v0 - snd v1)\<bar>;
          half = TRI_ROUND width div 2; half = (if half = 0 then 8 else half);
          v = line_quad v0 v1 (if dx > dy then (0, half) else (half, 0)) in do {
        c \<leftarrow> trianglex_big c (v ! 0) (v ! 1) (v ! 2);
        trianglex_big c (v ! 0) (v ! 2) (v ! 3)
      })"

subsection \<open>Coverage of points\<close>

lemma coverage_hits_range: "0 \<le> coverage_hits x y rr" "coverage_hits x y rr \<le> 16"
proof -
  define ps where "ps = List.product [-6, -2, 2, 6 :: int] [-6, -2, 2, 6 :: int]"
  have "length ps = 16" by (simp add: ps_def)
  then have "length (filter P ps) \<le> 16" for P using length_filter_le [of P ps] by simp
  then have "int (length (filter P ps)) \<le> int 16" for P by (rule of_nat_mono)
  then show "coverage_hits x y rr \<le> 16" unfolding coverage_hits_def ps_def [symmetric] of_nat_numeral .
qed (simp add: coverage_hits_def)

lemma scaled_distance:
  assumes d: "0 < (D :: int)" "a < b" and m: "rmin \<le> n" "n < rmax" and r: "rmin = a div 256" "rmax = b div 256" "D = b - a"
  shows "0 \<le> (n - rmin) * (0x800000 div D)" "(n - rmin) * (0x800000 div D) < 0x8000"
proof -
  have s: "0 \<le> 0x800000 div D" using d by (simp add: pos_imp_zdiv_nonneg_iff)
  then show "0 \<le> (n - rmin) * (0x800000 div D)" using m by simp
  define p q where pq: "p = a div 256" "q = b div 256"
  have "256 * q \<le> b" "a < 256 * p + 256" "p \<le> n" "n < q" using m unfolding r pq by linarith+
  then have k: "(n - rmin) * 256 < D" unfolding r pq(1) [symmetric] by (simp add: algebra_simps)
  have "(n - rmin) * (0x800000 div D) * 256 = (n - rmin) * 256 * (0x800000 div D)" by simp
  also have "\<dots> \<le> (D - 1) * (0x800000 div D)" using k s by (intro mult_right_mono) auto
  also have "\<dots> = D * (0x800000 div D) - 0x800000 div D" by (simp add: left_diff_distrib)
  also have "\<dots> < 0x800000"
  proof (cases "0x800000 div D = 0")
    case False
    have "D * (0x800000 div D) \<le> 0x800000" using d mult_div_mod_eq [of D "0x800000"] pos_mod_sign [of D "0x800000"] by linarith
    then show ?thesis using s False by linarith
  qed simp
  finally show "(n - rmin) * (0x800000 div D) < 0x8000" by simp
qed

subsection \<open>Coverage as a property\<close>

text \<open>C33. The coverage of a pixel by an antialiased point is a 15-bit fraction. For every pixel and every
  radius from a sixteenth of a pixel up to 175 pixels, with the bounds and the scale that \<^verbatim>\<open>aa_pointx\<close>
  computes from the radius, the fast coverage lies between 0 and \<^verbatim>\<open>0x7FFF\<close>: the product of the distance
  and the scale neither wraps nor exceeds the range, so the value stored in the coverage buffer of
  \<^verbatim>\<open>int16_t\<close> is never negative. The sampled coverage of \<^verbatim>\<open>aa_nice_pointx\<close> lies in the same range for all
  bounds.\<close>

theorem point_coverage_range:
  assumes "1 \<le> rad" "rad \<le> 2800"
    and "rmin = s32 (s32 (s32 (rad * 2 ^ 4) - 0xB5) * s32 (s32 (rad * 2 ^ 4) - 0xB5))"
    and "rmax = s32 (s32 (s32 (rad * 2 ^ 4) + 0xB5) * s32 (s32 (rad * 2 ^ 4) + 0xB5))"
  shows "coverageFast x y (rmin div 2 ^ 8) (rmax div 2 ^ 8) (0x800000 sdiv s32 (rmax - rmin)) \<in> {0..0x7FFF} \<and>
    coverageNice x y lo hi rr \<in> {0..0x7FFF}"
proof
  define a b where ab: "a = (rad * 16 - 181) * (rad * 16 - 181)" "b = (rad * 16 + 181) * (rad * 16 + 181)"
  have r16: "s32 (rad * 2 ^ 4) = rad * 16" "s32 (rad * 16 - 181) = rad * 16 - 181" "s32 (rad * 16 + 181) = rad * 16 + 181"
    using assms(1,2) by (simp_all add: s32_id')
  have D: "b - a = 11584 * rad" by (simp add: ab algebra_simps)
  have a0: "0 \<le> a" by (simp add: ab)
  have "b \<le> (2800 * 16 + 181) * (2800 * 16 + 181)" unfolding ab using assms(1,2) by (intro mult_mono) auto
  then have b: "b < 2147483648" by simp
  have m: "rmin = a" "rmax = b" "s32 (b - a) = b - a"
    using a0 b D assms(1,2) unfolding assms(3,4) r16 ab [symmetric] by (simp_all add: s32_id')
  have sd: "0x800000 sdiv (b - a) = 0x800000 div (b - a)" using D assms(1) by (simp add: signed_divide_int_def)
  show "coverageFast x y (rmin div 2 ^ 8) (rmax div 2 ^ 8) (0x800000 sdiv s32 (rmax - rmin)) \<in> {0..0x7FFF}"
  proof -
    define n where "n = s32 (x * x + y * y)"
    have "0 \<le> s32 (0x7FFF - s32 (s32 (n - a div 256) * (0x800000 div (b - a)))) \<and>
        s32 (0x7FFF - s32 (s32 (n - a div 256) * (0x800000 div (b - a)))) \<le> 0x7FFF" if n: "a div 256 \<le> n" "n < b div 256"
    proof -
      have "s32 (n - a div 256) = n - a div 256" using n a0 b by (intro s32_id') linarith+
      then show ?thesis using scaled_distance [OF _ _ n refl refl refl] D assms(1) by (simp add: s32_id')
    qed
    then show ?thesis unfolding coverageFast_def Let_def m sd n_def [symmetric] by (simp add: not_le)
  qed
  show "coverageNice x y lo hi rr \<in> {0..0x7FFF}"
    using coverage_hits_range [of x y rr] by (simp add: coverageNice_def Let_def)
qed

theorem point_coverage_range_witness:
  "coverageFast 40 30 10 372 90 \<in> {0..0x7FFF} \<and> coverageNice 40 30 16 1600 784 \<in> {0..0x7FFF}"
  using point_coverage_range [of 8 2809 95481 40 30 16 1600 784] by (simp add: s32_id' signed_divide_int_def)

end
