(* ===== verification/GGLAAPoly.thy ===== *)
theory GGLAAPoly
  imports GGLTrap
begin

text \<open>
  The antialiased polygons of \<^verbatim>\<open>libpixelflinger/trap.cpp\<close>: edge set-up and sorting, the sweep
  that accumulates the coverage of a scanline from the left and the right edge, and the antialiased line
  and triangle. The loop of the sweep runs on fuel; \<open>aa_sweep_terminates\<close> shows that the fuel given to it
  is never used up. \<^term>\<open>None\<close> is undefined behaviour: an access outside the coverage buffer or to an edge
  that was not set up.
\<close>

subsection \<open>Edges\<close>

record AAEdge =
  ae_x :: int
  ae_x_incr :: int
  ae_y_incr :: int
  ae_y_top :: int
  ae_y_bot :: int

definition aa_edge_setup :: "AAEdge list \<Rightarrow> point \<Rightarrow> point \<Rightarrow> int \<Rightarrow> int \<Rightarrow> AAEdge list option" where
  "aa_edge_setup edges p1 p2 ymin ymax =
     (let (top, bot) = (if snd p1 > snd p2 then (p2, p1) else (p1, p2));
          y1 = snd top; y2 = snd bot; dy = s32 (y2 - y1) in
      if dy = 0 \<or> y1 > ymax \<or> y2 < ymin then Some edges
      else
        let ymin = (if y1 > ymin then y1 else ymin); ymax = (if y2 < ymax then y2 else ymax);
            x1 = fst top; dx = s32 (fst bot - x1); x = s32 (x1 * 2 ^ 12) in do {
          (x_incr, y_incr) \<leftarrow>
            (if ymin \<le> ymax \<and> dx \<noteq> 0 then do {
               xi \<leftarrow> gglDivQ16 dx dy;
               yi \<leftarrow> gglDivQ16 dy dx;
               Some (xi, s32 \<bar>yi\<bar>)
             } else Some (0, 0x7FFFFFFF));
          let x = (if y1 < ymin then s32 (x + s32 (x_incr * s32 (ymin - y1)) div 2 ^ 4) else x);
          Some (edges @ [\<lparr>ae_x = x, ae_x_incr = x_incr, ae_y_incr = y_incr, ae_y_top = s16 ymin, ae_y_bot = s16 ymax\<rparr>])
        })"

definition compare_edges :: "AAEdge \<Rightarrow> AAEdge \<Rightarrow> int" where
  "compare_edges e0 e1 =
     (if ae_y_top e0 > ae_y_top e1 then 1
      else if ae_y_top e0 < ae_y_top e1 then -1
      else if ae_x e0 > ae_x e1 then 1
      else if ae_x e0 < ae_x e1 then -1
      else if ae_x_incr e0 > ae_x_incr e1 then 1
      else if ae_x_incr e0 < ae_x_incr e1 then -1
      else 0)"

text \<open>\<^verbatim>\<open>qsort\<close> with the comparison. Edges that compare equal keep their order here; the C library leaves
  their order open.\<close>

fun insert_edge :: "AAEdge \<Rightarrow> AAEdge list \<Rightarrow> AAEdge list" where
  "insert_edge e [] = [e]"
| "insert_edge e (f # fs) = (if compare_edges e f \<le> 0 then e # f # fs else f # insert_edge e fs)"

definition sort_edges :: "AAEdge list \<Rightarrow> AAEdge list" where
  "sort_edges es = foldr insert_edge es []"

subsection \<open>The coverage buffer\<close>

text \<open>A position in the buffer goes with the context.\<close>

definition SET_COVERAGE :: "int \<Rightarrow> int \<Rightarrow> context_t \<times> int \<Rightarrow> (context_t \<times> int) option" where
  "SET_COVERAGE v n cp = (case cp of (c, p) \<Rightarrow>
     if n < 0 then None else do { c \<leftarrow> store_coverage p (p + n) (\<lambda>_. v) c; Some (c, p + n) })"

definition ADD_COVERAGE :: "int \<Rightarrow> context_t \<times> int \<Rightarrow> (context_t \<times> int) option" where
  "ADD_COVERAGE v cp = (case cp of (c, p) \<Rightarrow>
     let v = s32 (coverage c p + v); v = (if v \<ge> 0x8000 then 0x7FFF else v) in do {
       c \<leftarrow> store_coverage p (p + 1) (\<lambda>_. v) c;
       Some (c, p + 1)
     })"

definition SUB_COVERAGE :: "int \<Rightarrow> context_t \<times> int \<Rightarrow> (context_t \<times> int) option" where
  "SUB_COVERAGE v cp = (case cp of (c, p) \<Rightarrow>
     let v = s32 (coverage c p - v); v = (if v < 0 then 0 else v) in do {
       c \<leftarrow> store_coverage p (p + 1) (\<lambda>_. v) c;
       Some (c, p + 1)
     })"

text \<open>The pixels between the first and the last that an edge crosses: \<open>acc\<close> is \<^const>\<open>ADD_COVERAGE\<close> or
  \<^const>\<open>SUB_COVERAGE\<close>.\<close>

fun middle_pixels ::
  "(int \<Rightarrow> context_t \<times> int \<Rightarrow> (context_t \<times> int) option) \<Rightarrow> int \<Rightarrow> nat \<Rightarrow> int \<Rightarrow> context_t \<times> int \<Rightarrow> (int \<times> context_t \<times> int) option" where
  "middle_pixels acc y_incr 0 cf cp = Some (cf, cp)"
| "middle_pixels acc y_incr (Suc n) cf cp = do {
     let cf = s32 (cf + y_incr div 2);
     cp \<leftarrow> acc cf cp;
     middle_pixels acc y_incr n cf cp
   }"

text \<open>The number of rounds of \<^verbatim>\<open>for (x=a ; x<b ; x+=FIXED_ONE)\<close>.\<close>

definition fixed_rounds :: "int \<Rightarrow> int \<Rightarrow> nat" where
  "fixed_rounds a b = nat ((b - a + 0xFFFF) div 2 ^ 16)"

definition edge_coverage ::
  "(int \<Rightarrow> context_t \<times> int \<Rightarrow> (context_t \<times> int) option) \<Rightarrow> int \<Rightarrow> int \<Rightarrow> int \<Rightarrow> int \<Rightarrow> context_t \<Rightarrow> context_t option" where
  "edge_coverage acc y_incr dy v_min v_max c =
     (let min_i = gglFloorx v_min; max_i = gglCeilx v_max; p = gglFixedToIntFloor min_i in
      if min_i = gglFloorx v_max then do {
        let dx = s32 (v_max - v_min);
        let cf = gglMulx (s32 (dx div 2 + s32 (min_i + FIXED_ONE - v_max))) dy 5;
        (c, p) \<leftarrow> acc cf (c, p);
        Some c
      } else do {
        let dx = s32 (TRI_FROM_FIXED (s32 (min_i - v_min)) + 16);
        let cf = s32 (dx * dx * y_incr) div 2 ^ 10;
        cp \<leftarrow> acc cf (c, p);
        let dx = TRI_FROM_FIXED (s32 (v_min - min_i));
        let cf = s32 (cf - s32 (dx * dx * y_incr) div 2 ^ 10);
        (cf, cp) \<leftarrow> middle_pixels acc y_incr (fixed_rounds (s32 (min_i + FIXED_ONE)) (s32 (max_i - FIXED_ONE))) cf cp;
        let dx = s32 (TRI_FROM_FIXED (s32 (v_max - max_i)) - 16);
        let cf = s32 (cf + s32 (dx * dx * y_incr) div 2 ^ 10);
        (c, p) \<leftarrow> acc cf cp;
        Some c
      })"

fun fill_pixels :: "int \<Rightarrow> nat \<Rightarrow> context_t \<times> int \<Rightarrow> (context_t \<times> int) option" where
  "fill_pixels cf 0 cp = Some cp"
| "fill_pixels cf (Suc n) cp = do { cp \<leftarrow> ADD_COVERAGE cf cp; fill_pixels cf n cp }"

definition fill_coverage :: "int \<Rightarrow> int \<Rightarrow> int \<Rightarrow> context_t \<Rightarrow> context_t option" where
  "fill_coverage dy l_max r_max c =
     (let l_max_i = gglCeilx l_max; p = gglFixedToIntFloor l_max_i; cf = s32 (dy * 2 ^ 11) in
      map_option fst
        (if cf \<ge> 0x8000 then SET_COVERAGE 0x7FFF (s32 (r_max - l_max_i) div 2 ^ 16 + 1) (c, p)
         else fill_pixels cf (fixed_rounds l_max_i r_max) (c, p)))"

subsection \<open>The sweep\<close>

record aa_state =
  as_left :: AAEdge
  as_right :: AAEdge
  as_rest :: "AAEdge list"
  as_yt :: int
  as_l :: int
  as_r :: int
  as_retire :: bool

text \<open>The position of an edge at \<open>y\<close>, and its extent since the last position, sorted and brought inside
  the buffer.\<close>

definition edge_at :: "AAEdge \<Rightarrow> int \<Rightarrow> int" where
  "edge_at e y = gglMulAddx (ae_x_incr e) (s32 (y - ae_y_top e)) (ae_x e) 4"

definition extent :: "int \<Rightarrow> int \<Rightarrow> int \<Rightarrow> int \<times> int" where
  "extent xmax v old =
     (let (lo, hi) = (if v > old then (old, v) else (v, old));
          lo = (if lo < 0 then 0 else lo); hi = (if hi < 0 then 0 else hi);
          lo = (if gglFixedToIntFloor lo \<ge> xmax then s32 (gglIntToFixed xmax - 1) else lo);
          hi = (if gglFixedToIntCeil hi \<ge> xmax then s32 (gglIntToFixed xmax - 1) else hi)
      in (lo, hi))"

text \<open>The end of the current slice: the end of an edge or the next scanline, whichever comes first.\<close>

definition next_y :: "aa_state \<Rightarrow> int" where
  "next_y st = min (min (ae_y_bot (as_left st)) (ae_y_bot (as_right st))) (TRI_FLOOR (as_yt st + 16))"

definition aa_retire :: "int \<Rightarrow> int \<Rightarrow> int \<Rightarrow> int \<Rightarrow> bool \<Rightarrow> context_t \<Rightarrow> context_t option" where
  "aa_retire xmin xmax xml xmr retire c =
     (if retire then do {
        c \<leftarrow> (if it_xl (iterators c) < it_xr (iterators c) then call_scanline c else Some c);
        c \<leftarrow> call_step_y c;
        c \<leftarrow> store_coverage xmin xmax (\<lambda>_. 0) c;
        Some (set_span xml xmr c)
      } else Some (set_span (min (it_xl (iterators c)) xml) (max (it_xr (iterators c)) xmr) c))"

text \<open>The edges that follow the ones that end at \<open>y\<close>; \<open>Inr\<close> when the polygon is finished.\<close>

definition next_edges :: "int \<Rightarrow> aa_state \<Rightarrow> (aa_state + unit) option" where
  "next_edges y st =
     (if y = ae_y_bot (as_left st) \<or> y = ae_y_bot (as_right st) then
        if as_rest st = [] then Some (Inr ())
        else do {
          let new_right = (y = ae_y_bot (as_right st));
          st \<leftarrow> (if y = ae_y_bot (as_left st) then Some (st\<lparr>as_left := hd (as_rest st), as_rest := tl (as_rest st)\<rparr>) else Some st);
          if new_right then
            (case as_rest st of [] \<Rightarrow> None | e # es \<Rightarrow> Some (Inl (st\<lparr>as_right := e, as_rest := es\<rparr>)))
          else Some (Inl st)
        }
      else Some (Inl st))"

definition aa_step :: "int \<Rightarrow> int \<Rightarrow> aa_state \<Rightarrow> context_t \<Rightarrow> ((aa_state + unit) \<times> context_t) option" where
  "aa_step xmin xmax st c =
     (let y = next_y st; left = as_left st; right = as_right st; dy = s32 (y - as_yt st);
          l = edge_at left y; r = edge_at right y;
          (l_min, l_max) = extent xmax l (as_l st); (r_min, r_max) = extent xmax r (as_r st);
          xml = max xmin (gglFixedToIntFloor (gglFloorx l_min)); xmr = min xmax (gglFixedToIntFloor (gglCeilx r_max)) in do {
        c \<leftarrow> aa_retire xmin xmax xml xmr (as_retire st) c;
        c \<leftarrow> edge_coverage ADD_COVERAGE (ae_y_incr left) dy l_min l_max c;
        c \<leftarrow> fill_coverage dy l_max r_max c;
        c \<leftarrow> edge_coverage SUB_COVERAGE (ae_y_incr right) dy r_min r_max c;
        res \<leftarrow> next_edges y (st\<lparr>as_l := l, as_r := r\<rparr>);
        Some (case res of Inr u \<Rightarrow> (Inr u, c) | Inl st \<Rightarrow> (Inl (st\<lparr>as_yt := y, as_retire := (y mod 16 = 0)\<rparr>), c))
      })"

text \<open>The loop, with fuel: \<open>Some None\<close> is fuel used up.\<close>

fun aa_sweep :: "nat \<Rightarrow> int \<Rightarrow> int \<Rightarrow> aa_state \<Rightarrow> context_t \<Rightarrow> context_t option option" where
  "aa_sweep 0 xmin xmax st c = Some None"
| "aa_sweep (Suc n) xmin xmax st c = do {
     (res, c) \<leftarrow> aa_step xmin xmax st c;
     (case res of Inr u \<Rightarrow> Some (Some c) | Inl st \<Rightarrow> aa_sweep n xmin xmax st c)
   }"

text \<open>The vertical range of an edge is 16 bits in 28.4, so that a pair of edges is swept in at most
  \<open>4097\<close> slices, and at most two edges follow the first two.\<close>

definition aa_fuel :: nat where "aa_fuel = 3 * 4097"

fun aa_edges :: "point list \<Rightarrow> point \<Rightarrow> int \<Rightarrow> int \<Rightarrow> AAEdge list \<Rightarrow> AAEdge list option" where
  "aa_edges [] q ymin ymax es = Some es"
| "aa_edges [p] q ymin ymax es = aa_edge_setup es p q ymin ymax"
| "aa_edges (p # p' # ps) q ymin ymax es = do {
     es \<leftarrow> aa_edge_setup es p p' ymin ymax;
     aa_edges (p' # ps) q ymin ymax es
   }"

text \<open>The state at the top of the polygon, from the sorted edges.\<close>

definition aa_start :: "AAEdge list \<Rightarrow> aa_state" where
  "aa_start es = \<lparr>as_left = es ! 0, as_right = es ! 1, as_rest = drop 2 es, as_yt = ae_y_top (es ! 0),
     as_l = ae_x (es ! 0), as_r = ae_x (es ! 1), as_retire = False\<rparr>"

definition aapolyx :: "context_t \<Rightarrow> point list \<Rightarrow> context_t option" where
  "aapolyx c pts =
     (let xmin = clip_left c; xmax = clip_right c; ymin = TRI_FROM_INT (clip_top c); ymax = TRI_FROM_INT (clip_bottom c) in
      if length pts > 4 \<or> length pts < 2 \<or> xmin \<ge> xmax \<or> ymin \<ge> ymax then Some c
      else do {
        es \<leftarrow> aa_edges pts (hd pts) ymin ymax [];
        if length es < 2 then Some c
        else do {
          let es = sort_edges es;
          c \<leftarrow> store_coverage xmin xmax (\<lambda>_. 0) c;
          c \<leftarrow> call_init_y c (ae_y_top (es ! 0) div 16);
          res \<leftarrow> aa_sweep aa_fuel xmin xmax (aa_start es) (set_span xmax xmin c);
          c \<leftarrow> res;
          if it_xl (iterators c) < it_xr (iterators c) then call_scanline c else Some c
        }
      })"

subsection \<open>Antialiased triangles and lines\<close>

definition aa_trianglex :: "context_t \<Rightarrow> point \<Rightarrow> point \<Rightarrow> point \<Rightarrow> context_t option" where
  "aa_trianglex c v0 v1 v2 = aapolyx c [v0, v1, v2]"

definition aa_linex :: "context_t \<Rightarrow> point \<Rightarrow> point \<Rightarrow> int \<Rightarrow> context_t option" where
  "aa_linex c v0 v1 width =
     (let dx = s32 (fst v0 - fst v1); dy = s32 (snd v0 - snd v1); nx = s32 (- dy); ny = dx in do {
        q \<leftarrow> gglSqrtRecipx (s32 (nx * nx + ny * ny));
        let norm = gglMulx width q 4;
        aapolyx c (line_quad v0 v1 (gglMulx nx norm 21, gglMulx ny norm 21))
      })"

subsection \<open>The drawing calls\<close>

text \<open>The calls through the procedure table: a validating procedure selects the procedure and then calls
  it.\<close>

definition run_pointx :: "point_proc \<Rightarrow> context_t \<Rightarrow> point \<Rightarrow> int \<Rightarrow> context_t option" where
  "run_pointx p c v rad = (case p of
     pointx_proc \<Rightarrow> pointx c v rad | aa_pointx_proc \<Rightarrow> aa_pointx c v rad
   | aa_nice_pointx_proc \<Rightarrow> aa_nice_pointx c v rad | _ \<Rightarrow> None)"

definition call_pointx :: "context_t \<Rightarrow> point \<Rightarrow> int \<Rightarrow> context_t option" where
  "call_pointx c v rad =
     (if pr_pointx (procs c) = pointx_validate_proc
      then let c = pointx_validate c in run_pointx (pr_pointx (procs c)) c v rad
      else run_pointx (pr_pointx (procs c)) c v rad)"

definition run_linex :: "line_proc \<Rightarrow> context_t \<Rightarrow> point \<Rightarrow> point \<Rightarrow> int \<Rightarrow> context_t option" where
  "run_linex p c v0 v1 w = (case p of linex_proc \<Rightarrow> linex c v0 v1 w | aa_linex_proc \<Rightarrow> aa_linex c v0 v1 w | _ \<Rightarrow> None)"

definition call_linex :: "context_t \<Rightarrow> point \<Rightarrow> point \<Rightarrow> int \<Rightarrow> context_t option" where
  "call_linex c v0 v1 w =
     (if pr_linex (procs c) = linex_validate_proc
      then let c = linex_validate c in run_linex (pr_linex (procs c)) c v0 v1 w
      else run_linex (pr_linex (procs c)) c v0 v1 w)"

definition call_recti :: "context_t \<Rightarrow> int \<Rightarrow> int \<Rightarrow> int \<Rightarrow> int \<Rightarrow> context_t option" where
  "call_recti c l t r b =
     (case pr_recti (procs c) of recti_validate_proc \<Rightarrow> recti (recti_validate c) l t r b | recti_proc \<Rightarrow> recti c l t r b
      | _ \<Rightarrow> None)"

definition run_trianglex :: "triangle_proc \<Rightarrow> context_t \<Rightarrow> point \<Rightarrow> point \<Rightarrow> point \<Rightarrow> context_t option" where
  "run_trianglex p c v0 v1 v2 = (case p of
     trianglex_big_proc \<Rightarrow> trianglex_big c v0 v1 v2 | aa_trianglex_proc \<Rightarrow> aa_trianglex c v0 v1 v2 | _ \<Rightarrow> None)"

definition call_trianglex :: "context_t \<Rightarrow> point \<Rightarrow> point \<Rightarrow> point \<Rightarrow> context_t option" where
  "call_trianglex c v0 v1 v2 =
     (if pr_trianglex (procs c) = trianglex_validate_proc
      then let c = trianglex_validate c in run_trianglex (pr_trianglex (procs c)) c v0 v1 v2
      else run_trianglex (pr_trianglex (procs c)) c v0 v1 v2)"

subsection \<open>The sweep ends\<close>

definition int16 :: "int \<Rightarrow> bool" where "int16 x \<longleftrightarrow> - 32768 \<le> x \<and> x \<le> 32767"

definition aa_edge_ok :: "AAEdge \<Rightarrow> bool" where "aa_edge_ok e \<longleftrightarrow> int16 (ae_y_top e) \<and> int16 (ae_y_bot e)"

definition aa_state_ok :: "aa_state \<Rightarrow> bool" where
  "aa_state_ok st \<longleftrightarrow> aa_edge_ok (as_left st) \<and> aa_edge_ok (as_right st) \<and> (\<forall>e \<in> set (as_rest st). aa_edge_ok e) \<and> int16 (as_yt st)"

text \<open>The scanlines left for the current pair of edges, and for the edges that follow.\<close>

definition slices :: "int \<Rightarrow> nat" where "slices y = nat ((32767 - y) div 16 + 1)"

definition aa_measure :: "aa_state \<Rightarrow> nat" where
  "aa_measure st = 4097 * length (as_rest st) + slices (TRI_FLOOR (as_yt st))"

lemma s16_int16 [simp]: "int16 (s16 x)"
proof -
  have "0 \<le> (x + 2 ^ 15) mod 2 ^ 16" "(x + 2 ^ 15) mod 2 ^ 16 < 2 ^ 16" by simp_all
  then show ?thesis unfolding int16_def s16_def by simp
qed

lemma floor_le: "TRI_FLOOR y \<le> y" "y < TRI_FLOOR y + 16" "TRI_FLOOR (TRI_FLOOR y) = TRI_FLOOR y" "TRI_FLOOR (y + 16) = TRI_FLOOR y + 16"
  by (simp_all add: TRI_FLOOR_def minus_mod_eq_mult_div)

lemma slices_range: "- 32768 \<le> y \<Longrightarrow> y \<le> 32767 \<Longrightarrow> 1 \<le> slices y \<and> slices y \<le> 4096"
proof -
  assume y: "- 32768 \<le> y" "y \<le> 32767"
  then have "0 \<le> (32767 - y) div 16" "(32767 - y) div 16 \<le> 4095" by linarith+
  then show ?thesis by (auto simp: slices_def nat_le_iff Suc_le_eq)
qed

lemma slices_step: "y + 16 \<le> 32767 \<Longrightarrow> slices (y + 16) < slices y"
proof -
  assume y: "y + 16 \<le> 32767"
  then have "(32767 - y) div 16 = (32767 - (y + 16)) div 16 + 1" "0 \<le> (32767 - (y + 16)) div 16" by linarith+
  then show ?thesis by (simp add: slices_def)
qed

lemma slices_bounds: "int16 y \<Longrightarrow> 1 \<le> slices (TRI_FLOOR y) \<and> slices (TRI_FLOOR y) \<le> 4096"
proof -
  assume y: "int16 y"
  have "TRI_FLOOR y = 16 * (y div 16)" by (simp add: TRI_FLOOR_def minus_mod_eq_mult_div)
  then have "- 32768 \<le> TRI_FLOOR y" "TRI_FLOOR y \<le> 32767" using y by (auto simp: int16_def)
  then show ?thesis using slices_range by blast
qed

lemma next_edges_decreases:
  assumes ok: "aa_state_ok st" and y: "y = next_y st" and r: "next_edges y (st\<lparr>as_l := l, as_r := r\<rparr>) = Some (Inl st')"
  shows "aa_state_ok (st'\<lparr>as_yt := y, as_retire := b\<rparr>) \<and> aa_measure (st'\<lparr>as_yt := y, as_retire := b\<rparr>) < aa_measure st"
proof -
  have b: "int16 (ae_y_bot (as_left st))" "int16 (ae_y_bot (as_right st))" "int16 (as_yt st)" using ok by (auto simp: aa_state_ok_def aa_edge_ok_def)
  have y16: "int16 y" using b floor_le [of "as_yt st"] unfolding y next_y_def int16_def floor_le(4) by linarith
  note sl = slices_bounds [OF y16] slices_bounds [OF b(3)]
  show ?thesis
  proof (cases "y = ae_y_bot (as_left st) \<or> y = ae_y_bot (as_right st)")
    case True
    have "aa_state_ok (st'\<lparr>as_yt := y, as_retire := b\<rparr>)" "length (as_rest st') < length (as_rest st)"
      using r ok True y16 by (auto simp: next_edges_def aa_state_ok_def neq_Nil_conv split: if_splits list.splits)
    then show ?thesis using sl by (simp add: aa_measure_def)
  next
    case False
    have "st' = st\<lparr>as_l := l, as_r := r\<rparr>" using r False by (simp add: next_edges_def)
    moreover have f: "y = TRI_FLOOR (as_yt st) + 16" using False unfolding y next_y_def floor_le(4) by linarith
    moreover have "slices (TRI_FLOOR y) < slices (TRI_FLOOR (as_yt st))"
    proof -
      have "TRI_FLOOR y = TRI_FLOOR (as_yt st) + 16" using f floor_le(3,4) by simp
      moreover have "TRI_FLOOR (as_yt st) + 16 \<le> 32767" using f y16 by (simp add: int16_def)
      ultimately show ?thesis using slices_step by simp
    qed
    ultimately show ?thesis using ok y16 by (simp add: aa_measure_def aa_state_ok_def)
  qed
qed

lemma aa_step_decreases:
  assumes "aa_state_ok st" "aa_step xmin xmax st c = Some (Inl st', c')"
  shows "aa_state_ok st' \<and> aa_measure st' < aa_measure st"
proof -
  obtain l r c1 c2 res where n: "next_edges (next_y st) (st\<lparr>as_l := l, as_r := r\<rparr>) = Some res"
    "(case res of Inr u \<Rightarrow> (Inr u, c1) | Inl s \<Rightarrow> (Inl (s\<lparr>as_yt := next_y st, as_retire := (next_y st mod 16 = 0)\<rparr>), c1)) = (Inl st', c')"
    using assms(2) unfolding aa_step_def Let_def by (auto simp: case_prod_beta bind_eq_Some_conv simp del: sum.case)
  then show ?thesis using next_edges_decreases [OF assms(1) refl] by (cases res) auto
qed

lemma aa_sweep_enough:
  "aa_state_ok st \<Longrightarrow> aa_measure st \<le> n \<Longrightarrow> n \<le> m \<Longrightarrow>
    aa_sweep n xmin xmax st c \<noteq> Some None \<and> aa_sweep m xmin xmax st c = aa_sweep n xmin xmax st c"
proof (induction n arbitrary: st c m)
  case 0
  then show ?case using slices_bounds [of "as_yt st"] by (simp add: aa_measure_def aa_state_ok_def)
next
  case (Suc n)
  then obtain m' where m: "m = Suc m'" "n \<le> m'" by (cases m) auto
  have IH: "aa_sweep n xmin xmax st' c' \<noteq> Some None \<and> aa_sweep m' xmin xmax st' c' = aa_sweep n xmin xmax st' c'"
    if "aa_step xmin xmax st c = Some (Inl st', c')" for st' c'
    using Suc.IH [OF _ _ m(2)] aa_step_decreases [OF Suc.prems(1) that] Suc.prems(2) by simp
  show ?case
  proof (cases "aa_step xmin xmax st c")
    case (Some p)
    then obtain res c' where p: "aa_step xmin xmax st c = Some (res, c')" by (cases p) auto
    show ?thesis using IH p by (cases res) (auto simp: m)
  qed (simp add: m)
qed

text \<open>The edges that the vertices of a polygon give.\<close>

lemma aa_edge_setup_ok:
  assumes "aa_edge_setup es p q ymin ymax = Some es'" "\<forall>e \<in> set es. aa_edge_ok e"
  shows "\<forall>e \<in> set es'. aa_edge_ok e" "length es' \<le> length es + 1"
  using assms unfolding aa_edge_setup_def Let_def
  by (auto simp: case_prod_beta bind_eq_Some_conv aa_edge_ok_def split: if_splits)

lemma aa_edges_ok:
  "aa_edges pts q ymin ymax es = Some es' \<Longrightarrow> \<forall>e \<in> set es. aa_edge_ok e \<Longrightarrow>
    (\<forall>e \<in> set es'. aa_edge_ok e) \<and> length es' \<le> length es + length pts"
proof (induction pts q ymin ymax es rule: aa_edges.induct)
  case (2 p q ymin ymax es)
  then show ?case using aa_edge_setup_ok by auto
next
  case (3 p p' ps q ymin ymax es)
  then obtain es1 where e: "aa_edge_setup es p p' ymin ymax = Some es1" "aa_edges (p' # ps) q ymin ymax es1 = Some es'"
    by (auto simp: bind_eq_Some_conv)
  note k = aa_edge_setup_ok [OF e(1) "3.prems"(2)]
  show ?case using "3.IH" [OF e k(1)] k(2) by auto
qed simp

lemma insert_edge_set: "set (insert_edge e es) = insert e (set es)" "length (insert_edge e es) = Suc (length es)"
  by (induction es) auto

lemma sort_edges_set: "set (sort_edges es) = set es" "length (sort_edges es) = length es"
  by (induction es) (simp_all add: sort_edges_def insert_edge_set)

subsection \<open>Termination as a property\<close>

text \<open>C32. The sweep of an antialiased polygon ends. The source leaves its \<^verbatim>\<open>while\<close> loop only when no edge is
  left; each turn of the loop either goes to the next scanline or replaces or retires an edge, and the edges
  of a polygon of at most four vertices begin and end in the range of \<^verbatim>\<open>int16_t\<close>. So from the state in
  which \<^verbatim>\<open>aapolyx\<close> starts its loop, whatever the vertices and the scissor, the loop is left within the fuel
  that the model gives it, and more fuel gives the same result.\<close>

theorem aa_sweep_terminates:
  assumes "length pts \<le> 4" "aa_edges pts q ymin ymax [] = Some es" "2 \<le> length es"
  shows "aa_sweep aa_fuel xmin xmax (aa_start (sort_edges es)) c \<noteq> Some None \<and>
    (\<forall>n \<ge> aa_fuel. aa_sweep n xmin xmax (aa_start (sort_edges es)) c = aa_sweep aa_fuel xmin xmax (aa_start (sort_edges es)) c)"
proof -
  define fs where "fs = sort_edges es"
  have fs: "\<forall>e \<in> set fs. aa_edge_ok e" "length fs \<le> 4" "2 \<le> length fs"
    using aa_edges_ok [OF assms(2)] assms(1,3) by (simp_all add: fs_def sort_edges_set)
  have m: "aa_edge_ok (fs ! 0)" "aa_edge_ok (fs ! 1)" using fs(1) [rule_format, OF nth_mem [of 0 fs]] fs(1) [rule_format, OF nth_mem [of 1 fs]] fs(3) by (auto simp: less_eq_Suc_le numeral_2_eq_2)
  have ok: "aa_state_ok (aa_start fs)" using m fs(1) by (auto simp: aa_state_ok_def aa_start_def aa_edge_ok_def dest!: in_set_dropD)
  have "slices (TRI_FLOOR (as_yt (aa_start fs))) \<le> 4096" using slices_bounds ok by (simp add: aa_state_ok_def)
  moreover have "length (as_rest (aa_start fs)) \<le> 2" using fs(2) by (simp add: aa_start_def)
  ultimately have "aa_measure (aa_start fs) \<le> aa_fuel" unfolding aa_measure_def aa_fuel_def by linarith
  then show ?thesis unfolding fs_def [symmetric] using aa_sweep_enough [OF ok] le_refl by blast
qed

theorem aa_sweep_terminates_witness:
  "aa_sweep aa_fuel 0 8 (aa_start (sort_edges [\<lparr>ae_x = 0, ae_x_incr = 0, ae_y_incr = 0x7FFFFFFF, ae_y_top = 0, ae_y_bot = 64\<rparr>,
      \<lparr>ae_x = 262144, ae_x_incr = 0, ae_y_incr = 0x7FFFFFFF, ae_y_top = 0, ae_y_bot = 64\<rparr>])) (ggl_init_context (\<lambda>_. 0)) \<noteq> Some None"
proof -
  have "aa_edges [(0, 0), (0, 64), (64, 64), (64, 0)] (0, 0) 0 128 [] =
    Some [\<lparr>ae_x = 0, ae_x_incr = 0, ae_y_incr = 0x7FFFFFFF, ae_y_top = 0, ae_y_bot = 64\<rparr>,
      \<lparr>ae_x = 262144, ae_x_incr = 0, ae_y_incr = 0x7FFFFFFF, ae_y_top = 0, ae_y_bot = 64\<rparr>]"
    by (simp add: aa_edge_setup_def s16_def s32_def)
  then show ?thesis by (rule conjunct1 [OF aa_sweep_terminates [rotated]]) simp_all
qed

end
