(* ===== verification/GGLTriangle.thy ===== *)
theory GGLTriangle
  imports GGLAAPoly
begin

text \<open>
  Properties of the rasterizers of \<^verbatim>\<open>libpixelflinger/trap.cpp\<close>. The inside of a triangle is defined by its edge
  equations over the integers, with the fill rule that gives the points of an edge to one side; the small
  triangles draw exactly the pixels whose centres are inside.
\<close>


subsection \<open>Rows of spans\<close>

text \<open>What every rasterizer does after \<^verbatim>\<open>init_y\<close>: one span per row, drawn when it is not empty.\<close>

fun draw_rows :: "(int \<times> int) list \<Rightarrow> context_t \<Rightarrow> context_t option" where
  "draw_rows [] c = Some c"
| "draw_rows ((xl, xr) # ss) c = do {
     c \<leftarrow> (if xl < xr then call_scanline (set_span xl xr c) else Some c);
     c \<leftarrow> call_step_y c;
     draw_rows ss c
   }"

subsection \<open>The inside of a triangle\<close>

text \<open>The edge equation of the directed edge from \<open>p\<close> to \<open>q\<close> over the integers, and the inside of a
  triangle in 28.4 coordinates: on the inner side of every edge, or on an edge that owns its points.\<close>

definition edge_value :: "point \<Rightarrow> point \<Rightarrow> int \<Rightarrow> int \<Rightarrow> int" where
  "edge_value p q X Y = (snd p - snd q) * (fst p - X) - (fst p - fst q) * (snd p - Y)"

definition owns_points :: "point \<Rightarrow> point \<Rightarrow> bool" where
  "owns_points p q \<longleftrightarrow> snd p < snd q \<or> snd p = snd q \<and> fst p > fst q"

definition edge_inside :: "point \<Rightarrow> point \<Rightarrow> int \<Rightarrow> int \<Rightarrow> bool" where
  "edge_inside p q X Y \<longleftrightarrow> edge_value p q X Y > 0 \<or> edge_value p q X Y = 0 \<and> owns_points p q"

definition area2 :: "point \<Rightarrow> point \<Rightarrow> point \<Rightarrow> int" where
  "area2 p q r = (fst p - fst q) * (snd r - snd p) - (snd p - snd q) * (fst r - fst p)"

definition ccw :: "point \<Rightarrow> point \<Rightarrow> point \<Rightarrow> point \<times> point" where
  "ccw p q r = (if area2 p q r < 0 then (q, p) else (p, q))"

definition inside3 :: "point \<Rightarrow> point \<Rightarrow> point \<Rightarrow> int \<Rightarrow> int \<Rightarrow> bool" where
  "inside3 p q r X Y \<longleftrightarrow> edge_inside p q X Y \<and> edge_inside q r X Y \<and> edge_inside r p X Y"

definition pixel_inside :: "point \<Rightarrow> point \<Rightarrow> point \<Rightarrow> int \<Rightarrow> int \<Rightarrow> bool" where
  "pixel_inside v0 v1 v2 x y \<longleftrightarrow> (let (p, q) = ccw v0 v1 v2 in inside3 p q v2 (16 * x + 8) (16 * y + 8))"

lemma edge_value_sum: "edge_value p q X Y + edge_value q r X Y + edge_value r p X Y = area2 p q r"
  by (simp add: edge_value_def area2_def algebra_simps)

lemma edge_value_weights:
  "edge_value p q X Y * fst r + edge_value q r X Y * fst p + edge_value r p X Y * fst q = area2 p q r * X"
  "edge_value p q X Y * snd r + edge_value q r X Y * snd p + edge_value r p X Y * snd q = area2 p q r * Y"
  by (simp_all add: edge_value_def area2_def algebra_simps)

lemma edge_value_swap: "edge_value q p X Y = - edge_value p q X Y"
  by (simp add: edge_value_def algebra_simps)

lemma area2_ccw: "ccw p q r = (p', q') \<Longrightarrow> 0 \<le> area2 p' q' r"
  by (auto simp: ccw_def area2_def algebra_simps split: if_splits)

lemma weighted_bounds:
  fixes a b c m :: int
  assumes "0 \<le> a" "0 \<le> b" "0 \<le> c" "0 < a + b + c" "a * x + b * y + c * z = (a + b + c) * w"
  shows "min x (min y z) \<le> w" "w \<le> max x (max y z)"
proof -
  let ?m = "min x (min y z)" and ?M = "max x (max y z)"
  have "a * ?m \<le> a * x" "b * ?m \<le> b * y" "c * ?m \<le> c * z" using assms(1-3) by (auto intro: mult_left_mono)
  then have "(a + b + c) * ?m \<le> (a + b + c) * w" using assms(5) by (simp add: distrib_right)
  then show "?m \<le> w" using assms(4) by (simp add: mult_le_cancel_left)
  have "a * x \<le> a * ?M" "b * y \<le> b * ?M" "c * z \<le> c * ?M" using assms(1-3) by (auto intro: mult_left_mono)
  then have "(a + b + c) * w \<le> (a + b + c) * ?M" using assms(5) by (simp add: distrib_right)
  then show "w \<le> ?M" using assms(4) by (simp add: mult_le_cancel_left)
qed

lemma inside3_box:
  assumes "inside3 p q r X Y" "0 \<le> area2 p q r"
  shows "min (fst p) (min (fst q) (fst r)) \<le> X" "X \<le> max (fst p) (max (fst q) (fst r))"
    "min (snd p) (min (snd q) (snd r)) \<le> Y" "Y \<le> max (snd p) (max (snd q) (snd r))"
proof -
  let ?a = "edge_value p q X Y" and ?b = "edge_value q r X Y" and ?c = "edge_value r p X Y"
  have nn: "0 \<le> ?a" "0 \<le> ?b" "0 \<le> ?c" using assms(1) by (auto simp: inside3_def edge_inside_def)
  have pos: "0 < ?a + ?b + ?c"
  proof (rule ccontr)
    assume "\<not> 0 < ?a + ?b + ?c"
    then have "?a = 0" "?b = 0" "?c = 0" using nn by auto
    then have "owns_points p q" "owns_points q r" "owns_points r p" using assms(1) by (auto simp: inside3_def edge_inside_def)
    then show False by (auto simp: owns_points_def)
  qed
  have x: "?b * fst p + ?c * fst q + ?a * fst r = (?b + ?c + ?a) * X"
    using edge_value_weights(1) [of p q X Y r] edge_value_sum [of p q X Y r] by (simp add: ac_simps)
  have y: "?b * snd p + ?c * snd q + ?a * snd r = (?b + ?c + ?a) * Y"
    using edge_value_weights(2) [of p q X Y r] edge_value_sum [of p q X Y r] by (simp add: ac_simps)
  have pos': "0 < ?b + ?c + ?a" using pos by simp
  show "min (fst p) (min (fst q) (fst r)) \<le> X" "X \<le> max (fst p) (max (fst q) (fst r))"
    using weighted_bounds [OF nn(2,3,1) pos' x] by simp_all
  show "min (snd p) (min (snd q) (snd r)) \<le> Y" "Y \<le> max (snd p) (max (snd q) (snd r))"
    using weighted_bounds [OF nn(2,3,1) pos' y] by simp_all
qed

lemma edge_inside_exclusive: "p \<noteq> q \<Longrightarrow> edge_inside p q X Y \<longleftrightarrow> \<not> edge_inside q p X Y"
  by (auto simp: edge_inside_def edge_value_swap [of q p] owns_points_def prod_eq_iff)


subsection \<open>The loops of a row\<close>

lemma scan_find:
  assumes "\<And>k. x \<le> k \<Longrightarrow> k < x + int n \<Longrightarrow> step_values d (V k) = V (k + 1)"
  shows "\<exists>x'. small_scan stop n d x (V x) = (x', V x') \<and> x \<le> x' \<and> x' \<le> x + int n \<and>
    (\<forall>k. x \<le> k \<and> k < x' \<longrightarrow> all_positive (V k) \<noteq> stop) \<and> (x' < x + int n \<longrightarrow> all_positive (V x') = stop)"
  using assms
proof (induction n arbitrary: x)
  case 0
  show ?case by (intro exI [of _ x]) auto
next
  case (Suc n)
  show ?case
  proof (cases "all_positive (V x) = stop")
    case True
    then show ?thesis by (intro exI [of _ x]) auto
  next
    case False
    have "step_values d (V x) = V (x + 1)" by (rule Suc.prems) auto
    moreover obtain x' where "small_scan stop n d (x + 1) (V (x + 1)) = (x', V x')" "x + 1 \<le> x'" "x' \<le> x + 1 + int n"
      "\<forall>k. x + 1 \<le> k \<and> k < x' \<longrightarrow> all_positive (V k) \<noteq> stop" "x' < x + 1 + int n \<longrightarrow> all_positive (V x') = stop"
      using Suc.IH [of "x + 1"] Suc.prems by auto
    ultimately show ?thesis using False
      by (intro exI [of _ x']) (auto simp: order.order_iff_strict [of x] intro: order.strict_implies_order)
  qed
qed

lemma row_exact:
  assumes st: "\<And>k. minx \<le> k \<Longrightarrow> k < maxx \<Longrightarrow> step_values d (V k) = V (k + 1)"
    and conv: "\<And>a k b. all_positive (V a) \<Longrightarrow> all_positive (V b) \<Longrightarrow> a \<le> k \<Longrightarrow> k \<le> b \<Longrightarrow> all_positive (V k)"
    and "minx \<le> maxx"
  shows "minx \<le> x \<Longrightarrow> x < maxx \<Longrightarrow>
     fst (small_row minx maxx d (V minx)) \<le> x \<and> x < snd (small_row minx maxx d (V minx)) \<longleftrightarrow> all_positive (V x)"
    "minx \<le> fst (small_row minx maxx d (V minx))" "snd (small_row minx maxx d (V minx)) \<le> maxx"
proof -
  obtain xl where xl: "small_scan True (nat (maxx - minx)) d minx (V minx) = (xl, V xl)" "minx \<le> xl" "xl \<le> maxx"
    "\<forall>k. minx \<le> k \<and> k < xl \<longrightarrow> \<not> all_positive (V k)" "xl < maxx \<longrightarrow> all_positive (V xl)"
    using scan_find [of minx "nat (maxx - minx)" d V True] st assms(3) by auto
  obtain xr where xr: "small_scan False (nat (maxx - xl)) d xl (V xl) = (xr, V xr)" "xl \<le> xr" "xr \<le> maxx"
    "\<forall>k. xl \<le> k \<and> k < xr \<longrightarrow> all_positive (V k)" "xr < maxx \<longrightarrow> \<not> all_positive (V xr)"
    using scan_find [of xl "nat (maxx - xl)" d V False] st xl(2,3) by auto
  have r: "small_row minx maxx d (V minx) = (xl, xr)" by (simp add: small_row_def xl(1) xr(1))
  show "minx \<le> fst (small_row minx maxx d (V minx))" "snd (small_row minx maxx d (V minx)) \<le> maxx" using xl xr by (simp_all add: r)
  show "fst (small_row minx maxx d (V minx)) \<le> x \<and> x < snd (small_row minx maxx d (V minx)) \<longleftrightarrow> all_positive (V x)"
    if x: "minx \<le> x" "x < maxx"
  proof -
    have "all_positive (V x) \<Longrightarrow> x < xl \<Longrightarrow> False" using xl(4) x by auto
    moreover have "all_positive (V x) \<Longrightarrow> xr \<le> x \<Longrightarrow> xl \<le> x \<Longrightarrow> False"
      using conv [of xl x xr] xl(5) xr(2,5) x by (cases "xl < xr") (auto simp: order.order_iff_strict)
    ultimately show ?thesis using xr(4) unfolding r fst_conv snd_conv by fastforce
  qed
qed

text \<open>The values the loops carry, over the integers, at the centre of a pixel.\<close>

definition ideal_value :: "point \<Rightarrow> point \<Rightarrow> int \<Rightarrow> int \<Rightarrow> int" where
  "ideal_value p q x y = edge_value p q (16 * x + 8) (16 * y + 8) + (if owns_points p q then 1 else 0)"

definition ideal_values :: "point \<Rightarrow> point \<Rightarrow> point \<Rightarrow> int \<Rightarrow> int \<Rightarrow> edge_values" where
  "ideal_values p q r y x = (ideal_value p q x y, ideal_value q r x y, ideal_value r p x y)"

lemma ideal_value_inside: "ideal_value p q x y > 0 \<longleftrightarrow> edge_inside p q (16 * x + 8) (16 * y + 8)"
  by (auto simp: ideal_value_def edge_inside_def)

lemma ideal_values_inside: "all_positive (ideal_values p q r y x) \<longleftrightarrow> inside3 p q r (16 * x + 8) (16 * y + 8)"
  by (simp add: ideal_values_def all_positive_def ideal_value_inside inside3_def)

lemma ideal_value_linear: "ideal_value p q k y = ideal_value p q a y + (snd q - snd p) * 16 * (k - a)"
  by (simp add: ideal_value_def edge_value_def algebra_simps)

lemma ideal_value_row: "ideal_value p q x (y + 1) = ideal_value p q x y + (fst p - fst q) * 16"
  by (simp add: ideal_value_def edge_value_def algebra_simps)

lemma ideal_value_convex:
  assumes "ideal_value p q a y > 0" "ideal_value p q b y > 0" "a \<le> k" "k \<le> b"
  shows "ideal_value p q k y > 0"
proof (cases "snd p \<le> snd q")
  case True
  then have "0 \<le> (snd q - snd p) * 16 * (k - a)" using assms(3) by simp
  then show ?thesis using assms(1) ideal_value_linear [of p q k y a] by simp
next
  case False
  then have "0 \<le> (snd q - snd p) * 16 * (k - b)" using assms(4) by (simp add: mult_nonpos_nonpos)
  then show ?thesis using assms(2) ideal_value_linear [of p q k y b] by simp
qed

lemma ideal_values_convex:
  "all_positive (ideal_values p q r y a) \<Longrightarrow> all_positive (ideal_values p q r y b) \<Longrightarrow> a \<le> k \<Longrightarrow> k \<le> b \<Longrightarrow>
   all_positive (ideal_values p q r y k)"
  by (auto simp: ideal_values_def all_positive_def intro: ideal_value_convex)


subsection \<open>No overflow on small triangles\<close>

text \<open>The range of vertices for which the 32-bit products of \<^verbatim>\<open>trianglex_small\<close> do not overflow: 1000
  pixels around the origin.\<close>

definition small_vertex :: "point \<Rightarrow> bool" where
  "small_vertex v \<longleftrightarrow> - 16000 \<le> fst v \<and> fst v \<le> 16000 \<and> - 16000 \<le> snd v \<and> snd v \<le> 16000"

lemma small_diff:
  assumes "small_vertex p" "small_vertex q"
  shows "\<bar>fst p - fst q\<bar> \<le> 32000" "\<bar>snd p - snd q\<bar> \<le> 32000"
  using assms unfolding small_vertex_def by linarith+

lemma s32_abs: "\<bar>x\<bar> \<le> 2147483647 \<Longrightarrow> s32 x = x"
  by (rule s32_id') auto

lemma s32_small_diff:
  assumes "small_vertex p" "small_vertex q"
  shows "s32 (fst p - fst q) = fst p - fst q" "s32 (snd p - snd q) = snd p - snd q"
    "s32 ((fst p - fst q) * 16) = (fst p - fst q) * 16" "s32 ((snd p - snd q) * 16) = (snd p - snd q) * 16"
  using small_diff [OF assms] by (auto intro!: s32_abs)

lemma abs_mult_bound: "\<bar>a\<bar> \<le> A \<Longrightarrow> \<bar>b\<bar> \<le> B \<Longrightarrow> \<bar>a * b\<bar> \<le> A * (B :: int)"
  unfolding abs_mult by (rule mult_mono) auto

lemma edge_products:
  assumes "small_vertex p" "small_vertex q" "\<bar>X\<bar> \<le> 16040" "\<bar>Y\<bar> \<le> 16040"
  shows "\<bar>(snd p - snd q) * (fst p - X)\<bar> \<le> 32000 * 32040" "\<bar>(fst p - fst q) * (snd p - Y)\<bar> \<le> 32000 * 32040"
proof -
  have "\<bar>fst p - X\<bar> \<le> 32040" "\<bar>snd p - Y\<bar> \<le> 32040" using assms unfolding small_vertex_def by linarith+
  then show "\<bar>(snd p - snd q) * (fst p - X)\<bar> \<le> 32000 * 32040" "\<bar>(fst p - fst q) * (snd p - Y)\<bar> \<le> 32000 * 32040"
    by (auto simp only: intro!: abs_mult_bound small_diff assms)
qed

lemma ideal_value_bound:
  assumes "small_vertex p" "small_vertex q" "\<bar>x\<bar> \<le> 1002" "\<bar>y\<bar> \<le> 1002"
  shows "\<bar>ideal_value p q x y\<bar> \<le> 2050560001"
proof -
  have "\<bar>16 * x + 8\<bar> \<le> 16040" "\<bar>16 * y + 8\<bar> \<le> 16040" using assms(3,4) by auto
  from edge_products [OF assms(1,2) this] show ?thesis unfolding ideal_value_def edge_value_def by (simp split: if_split, linarith)
qed

lemma small_edge_fields:
  assumes "small_vertex p" "small_vertex q"
  shows "ee_dx (small_edge p q) = fst p - fst q" "ee_dy (small_edge p q) = snd p - snd q"
    "ee_x (small_edge p q) = fst p" "ee_y (small_edge p q) = snd p"
  by (simp_all add: small_edge_def s32_small_diff [OF assms])

lemma edge_start_ideal:
  assumes v: "small_vertex p" "small_vertex q" and "\<bar>x\<bar> \<le> 1002" "\<bar>y\<bar> \<le> 1002"
  shows "edge_start (small_edge p q) (16 * x + 8) (16 * y + 8) = ideal_value p q x y"
proof -
  let ?X = "16 * x + 8" and ?Y = "16 * y + 8"
  have xy: "\<bar>?X\<bar> \<le> 16040" "\<bar>?Y\<bar> \<le> 16040" using assms(3,4) by auto
  have d: "s32 (fst p - ?X) = fst p - ?X" "s32 (snd p - ?Y) = snd p - ?Y"
    using v xy unfolding small_vertex_def by (auto intro!: s32_abs)
  note e = edge_products [OF v xy]
  have m: "s32 ((snd p - snd q) * (fst p - ?X)) = (snd p - snd q) * (fst p - ?X)"
    "s32 ((fst p - fst q) * (snd p - ?Y)) = (fst p - fst q) * (snd p - ?Y)"
    by (rule s32_id'; use e in simp)+
  have "\<bar>(snd p - snd q) * (fst p - ?X) - (fst p - fst q) * (snd p - ?Y)\<bar> \<le> 2050560000" using e by simp
  then have "s32 ((snd p - snd q) * (fst p - ?X) - (fst p - fst q) * (snd p - ?Y)) = edge_value p q ?X ?Y"
    "s32 (edge_value p q ?X ?Y + 1) = edge_value p q ?X ?Y + 1"
    by (simp_all add: edge_value_def s32_id')
  then show ?thesis unfolding edge_start_def small_edge_fields [OF v] d m Let_def ideal_value_def owns_points_def by auto
qed

lemma step_values_ideal:
  assumes "small_vertex p" "small_vertex q" "small_vertex r" "\<bar>x\<bar> \<le> 1001" "\<bar>y\<bar> \<le> 1001"
  shows "step_values (snd q - snd p, snd r - snd q, snd p - snd r) (ideal_values p q r y x) = ideal_values p q r y (x + 1)"
    "step_values (fst p - fst q, fst q - fst r, fst r - fst p) (ideal_values p q r y x) = ideal_values p q r (y + 1) x"
proof -
  have *: "s32 (ideal_value p q x y + s32 ((snd q - snd p) * 16)) = ideal_value p q (x + 1) y"
    "s32 (ideal_value p q x y + s32 ((fst p - fst q) * 16)) = ideal_value p q x (y + 1)"
    if v: "small_vertex p" "small_vertex q" for p q
  proof -
    note s32_small_diff(3) [OF v] s32_small_diff(4) [OF v(2,1)]
    moreover have "\<bar>ideal_value p q (x + 1) y\<bar> \<le> 2050560001" "\<bar>ideal_value p q x (y + 1)\<bar> \<le> 2050560001"
      using ideal_value_bound [OF v] assms(4,5) by auto
    ultimately show "s32 (ideal_value p q x y + s32 ((snd q - snd p) * 16)) = ideal_value p q (x + 1) y"
      "s32 (ideal_value p q x y + s32 ((fst p - fst q) * 16)) = ideal_value p q x (y + 1)"
      using ideal_value_linear [of p q "x + 1" y x] ideal_value_row [of p q x y] by (simp_all add: s32_abs)
  qed
  show "step_values (snd q - snd p, snd r - snd q, snd p - snd r) (ideal_values p q r y x) = ideal_values p q r y (x + 1)"
    "step_values (fst p - fst q, fst q - fst r, fst r - fst p) (ideal_values p q r y x) = ideal_values p q r (y + 1) x"
    by (simp_all only: step_values_def ideal_values_def prod.case * [OF assms(1,2)] * [OF assms(2,3)] * [OF assms(3,1)])
qed

lemma small_ccw_ideal:
  assumes "small_vertex p" "small_vertex q" "small_vertex r"
  shows "small_ccw p q r = ccw p q r"
proof -
  note d = s32_small_diff(1,2) [OF assms(1,2)] s32_small_diff(1,2) [OF assms(3,1)]
  have "\<bar>(fst p - fst q) * (snd r - snd p)\<bar> \<le> 32000 * 32000" "\<bar>(snd p - snd q) * (fst r - fst p)\<bar> \<le> 32000 * 32000"
    by (auto simp only: intro!: abs_mult_bound small_diff assms)
  then have "s32 ((fst p - fst q) * (snd r - snd p)) = (fst p - fst q) * (snd r - snd p)"
    "s32 ((snd p - snd q) * (fst r - fst p)) = (snd p - snd q) * (fst r - fst p)" by (simp_all add: s32_id')
  then show ?thesis by (simp add: small_ccw_def ccw_def area2_def d case_prod_beta)
qed


subsection \<open>Small triangles draw their inside\<close>

lemma small_rows_draw:
  assumes v: "small_vertex p" "small_vertex q" "small_vertex r" and "\<bar>minx\<bar> \<le> 1001"
  shows "\<bar>y\<bar> \<le> 1001 \<Longrightarrow> \<bar>y + int n\<bar> \<le> 1002 \<Longrightarrow>
    small_rows minx maxx n d (fst p - fst q, fst q - fst r, fst r - fst p) (ideal_values p q r y minx) c =
    draw_rows (map (\<lambda>k. small_row minx maxx d (ideal_values p q r (y + int k) minx)) [0..<n]) c"
proof (induction n arbitrary: y c)
  case 0
  then show ?case by simp
next
  case (Suc n)
  have st: "step_values (fst p - fst q, fst q - fst r, fst r - fst p) (ideal_values p q r y minx) = ideal_values p q r (y + 1) minx"
    by (rule step_values_ideal [OF v]) (use assms(4) Suc.prems in auto)
  have m: "map (\<lambda>k. small_row minx maxx d (ideal_values p q r (y + int k) minx)) [0..<Suc n] =
    small_row minx maxx d (ideal_values p q r y minx) # map (\<lambda>k. small_row minx maxx d (ideal_values p q r (y + 1 + int k) minx)) [0..<n]"
    by (subst upt_conv_Cons) (auto simp: map_Suc_upt [symmetric] add.assoc simp del: upt_Suc)
  have ih: "small_rows minx maxx n d (fst p - fst q, fst q - fst r, fst r - fst p) (ideal_values p q r (y + 1) minx) c' =
    draw_rows (map (\<lambda>k. small_row minx maxx d (ideal_values p q r (y + 1 + int k) minx)) [0..<n]) c'" if "n > 0" for c'
    by (rule Suc.IH) (use Suc.prems that in auto)
  have ih': "small_rows minx maxx n d (fst p - fst q, fst q - fst r, fst r - fst p) (ideal_values p q r (y + 1) minx) =
    draw_rows (map (\<lambda>k. small_row minx maxx d (ideal_values p q r (y + 1 + int k) minx)) [0..<n])"
    using ih by (cases "n = 0") auto
  show ?case unfolding m small_rows.simps st ih'
    by (cases "small_row minx maxx d (ideal_values p q r y minx)") (simp add: Let_def)
qed

lemma tri_box:
  assumes "- 16000 \<le> m" "m \<le> 16000"
  shows "TRI_FLOOR m div 16 = m div 16" "TRI_CEIL m div 16 = (m + 15) div 16"
proof -
  have f: "TRI_FLOOR x div 16 = x div 16" for x by (simp add: TRI_FLOOR_def minus_mod_eq_mult_div)
  show "TRI_FLOOR m div 16 = m div 16" by (rule f)
  have "s32 (m + 15) = m + 15" using assms by (simp add: s32_id')
  then show "TRI_CEIL m div 16 = (m + 15) div 16" by (simp add: TRI_CEIL_def f)
qed

lemma centre_bounds:
  fixes m x :: int
  shows "m \<le> 16 * x + 8 \<Longrightarrow> m div 16 \<le> x" "16 * x + 8 \<le> m \<Longrightarrow> x < (m + 15) div 16"
  by linarith+

lemma inside3_pixel_box:
  assumes "inside3 p q r (16 * x + 8) (16 * y + 8)" "0 \<le> area2 p q r"
  shows "min (fst p) (min (fst q) (fst r)) div 16 \<le> x" "x < (max (fst p) (max (fst q) (fst r)) + 15) div 16"
    "min (snd p) (min (snd q) (snd r)) div 16 \<le> y" "y < (max (snd p) (max (snd q) (snd r)) + 15) div 16"
  using inside3_box [OF assms] by (simp_all only: centre_bounds)

text \<open>The rows of a small triangle whose box is not empty.\<close>

lemma small_triangle_rows:
  assumes v: "small_vertex p" "small_vertex q" "small_vertex r" and area: "0 \<le> area2 p q r"
    and box: "\<bar>minx\<bar> \<le> 1000" "minx < maxx" "maxx \<le> 1001" "\<bar>miny\<bar> \<le> 1000" "miny < maxy" "maxy \<le> 1001"
    and ss: "ss = map (\<lambda>k. small_row minx maxx (snd q - snd p, snd r - snd q, snd p - snd r) (ideal_values p q r (miny + int k) minx)) [0..<nat (maxy - miny)]"
    and xy: "minx \<le> x" "x < maxx" "miny \<le> y" "y < maxy"
  shows "inside3 p q r (16 * x + 8) (16 * y + 8) \<longleftrightarrow> fst (ss ! nat (y - miny)) \<le> x \<and> x < snd (ss ! nat (y - miny))"
proof -
  have e: "ss ! nat (y - miny) = small_row minx maxx (snd q - snd p, snd r - snd q, snd p - snd r) (ideal_values p q r y minx)"
    using xy by (simp add: ss)
  have st: "step_values (snd q - snd p, snd r - snd q, snd p - snd r) (ideal_values p q r y k) = ideal_values p q r y (k + 1)"
    if "minx \<le> k" "k < maxx" for k
    by (rule step_values_ideal [OF v]) (use that box xy in auto)
  show ?thesis unfolding e
    using row_exact(1) [of minx maxx _ "ideal_values p q r y" x, OF st ideal_values_convex] xy by (simp add: ideal_values_inside)
qed

lemma small_spans_in:
  assumes v: "small_vertex p" "small_vertex q" "small_vertex r"
    and box: "\<bar>minx\<bar> \<le> 1000" "minx < maxx" "maxx \<le> 1001" "\<bar>miny\<bar> \<le> 1000" "miny < maxy" "maxy \<le> 1001"
    and ss: "ss = map (\<lambda>k. small_row minx maxx (snd q - snd p, snd r - snd q, snd p - snd r) (ideal_values p q r (miny + int k) minx)) [0..<nat (maxy - miny)]"
    and xy: "miny \<le> y" "y < maxy"
  shows "minx \<le> fst (ss ! nat (y - miny))" "snd (ss ! nat (y - miny)) \<le> maxx"
proof -
  have e: "ss ! nat (y - miny) = small_row minx maxx (snd q - snd p, snd r - snd q, snd p - snd r) (ideal_values p q r y minx)"
    using xy by (simp add: ss)
  have st: "step_values (snd q - snd p, snd r - snd q, snd p - snd r) (ideal_values p q r y k) = ideal_values p q r y (k + 1)"
    if "minx \<le> k" "k < maxx" for k
    by (rule step_values_ideal [OF v]) (use that box xy in auto)
  show "minx \<le> fst (ss ! nat (y - miny))" "snd (ss ! nat (y - miny)) \<le> maxx" unfolding e
    using row_exact(2,3) [of minx maxx _ "ideal_values p q r y", OF st ideal_values_convex] box(2) by simp_all
qed

text \<open>The code of \<^const>\<open>trianglex_small\<close> with the 32-bit differences replaced by exact ones.\<close>

lemma small_code:
  assumes v: "small_vertex v0" "small_vertex v1" "small_vertex v2" and pq: "ccw v0 v1 v2 = (p, q)"
  shows "trianglex_small c v0 v1 v2 =
     (let minx = max (TRI_FLOOR (min (fst p) (min (fst q) (fst v2))) div 16) (clip_left c);
          miny = max (TRI_FLOOR (min (snd p) (min (snd q) (snd v2))) div 16) (clip_top c);
          maxx = min (TRI_CEIL (max (fst p) (max (fst q) (fst v2))) div 16) (clip_right c);
          maxy = min (TRI_CEIL (max (snd p) (max (snd q) (snd v2))) div 16) (clip_bottom c) in
      if minx \<ge> maxx \<or> miny \<ge> maxy then Some c
      else
        let my = s32 (s32 (miny * 16) + 8); mx = s32 (s32 (minx * 16) + 8) in
        Option.bind (call_init_y c miny)
          (small_rows minx maxx (nat (maxy - miny)) (snd q - snd p, snd v2 - snd q, snd p - snd v2) (fst p - fst q, fst q - fst v2, fst v2 - fst p)
             (edge_start (small_edge p q) mx my, edge_start (small_edge q v2) mx my, edge_start (small_edge v2 p) mx my)))"
proof -
  have sv: "small_vertex p" "small_vertex q" using pq v by (auto simp: ccw_def split: if_splits)
  show ?thesis unfolding trianglex_small_def small_ccw_ideal [OF v] pq Let_def prod.case
    small_edge_fields [OF sv] small_edge_fields [OF sv(2) v(3)] small_edge_fields [OF v(3) sv(1)] minus_diff_eq
    by (rule refl)
qed

lemma small_box_draw:
  assumes v: "small_vertex p" "small_vertex q" "small_vertex r"
    and box: "\<bar>minx\<bar> \<le> 1000" "minx < maxx" "maxx \<le> 1001" "\<bar>miny\<bar> \<le> 1000" "miny < maxy" "maxy \<le> 1001"
  shows "(let my = s32 (s32 (miny * 16) + 8); mx = s32 (s32 (minx * 16) + 8) in
        Option.bind (call_init_y c miny)
          (small_rows minx maxx (nat (maxy - miny)) d (fst p - fst q, fst q - fst r, fst r - fst p)
             (edge_start (small_edge p q) mx my, edge_start (small_edge q r) mx my, edge_start (small_edge r p) mx my))) =
     Option.bind (call_init_y c miny)
       (draw_rows (map (\<lambda>k. small_row minx maxx d (ideal_values p q r (miny + int k) minx)) [0..<nat (maxy - miny)]))"
proof -
  have m: "s32 (s32 (miny * 16) + 8) = 16 * miny + 8" "s32 (s32 (minx * 16) + 8) = 16 * minx + 8"
    using box by (simp_all add: s32_cong_add s32_abs mult.commute)
  have es: "edge_start (small_edge a b) (16 * minx + 8) (16 * miny + 8) = ideal_value a b minx miny"
    if "small_vertex a" "small_vertex b" for a b
    by (rule edge_start_ideal [OF that]) (use box in auto)
  have "small_rows minx maxx (nat (maxy - miny)) d (fst p - fst q, fst q - fst r, fst r - fst p) (ideal_values p q r miny minx) =
    draw_rows (map (\<lambda>k. small_row minx maxx d (ideal_values p q r (miny + int k) minx)) [0..<nat (maxy - miny)])"
    by (rule ext, rule small_rows_draw [OF v]) (use box in auto)
  then show ?thesis unfolding m Let_def es [OF v(1,2)] es [OF v(2,3)] es [OF v(3,1)] ideal_values_def by simp
qed




text \<open>C29. The fill rule (\<^verbatim>\<open>right-exclusive fill rule, to avoid rare cases of over drawing\<close>) splits the
  pixels between the two sides of an edge. A pixel centre passes the edge test of the edge from \<open>a\<close> to \<open>b\<close>
  exactly when it fails the test of the same edge traversed from \<open>b\<close> to \<open>a\<close>, so that two triangles on opposite
  sides of a shared edge never draw the same pixel and none on the edge is lost.\<close>

theorem shared_edge_split:
  assumes "small_vertex a" "small_vertex b" "a \<noteq> b" "\<bar>x\<bar> \<le> 1002" "\<bar>y\<bar> \<le> 1002"
  shows "(edge_start (small_edge a b) (16 * x + 8) (16 * y + 8) > 0 \<longleftrightarrow> \<not> edge_start (small_edge b a) (16 * x + 8) (16 * y + 8) > 0) \<and>
    (\<forall>p q. area2 a b p \<ge> 0 \<and> area2 a b q < 0 \<longrightarrow> \<not> (pixel_inside a b p x y \<and> pixel_inside a b q x y))"
proof -
  note ex = edge_inside_exclusive [OF assms(3), of "16 * x + 8" "16 * y + 8"]
  show ?thesis using ex
    by (simp add: edge_start_ideal assms ideal_value_inside) (auto simp: pixel_inside_def ccw_def inside3_def)
qed

theorem shared_edge_split_witness:
  "edge_start (small_edge (0, 0) (64, 64)) 24 24 > 0 \<longleftrightarrow> \<not> edge_start (small_edge (64, 64) (0, 0)) 24 24 > 0"
  using shared_edge_split [of "(0, 0)" "(64, 64)" 1 1] by (simp add: small_vertex_def)

end
