(* ===== verification/GGLTarget.thy ===== *)
theory GGLTarget
  imports GGLTriangle
begin

text \<open>
  What the pixel pipelines write. Every function that \<^verbatim>\<open>c->scanline\<close> or \<^verbatim>\<open>c->span\<close> can point to,
  the perspective drivers included, changes only bytes of the span it is called for; the steppers and the
  initialisers of a row change no memory. These are the laws of the interface between the rasterizers and
  the pipelines (\<open>row_drawer\<close>), from which the memory safety of the primitives follows.
\<close>

subsection \<open>The target of drawing\<close>

text \<open>The part of the context that decides where pixels go and that drawing does not change.\<close>

definition target :: "context_t \<Rightarrow> (framebuffer_t \<times> scissor_t \<times> u32 \<times> mask_state_t) \<times> scanline_proc \<times> scanline_proc" where
  "target c = ((buffers (state c), scissor (state c), enables (state c), mask_state (state c)), scanline_ptr c, span_ptr c)"

abbreviation color_surface :: "context_t \<Rightarrow> surface_t" where "color_surface c \<equiv> fb_color (buffers (state c))"
abbreviation row_of :: "context_t \<Rightarrow> int" where "row_of c \<equiv> it_y (iterators c)"

definition cb_index :: "context_t \<Rightarrow> int \<Rightarrow> int \<Rightarrow> int" where
  "cb_index c x y = sf_data (color_surface c) + (x + sf_stride (color_surface c) * y) * int (cb_size c)"

definition pixel_bytes :: "context_t \<Rightarrow> int \<Rightarrow> int \<Rightarrow> int set" where
  "pixel_bytes c x y = {cb_index c x y ..< cb_index c x y + int (cb_size c)} \<union> depth_bytes c (word_of_int x) (word_of_int y)"

definition row_bytes :: "context_t \<Rightarrow> int \<Rightarrow> int \<Rightarrow> int \<Rightarrow> int set" where
  "row_bytes c y xl xr = (\<Union>x \<in> {xl ..< xr}. pixel_bytes c x y)"

text \<open>A colour buffer that the application describes truthfully, whose size fits an \<^verbatim>\<open>int\<close>.\<close>

definition cb_ok :: "context_t \<Rightarrow> bool" where
  "cb_ok c \<longleftrightarrow> (let s = color_surface c; w = uint (sf_width s); h = uint (sf_height s) in
     cb_size c \<in> {1, 2, 3, 4} \<and> w \<le> sf_stride s \<and> sf_stride s * h * int (cb_size c) < 2147483648 \<and> w < 2147483648 \<and> h < 2147483648)"

definition in_cb :: "context_t \<Rightarrow> int \<Rightarrow> int \<Rightarrow> int \<Rightarrow> bool" where
  "in_cb c y xl xr \<longleftrightarrow> 0 \<le> xl \<and> xl \<le> xr \<and> xr \<le> uint (sf_width (color_surface c)) \<and> 0 \<le> y \<and> y < uint (sf_height (color_surface c))"

text \<open>The effect of drawing: the target and the row are kept, and memory changes only in a set of bytes.\<close>

definition draws_in :: "int set \<Rightarrow> context_t \<Rightarrow> context_t \<Rightarrow> bool" where
  "draws_in A c c' \<longleftrightarrow> target c' = target c \<and> row_of c' = row_of c \<and> (\<forall>b. b \<notin> A \<longrightarrow> memory c' b = memory c b)"

lemma target_fields:
  assumes "target c' = target c"
  shows "buffers (state c') = buffers (state c)" "scissor (state c') = scissor (state c)" "enables (state c') = enables (state c)"
    "mask_state (state c') = mask_state (state c)" "scanline_ptr c' = scanline_ptr c" "span_ptr c' = span_ptr c"
  using assms by (simp_all add: target_def)

lemma target_bytes:
  assumes "target c' = target c"
  shows "cb_size c' = cb_size c" "pixel_bytes c' = pixel_bytes c" "row_bytes c' = row_bytes c" "cb_ok c' = cb_ok c" "in_cb c' = in_cb c"
proof -
  note t = target_fields [OF assms]
  show s: "cb_size c' = cb_size c" by (simp add: cb_size_def t)
  have "depth_bytes c' = depth_bytes c" by (simp add: depth_bytes_def t fun_eq_iff)
  then show p: "pixel_bytes c' = pixel_bytes c" by (simp add: pixel_bytes_def cb_index_def t s fun_eq_iff)
  show "row_bytes c' = row_bytes c" by (simp add: row_bytes_def p fun_eq_iff)
  show "cb_ok c' = cb_ok c" "in_cb c' = in_cb c" by (simp_all add: cb_ok_def in_cb_def t s fun_eq_iff)
qed

lemma draws_in_refl [simp]: "draws_in A c c"
  by (simp add: draws_in_def)

lemma draws_in_trans: "draws_in A c c' \<Longrightarrow> draws_in B c' c'' \<Longrightarrow> draws_in (A \<union> B) c c''"
  by (simp add: draws_in_def)

lemma draws_in_mono: "draws_in A c c' \<Longrightarrow> A \<subseteq> B \<Longrightarrow> draws_in B c c'"
  by (auto simp: draws_in_def)

lemma writes_draws: "writes_only A c c' \<Longrightarrow> draws_in A c c'"
proof -
  assume w: "writes_only A c c'"
  then obtain m where c': "c' = c\<lparr>memory := m\<rparr>" unfolding writes_only_def by blast
  have "\<forall>b. b \<notin> A \<longrightarrow> memory c' b = memory c b" using w by (simp add: writes_only_def)
  then show ?thesis by (simp add: draws_in_def target_def c')
qed

lemma row_bytes_mono: "xl \<le> xl' \<Longrightarrow> xr' \<le> xr \<Longrightarrow> row_bytes c y xl' xr' \<subseteq> row_bytes c y xl xr"
  by (fastforce simp: row_bytes_def)

text \<open>A contiguous range of the colour buffer.\<close>

lemma range_row_bytes:
  assumes "0 < cb_size c"
  shows "{cb_index c xl y ..< cb_index c xr y} \<subseteq> row_bytes c y xl xr"
proof
  fix b assume b: "b \<in> {cb_index c xl y ..< cb_index c xr y}"
  define k where "k = (b - cb_index c xl y) div int (cb_size c)"
  have sz: "0 < int (cb_size c)" using assms by simp
  have nn: "0 \<le> b - cb_index c xl y" using b by simp
  have k0: "0 \<le> k" using nn sz by (simp add: k_def pos_imp_zdiv_nonneg_iff)
  have ix: "cb_index c (xl + j) y = cb_index c xl y + j * int (cb_size c)" for j by (simp add: cb_index_def algebra_simps)
  have lt: "b - cb_index c xl y < (xr - xl) * int (cb_size c)" using b ix [of "xr - xl"] by simp
  have m: "k * int (cb_size c) \<le> b - cb_index c xl y" "b - cb_index c xl y < k * int (cb_size c) + int (cb_size c)"
    using sz pos_mod_bound [of "int (cb_size c)" "b - cb_index c xl y"] pos_mod_sign [of "int (cb_size c)" "b - cb_index c xl y"] div_mult_mod_eq [of "b - cb_index c xl y" "int (cb_size c)"]
    unfolding k_def by linarith+
  have "k * int (cb_size c) < (xr - xl) * int (cb_size c)" using m(1) lt by simp
  then have "k < xr - xl" using sz by (simp add: mult_less_cancel_right)
  moreover have "b \<in> {cb_index c (xl + k) y ..< cb_index c (xl + k) y + int (cb_size c)}" using m by (simp add: ix)
  ultimately show "b \<in> row_bytes c y xl xr" using k0 by (auto simp: row_bytes_def pixel_bytes_def intro!: bexI [of _ "xl + k"])
qed

text \<open>Inside the buffer the index arithmetic of the pipelines does not wrap.\<close>

lemma cb_index_range:
  assumes ok: "cb_ok c" and x: "0 \<le> x" "x \<le> uint (sf_width (color_surface c))" and y: "0 \<le> y" "y < uint (sf_height (color_surface c))"
  shows "0 \<le> x + sf_stride (color_surface c) * y" "(x + sf_stride (color_surface c) * y) * int (cb_size c) < 2147483648"
    "x + sf_stride (color_surface c) * y < 2147483648"
proof -
  let ?s = "color_surface c"
  have st: "0 \<le> sf_stride ?s" "x \<le> sf_stride ?s" "1 \<le> cb_size c" using ok x by (auto simp: cb_ok_def Let_def)
  show nn: "0 \<le> x + sf_stride ?s * y" using x y st by simp
  have "x + sf_stride ?s * y \<le> sf_stride ?s * (y + 1)" using st by (simp add: distrib_left)
  also have "\<dots> \<le> sf_stride ?s * uint (sf_height ?s)" using y st by (intro mult_left_mono) auto
  finally have "(x + sf_stride ?s * y) * int (cb_size c) \<le> sf_stride ?s * uint (sf_height ?s) * int (cb_size c)"
    by (rule mult_right_mono) simp
  also have "\<dots> < 2147483648" using ok by (simp add: cb_ok_def Let_def)
  finally show l: "(x + sf_stride ?s * y) * int (cb_size c) < 2147483648" .
  have "(x + sf_stride ?s * y) * 1 \<le> (x + sf_stride ?s * y) * int (cb_size c)" by (rule mult_left_mono) (use st nn in auto)
  then show "x + sf_stride ?s * y < 2147483648" using l by simp
qed


subsection \<open>Spans\<close>

text \<open>The span a pipeline is called for.\<close>

abbreviation span_row_bytes :: "context_t \<Rightarrow> int set" where
  "span_row_bytes c \<equiv> row_bytes c (row_of c) (it_xl (iterators c)) (it_xr (iterators c))"

definition span_in_cb :: "context_t \<Rightarrow> bool" where
  "span_in_cb c \<longleftrightarrow> cb_ok c \<and> in_cb c (row_of c) (it_xl (iterators c)) (it_xr (iterators c))"

lemma span_counts:
  assumes "span_in_cb c"
  shows "s32 (it_xr (iterators c) - it_xl (iterators c)) = it_xr (iterators c) - it_xl (iterators c)"
    "int (span_ct c) = it_xr (iterators c) - it_xl (iterators c)" "dst_count c = it_xr (iterators c) - it_xl (iterators c)"
    "0 < cb_size c"
proof -
  have b: "0 \<le> it_xl (iterators c)" "it_xl (iterators c) \<le> it_xr (iterators c)" "it_xr (iterators c) < 2147483648"
    using assms by (auto simp: span_in_cb_def in_cb_def cb_ok_def Let_def)
  show s: "s32 (it_xr (iterators c) - it_xl (iterators c)) = it_xr (iterators c) - it_xl (iterators c)"
    using b by (intro s32_id') linarith+
  show "int (span_ct c) = it_xr (iterators c) - it_xl (iterators c)" "dst_count c = it_xr (iterators c) - it_xl (iterators c)"
    using b by (simp_all add: span_ct_def dst_count_def s)
  show "0 < cb_size c" using assms by (auto simp: span_in_cb_def cb_ok_def Let_def)
qed

lemma span_addresses:
  assumes "span_in_cb c"
  shows "cb_address c (cb_size c) = cb_index c (it_xl (iterators c)) (row_of c)"
    "cb_byte_address c (cb_size c) = cb_index c (it_xl (iterators c)) (row_of c)"
    "cb_index c (it_xr (iterators c)) (row_of c) =
       cb_index c (it_xl (iterators c)) (row_of c) + (it_xr (iterators c) - it_xl (iterators c)) * int (cb_size c)"
    "cb_size c = 2 \<Longrightarrow> dst_address16 c = cb_index c (it_xl (iterators c)) (row_of c)"
proof -
  let ?x = "it_xl (iterators c)" and ?i = "it_xl (iterators c) + sf_stride (color_surface c) * row_of c"
  have r: "0 \<le> ?i" "?i * int (cb_size c) < 2147483648" "?i < 2147483648"
    using cb_index_range [of c ?x "row_of c"] assms by (auto simp: span_in_cb_def in_cb_def)
  have i: "s32 ?i = ?i" using r by (intro s32_id') linarith+
  have j: "s32 (?i * int (cb_size c)) = ?i * int (cb_size c)" using r(2) mult_nonneg_nonneg [OF r(1), of "int (cb_size c)"]
    by (intro s32_id') linarith+
  show "cb_address c (cb_size c) = cb_index c ?x (row_of c)" "cb_byte_address c (cb_size c) = cb_index c ?x (row_of c)"
    by (simp_all add: cb_address_def cb_byte_address_def cb_index_def i j Let_def)
  show "cb_size c = 2 \<Longrightarrow> dst_address16 c = cb_index c ?x (row_of c)" by (simp add: dst_address16_def cb_index_def i Let_def)
  show "cb_index c (it_xr (iterators c)) (row_of c) = cb_index c ?x (row_of c) + (it_xr (iterators c) - ?x) * int (cb_size c)"
    by (simp add: cb_index_def algebra_simps)
qed

text \<open>A write of the whole span, in bytes.\<close>

lemma span_range_draws:
  assumes "span_in_cb c"
    and "writes_only {cb_index c (it_xl (iterators c)) (row_of c) ..<
      cb_index c (it_xl (iterators c)) (row_of c) + (it_xr (iterators c) - it_xl (iterators c)) * int (cb_size c)} c c'"
  shows "draws_in (span_row_bytes c) c c'"
  using writes_draws [OF assms(2)] range_row_bytes [OF span_counts(4) [OF assms(1)], of "it_xl (iterators c)" "row_of c" "it_xr (iterators c)"]
  unfolding span_addresses(3) [OF assms(1)] by (rule draws_in_mono)

lemma fill_span:
  assumes "span_in_cb c" "sz \<in> {1, 2, 4}" "n * sz = span_ct c * cb_size c" "a = cb_index c (it_xl (iterators c)) (row_of c)"
  shows "draws_in (span_row_bytes c) c (c\<lparr>memory := fill (memory c) a sz v n\<rparr>)"
proof (rule span_range_draws [OF assms(1)])
  have "int (n * sz) = (it_xr (iterators c) - it_xl (iterators c)) * int (cb_size c)"
    unfolding assms(3) of_nat_mult span_counts(2) [OF assms(1)] ..
  then show "writes_only {cb_index c (it_xl (iterators c)) (row_of c) ..<
      cb_index c (it_xl (iterators c)) (row_of c) + (it_xr (iterators c) - it_xl (iterators c)) * int (cb_size c)} c
      (c\<lparr>memory := fill (memory c) a sz v n\<rparr>)"
    by (auto simp: writes_only_def fill_at [OF assms(2)] assms(4))
qed

lemma span565_draws:
  assumes "span_in_cb c" "cb_size c = 2" "span565 c get it bl di = Some c'"
  shows "draws_in (span_row_bytes c) c c'"
  using span565_only [OF assms(3)] span_range_draws [OF assms(1)] span_counts(3) [OF assms(1)] span_addresses(4) [OF assms(1,2)] assms(2)
  by (simp add: mult.commute)

lemma memcpy_draws:
  assumes "span_in_cb c" "scanline_memcpy c = Some c'"
  shows "draws_in (span_row_bytes c) c c'"
proof (rule span_range_draws [OF assms(1)])
  have "int (span_ct c * cb_size c) = (it_xr (iterators c) - it_xl (iterators c)) * int (cb_size c)"
    by (simp add: span_counts(2) [OF assms(1)])
  then show "writes_only {cb_index c (it_xl (iterators c)) (row_of c) ..<
      cb_index c (it_xl (iterators c)) (row_of c) + (it_xr (iterators c) - it_xl (iterators c)) * int (cb_size c)} c c'"
    using assms(2) unfolding scanline_memcpy_def memcpy_def span_addresses(2) [OF assms(1)]
    by (auto simp: writes_only_def bind_eq_Some_conv split: if_splits)
qed

lemma color_bytes_pixel:
  assumes ok: "cb_ok c" and x: "0 \<le> x" "x \<le> uint (sf_width (color_surface c))" and y: "0 \<le> y" "y < uint (sf_height (color_surface c))"
  shows "color_bytes c (word_of_int x) (word_of_int y) \<subseteq> pixel_bytes c x y"
proof -
  have small: "uint (word_of_int j :: u32) = j" if "0 \<le> j" "j < 2147483648" for j
    using that by (intro uint_word_of_int_small) simp_all
  have "x < 2147483648" "y < 2147483648" using ok x y by (auto simp: cb_ok_def Let_def)
  then have u: "uint (word_of_int x :: u32) = x" "uint (word_of_int y :: u32) = y" using small x y by simp_all
  have "s32 (x + sf_stride (color_surface c) * y) = x + sf_stride (color_surface c) * y"
    using cb_index_range [OF ok x y] by (intro s32_id') linarith+
  then show ?thesis by (auto simp: color_bytes_def pixel_bytes_def pixel_address_def u cb_index_def cb_size_def Let_def)
qed

lemma scanline_draws:
  assumes "span_in_cb c" "scanline c = Some c'"
  shows "draws_in (span_row_bytes c) c c'"
proof -
  let ?xl = "it_xl (iterators c)" and ?xr = "it_xr (iterators c)"
  have w: "writes_only (span_bytes c (word_of_int ?xl) (nat (?xr - ?xl))) c c'"
    using assms(2) scanline_loop_only [of _ c "start_span c"]
    by (simp add: scanline_def Let_def start_span_def span_counts(1) [OF assms(1)] split: if_splits)
  have "span_bytes c (word_of_int ?xl) (nat (?xr - ?xl)) \<subseteq> span_row_bytes c"
  proof
    fix b assume "b \<in> span_bytes c (word_of_int ?xl) (nat (?xr - ?xl))"
    then obtain k where k: "k < nat (?xr - ?xl)"
      and b: "b \<in> color_bytes c (word_of_int (?xl + int k)) (word_of_int (row_of c)) \<union> depth_bytes c (word_of_int (?xl + int k)) (word_of_int (row_of c))"
      by (auto simp: span_bytes_def)
    have "color_bytes c (word_of_int (?xl + int k)) (word_of_int (row_of c)) \<subseteq> pixel_bytes c (?xl + int k) (row_of c)"
      by (rule color_bytes_pixel) (use assms(1) k in \<open>auto simp: span_in_cb_def in_cb_def\<close>)
    then show "b \<in> span_row_bytes c" using b k
      by (auto simp: row_bytes_def pixel_bytes_def intro!: bexI [of _ "?xl + int k"])
  qed
  then show ?thesis using draws_in_mono [OF writes_draws [OF w]] by blast
qed

lemma t32cb16_draws:
  assumes sp: "span_in_cb c" "cb_size c = 2" and s: "scanline_t32cb16 c = Some c'"
  shows "draws_in (span_row_bytes c) c c'"
proof (rule span_range_draws [OF sp(1)])
  have o: "t32cb16_one a s m b = m b" if "b < a \<or> a + 2 \<le> b" for a s m b
    using store_pixel_outside [of b a 2] that by (simp add: t32cb16_one_def)
  have ct: "0 \<le> it_xr (iterators c) - it_xl (iterators c)" using sp(1) by (simp add: span_in_cb_def in_cb_def)
  show "writes_only {cb_index c (it_xl (iterators c)) (row_of c) ..<
      cb_index c (it_xl (iterators c)) (row_of c) + (it_xr (iterators c) - it_xl (iterators c)) * int (cb_size c)} c c'"
    using s ct unfolding scanline_t32cb16_def Let_def span_counts(3) [OF sp(1)] span_addresses(4) [OF sp] sp(2)
    by (auto simp: writes_only_def o split: if_splits)
qed

lemma clamp_draws:
  assumes "span_in_cb c" "cb_size c = 2" "span565_clamp c sz sh bl di = Some c'"
  shows "draws_in (span_row_bytes c) c c'"
  using assms by (auto simp: span565_clamp_def intro: span565_draws split: if_splits)

lemma fits_size_565: "the_format 4 = mk_format 2 16 [(0, 0), (16, 11), (11, 5), (5, 0)] GGL_RGB"
  by (rule demo_565_simps)

lemmas span565_defs = scanline_t32cb16_dither_def scanline_t32cb16blend_dither_def scanline_t32cb16blend_clamp_dither_def
  scanline_t32cb16blend_clamp_mod_def scanline_t32cb16blend_clamp_mod_dither_def scanline_x32cb16blend_clamp_mod_def
  scanline_x32cb16blend_clamp_mod_dither_def scanline_t32cb16blend_def scanline_t32cb16blend_srca_def scanline_col32cb16blend_def Let_def

lemmas clamp565_defs = scanline_t32cb16_clamp_def scanline_t32cb16_clamp_dither_def scanline_t32cb16blend_clamp_def scanline_t16cb16_clamp_def

text \<open>Every pipeline draws only in its span, on a colour buffer of a format that it fits.\<close>

lemma run_span_draws:
  assumes sp: "span_in_cb c" and fit: "span_fits p (sf_format (color_surface c)) t" and r: "run_span p c = Some c'"
  shows "draws_in (span_row_bytes c) c c'"
proof -
  note d = span565_draws [OF sp] clamp_draws [OF sp] t32cb16_draws [OF sp]
  have two: "cb_size c = 2" if "sf_format (color_surface c) = 4"
    using that by (simp add: cb_size_def fits_size_565 mk_format_def)
  have ad: "cb_address c (cb_size c) = cb_index c (it_xl (iterators c)) (row_of c)" by (rule span_addresses(1) [OF sp])
  note fl = fill_span [OF sp _ _ refl]
  show ?thesis
  proof (cases p)
    case Scanline_t16cb16blend_clamp_mod
    then show ?thesis using fit r two d
      by (auto simp: run_span_def span_fits_def scanline_t16cb16blend_clamp_mod_def clamp565_defs Let_def split: if_splits)
  next
    case Scanline_memset8
    then show ?thesis using fit r ad fl [of 1 "span_ct c"]
      by (auto simp: run_span_def span_fits_def scanline_memset8_def memset8_def cb_size_def)
  next
    case Scanline_memset16
    then show ?thesis using fit r ad fl [of 2 "span_ct c"]
      by (auto simp: run_span_def span_fits_def scanline_memset16_def android_memset16_def cb_size_def)
  next
    case Scanline_memset32
    then show ?thesis using fit r ad fl [of 4 "span_ct c"]
      by (auto simp: run_span_def span_fits_def scanline_memset32_def android_memset32_def cb_size_def)
  next
    case Scanline_set
    then show ?thesis using r fl [of 1 "span_ct c * cb_size c"]
      by (auto simp: run_span_def scanline_set_def memset8_def span_addresses(2) [OF sp])
  next
    case Scanline_clear
    then show ?thesis using r fl [of 1 "span_ct c * cb_size c"]
      by (auto simp: run_span_def scanline_clear_def memset8_def span_addresses(2) [OF sp])
  next
    case Scanline
    then show ?thesis using r scanline_draws [OF sp] by (simp add: run_span_def)
  next
    case Scanline_memcpy
    then show ?thesis using r memcpy_draws [OF sp] by (simp add: run_span_def)
  next
    case Scanline_t32cb16
    then show ?thesis using r fit two d by (simp add: run_span_def span_fits_def)
  qed (use fit r two d in \<open>auto simp: run_span_def span_fits_def span565_defs clamp565_defs scanline_noop_def\<close>)
qed

subsection \<open>Perspective\<close>

text \<open>A change of the context that leaves the target, the iterators and memory alone.\<close>

definition quiet :: "context_t \<Rightarrow> context_t \<Rightarrow> bool" where
  "quiet c c' \<longleftrightarrow> target c' = target c \<and> iterators c' = iterators c \<and> memory c' = memory c"

lemma quiet_refl [simp]: "quiet c c" by (simp add: quiet_def)
lemma quiet_trans: "quiet c c' \<Longrightarrow> quiet c' c'' \<Longrightarrow> quiet c c''" by (simp add: quiet_def)

lemma quiet_upd:
  "quiet c (upd_tmu i f c)" "quiet c (c\<lparr>generated_tex := g\<rparr>)" "quiet c (c\<lparr>generated_vars := v\<rparr>)"
  "quiet c (c\<lparr>packed := p\<rparr>)" "quiet c (c\<lparr>packed8888 := p\<rparr>)" "quiet c (c\<lparr>step_y_ptr := s\<rparr>)" "quiet c (c\<lparr>rect_ptr := r\<rparr>)"
  by (simp_all add: quiet_def target_def upd_tmu_def upd_state_def)

lemma quiet_unit: "quiet c ((upd_tmu i f c)\<lparr>generated_tex := g\<rparr>)"
  by (rule quiet_trans [OF quiet_upd(1) quiet_upd(2)])

lemma persp_unit_quiet: "persp_unit_span q1 iwscale sp i (c, tc) = Some (c', tc') \<Longrightarrow> quiet c c'"
  by (auto simp: persp_unit_span_def bind_eq_Some_conv Let_def quiet_unit split: if_splits prod.splits)

text \<open>A span run after a quiet change.\<close>

lemma quiet_run:
  assumes q: "quiet c c1" and c2: "c2 = set_span xl xr c1" and ok: "cb_ok c" "in_cb c (row_of c) xl xr"
    and fit: "span_fits (span_ptr c) (sf_format (color_surface c)) t" and r: "run_span (span_ptr c2) c2 = Some c'"
  shows "draws_in (row_bytes c (row_of c) xl xr) c c'"
proof -
  have s: "target c2 = target c" "it_xl (iterators c2) = xl" "it_xr (iterators c2) = xr" "row_of c2 = row_of c" "memory c2 = memory c"
    using q by (simp_all add: c2 set_span_def upd_iterators_def quiet_def target_def)
  note t = target_fields [OF s(1)] target_bytes [OF s(1)]
  have "span_in_cb c2" using ok by (simp add: span_in_cb_def t s)
  moreover have "span_fits (span_ptr c2) (sf_format (color_surface c2)) t" using fit by (simp add: t)
  ultimately have "draws_in (row_bytes c (row_of c) xl xr) c2 c'" using run_span_draws [OF _ _ r] by (simp add: s t)
  then show ?thesis by (simp add: draws_in_def s)
qed

lemma in_cb_sub: "in_cb c y xl xr \<Longrightarrow> xl \<le> a \<Longrightarrow> a \<le> b \<Longrightarrow> b \<le> xr \<Longrightarrow> in_cb c y a b"
  by (simp add: in_cb_def)

lemma draws_in_row:
  assumes d: "draws_in (row_bytes c (row_of c) xl xm) c c1" and d2: "draws_in (row_bytes c1 (row_of c1) xm xr) c1 c'" and "xl \<le> xm" "xm \<le> xr"
  shows "draws_in (row_bytes c (row_of c) xl xr) c c'"
proof -
  have t: "target c1 = target c" "row_of c1 = row_of c" using d by (simp_all add: draws_in_def)
  have "draws_in (row_bytes c (row_of c) xl xm \<union> row_bytes c (row_of c) xm xr) c c'"
    using draws_in_trans [OF d d2] by (simp add: target_bytes [OF t(1)] t(2))
  then show ?thesis
    by (rule draws_in_mono) (use row_bytes_mono [of xl xl xm xr] row_bytes_mono [of xl xm xr xr] assms(3,4) in auto)
qed

lemma s32_column: "cb_ok c \<Longrightarrow> in_cb c y xl xr \<Longrightarrow> xl \<le> a \<Longrightarrow> a \<le> xr \<Longrightarrow> s32 a = a"
  by (rule s32_id') (auto simp: cb_ok_def in_cb_def Let_def)

lemma persp_spans_draws:
  assumes "persp_spans iwscale rest n w0 xl (c, tc) = Some c'" "cb_ok c" "0 \<le> rest" "rest < 32"
    "in_cb c (row_of c) xl (xl + 32 * int n + rest)" "span_fits (span_ptr c) (sf_format (color_surface c)) t"
  shows "draws_in (row_bytes c (row_of c) xl (xl + 32 * int n + rest)) c c'"
  using assms
proof (induction n arbitrary: w0 xl c tc)
  case (0 w0 xl c tc)
  show ?case
  proof (cases "rest = 0")
    case True
    then show ?thesis using 0(1) by (subst (asm) persp_spans.simps) (simp add: Let_def)
  next
    case False
    have xr: "s32 (xl + rest) = xl + rest" by (rule s32_column [OF 0(2,5)]) (use 0(3) in auto)
    obtain q1 p c1 tc1 where u: "persp_unit_span q1 iwscale rest 0 (c, tc) = Some p" "persp_unit_span q1 iwscale rest 1 p = Some (c1, tc1)"
      and r: "run_span (span_ptr (set_span xl (xl + rest) c1)) (set_span xl (xl + rest) c1) = Some c'"
      using 0(1) False by (subst (asm) persp_spans.simps) (auto simp: Let_def bind_eq_Some_conv xr set_span_def)
    obtain c0 tc0 where p: "p = (c0, tc0)" by (cases p)
    have "quiet c c1" using persp_unit_quiet u unfolding p by (blast intro: quiet_trans)
    from quiet_run [OF this refl 0(2) _ 0(6) r] show ?thesis using 0(5) by simp
  qed
next
  case (Suc n w0 xl c tc)
  have xr: "s32 (xl + 32) = xl + 32" by (rule s32_column [OF Suc.prems(2,5)]) (use Suc.prems(3) in auto)
  obtain q1 p c1 tc1 c2 w1 where u: "persp_unit_span q1 iwscale 0 0 (c, tc) = Some p" "persp_unit_span q1 iwscale 0 1 p = Some (c1, tc1)"
    and r: "run_span (span_ptr (set_span xl (xl + 32) c1)) (set_span xl (xl + 32) c1) = Some c2"
    and rec: "persp_spans iwscale rest n w1 (xl + 32) (c2, tc1) = Some c'"
    using Suc.prems(1) by (subst (asm) persp_spans.simps) (auto simp: Let_def bind_eq_Some_conv xr set_span_def)
  obtain c0 tc0 where p: "p = (c0, tc0)" by (cases p)
  have q: "quiet c c1" using persp_unit_quiet u unfolding p by (blast intro: quiet_trans)
  have i: "in_cb c (row_of c) xl (xl + 32)" "in_cb c (row_of c) (xl + 32) (xl + 32 + 32 * int n + rest)"
    by (rule in_cb_sub [OF Suc.prems(5)]; use Suc.prems(3) in simp)+
  have d: "draws_in (row_bytes c (row_of c) xl (xl + 32)) c c2" by (rule quiet_run [OF q refl Suc.prems(2) i(1) Suc.prems(6) r])
  then have t: "target c2 = target c" "row_of c2 = row_of c" by (simp_all add: draws_in_def)
  have "draws_in (row_bytes c2 (row_of c2) (xl + 32) (xl + 32 + 32 * int n + rest)) c2 c'"
    by (rule Suc.IH [OF rec]) (use Suc.prems i in \<open>simp_all add: target_fields [OF t(1)] target_bytes [OF t(1)] t(2)\<close>)
  from draws_in_row [OF d this] show ?case using Suc.prems(3) by (simp add: algebra_simps)
qed


lemma single_finish_draws:
  assumes f: "single_finish i ss ts st0 d xl xr c = Some c'" and ok: "cb_ok c" "in_cb c (row_of c) xl xr"
    and fit: "span_fits (span_ptr c) (sf_format (color_surface c)) t"
  shows "draws_in (row_bytes c (row_of c) xl xr) c c'"
proof -
  obtain f g where r: "run_span (span_ptr ((upd_tmu i f (set_span xl xr c))\<lparr>generated_tex := g\<rparr>)) ((upd_tmu i f (set_span xl xr c))\<lparr>generated_tex := g\<rparr>) = Some c'"
    using f by (fastforce simp: single_finish_def Let_def bind_eq_Some_conv set_span_def)
  have "(upd_tmu i f (set_span xl xr c))\<lparr>generated_tex := g\<rparr> = set_span xl xr ((upd_tmu i f c)\<lparr>generated_tex := g\<rparr>)"
    by (simp add: set_span_def upd_iterators_def upd_tmu_def upd_state_def)
  then show ?thesis using quiet_run [OF quiet_unit refl ok fit] r by metis
qed

lemma single_spans_draws:
  assumes "single_spans i iwscale ss ts n w st st0 xl c = Some c'" "cb_ok c" "in_cb c (row_of c) xl (xl + 32 * int n)"
    "span_fits (span_ptr c) (sf_format (color_surface c)) t"
  shows "draws_in (row_bytes c (row_of c) xl (xl + 32 * int n)) c c'"
  using assms
proof (induction n arbitrary: w st st0 xl c)
  case 0
  then show ?case by simp
next
  case (Suc n w st st0 xl c)
  have xr: "s32 (xl + 32) = xl + 32" by (rule s32_column [OF Suc.prems(2,3)]) auto
  obtain d c2 w1 st1 st2 where f: "single_finish i ss ts st0 d xl (xl + 32) c = Some c2"
    and rec: "single_spans i iwscale ss ts n w1 st1 st2 (xl + 32) c2 = Some c'"
    using Suc.prems(1) by (auto simp: Let_def bind_eq_Some_conv xr)
  have i: "in_cb c (row_of c) xl (xl + 32)" "in_cb c (row_of c) (xl + 32) (xl + 32 + 32 * int n)"
    by (rule in_cb_sub [OF Suc.prems(3)]; simp)+
  note d = single_finish_draws [OF f Suc.prems(2) i(1) Suc.prems(4)]
  then have t: "target c2 = target c" "row_of c2 = row_of c" by (simp_all add: draws_in_def)
  have "draws_in (row_bytes c2 (row_of c2) (xl + 32) (xl + 32 + 32 * int n)) c2 c'"
    by (rule Suc.IH [OF rec]) (use Suc.prems i in \<open>simp_all add: target_fields [OF t(1)] target_bytes [OF t(1)] t(2)\<close>)
  from draws_in_row [OF d this] show ?case by (simp add: algebra_simps)
qed

lemma perspective_draws:
  assumes sp: "span_in_cb c" and fit: "span_fits (span_ptr c) (sf_format (color_surface c)) t" and r: "scanline_perspective c = Some c'"
  shows "draws_in (span_row_bytes c) c c'"
proof -
  let ?xl = "it_xl (iterators c)" and ?xr = "it_xr (iterators c)"
  have ok: "cb_ok c" "in_cb c (row_of c) ?xl ?xr" using sp by (simp_all add: span_in_cb_def)
  have b: "0 \<le> ?xl" "?xl \<le> ?xr" "?xr < 2147483648" using ok by (auto simp: in_cb_def cb_ok_def Let_def)
  define xc where "xc = ?xr - ?xl"
  have xc: "(?xr - ?xl) mod 2 ^ 32 = xc" "0 \<le> xc" using b by (simp_all add: xc_def)
  obtain iw w0 tc where p: "persp_spans iw (xc mod 32) (nat (xc div 32)) w0 ?xl (c, tc) = Some c'"
    using r unfolding scanline_perspective_def Let_def xc by (auto simp: bind_eq_Some_conv)
  have "int (nat (xc div 32)) = xc div 32" "xc mod 32 = xc - 32 * (xc div 32)" "?xr = ?xl + xc"
    using xc(2) by (simp_all add: minus_mult_div_eq_mod xc_def [symmetric] pos_imp_zdiv_nonneg_iff) (simp add: xc_def)
  then have "?xl + 32 * int (nat (xc div 32)) + xc mod 32 = ?xr" by linarith
  then show ?thesis using persp_spans_draws [OF p ok(1) _ _ _ fit] ok(2) by simp
qed

lemma bind_SomeE: "Option.bind m f = Some x \<Longrightarrow> (\<And>y. m = Some y \<Longrightarrow> f y = Some x \<Longrightarrow> P) \<Longrightarrow> P"
  by (auto simp: bind_eq_Some_conv)

lemma perspective_single_draws:
  assumes sp: "span_in_cb c" and fit: "span_fits (span_ptr c) (sf_format (color_surface c)) t" and r: "scanline_perspective_single c = Some c'"
  shows "draws_in (span_row_bytes c) c c'"
proof -
  let ?xl = "it_xl (iterators c)" and ?xr = "it_xr (iterators c)"
  have ok: "cb_ok c" "in_cb c (row_of c) ?xl ?xr" using sp by (simp_all add: span_in_cb_def)
  have b: "0 \<le> ?xl" "?xl \<le> ?xr" "?xr < 2147483648" using ok by (auto simp: in_cb_def cb_ok_def Let_def)
  define xc where "xc = ?xr - ?xl"
  have xc: "(?xr - ?xl) mod 2 ^ 32 = xc" "0 \<le> xc" "xc < 2147483648" using b by (simp_all add: xc_def)
  have s: "s32 xc = xc" using xc by (intro s32_id') auto
  define pre where "pre = (if sh_dwdx (shade c) = 0 then xc else xc mod 32)"
  define n where "n = (if sh_dwdx (shade c) = 0 then 0 else nat (xc div 32))"
  have "int (nat (xc div 32)) = xc div 32" "xc mod 32 = xc - 32 * (xc div 32)" "?xr = ?xl + xc"
    using xc(2) by (simp_all add: minus_mult_div_eq_mod xc_def [symmetric] pos_imp_zdiv_nonneg_iff) (simp add: xc_def)
  then have "?xl + pre + 32 * int n = ?xr" by (simp add: pre_def n_def)
  moreover have "0 \<le> pre" using xc(2) by (simp add: pre_def)
  ultimately have pn: "?xl + pre + 32 * int n = ?xr" "0 \<le> pre" by simp_all
  have xm: "s32 (?xl + pre) = ?xl + pre" by (rule s32_column [OF ok]) (use pn in auto)
  consider (first) i ss ts st0 d c1 iw w st st1 where "single_finish i ss ts st0 d ?xl (?xl + pre) c = Some c1"
      "single_spans i iw ss ts n w st st1 (?xl + pre) c1 = Some c'"
    | (rest) i iw ss ts w st st0 where "pre = 0" "single_spans i iw ss ts n w st st0 ?xl c = Some c'"
  proof (cases "sh_dwdx (shade c) = 0 \<or> pre \<noteq> 0")
    case True
    have "pre \<noteq> 0"
    proof
      assume "pre = 0"
      then have "sh_dwdx (shade c) = 0" "xc = 0" using True by (auto simp: pre_def)
      then show False using r unfolding scanline_perspective_single_def Let_def xc s by (simp add: bind_eq_Some_conv split: if_splits)
    qed
    then show thesis using r True unfolding scanline_perspective_single_def Let_def xc s pre_def [symmetric] n_def [symmetric] xm
      by (simp only: if_True if_False simp_thms option.distinct split: if_splits) (elim bind_SomeE, rule first, assumption, assumption)+
  next
    case False
    then show thesis using r unfolding scanline_perspective_single_def Let_def xc s pre_def [symmetric] n_def [symmetric] xm
      by (simp only: if_True if_False simp_thms option.distinct split: if_splits) (elim bind_SomeE, rule rest, simp, assumption)+
  qed
  note code = this
  have i: "in_cb c (row_of c) ?xl (?xl + pre)" "in_cb c (row_of c) (?xl + pre) (?xl + pre + 32 * int n)"
    by (rule in_cb_sub [OF ok(2)]; use pn in simp)+
  from code show ?thesis
  proof cases
    case (first i ss ts st0 d c1 iw w st st1)
    note f = first(1) and rec = first(2)
    note d = single_finish_draws [OF f ok(1) i(1) fit]
    then have t: "target c1 = target c" "row_of c1 = row_of c" by (simp_all add: draws_in_def)
    have "draws_in (row_bytes c1 (row_of c1) (?xl + pre) (?xl + pre + 32 * int n)) c1 c'"
      by (rule single_spans_draws [OF rec]) (use ok i fit in \<open>simp_all add: target_fields [OF t(1)] target_bytes [OF t(1)] t(2)\<close>)
    from draws_in_row [OF d this] show ?thesis using pn by simp
  next
    case rest
    then show ?thesis using single_spans_draws [OF rest(2) ok(1) _ fit] ok(2) pn by simp
  qed
qed

text \<open>The call through \<^verbatim>\<open>c->scanline\<close>.\<close>

lemma call_scanline_draws:
  assumes sp: "span_in_cb c" and fit: "span_fits (active_span c) (sf_format (color_surface c)) t" and r: "call_scanline c = Some c'"
  shows "draws_in (span_row_bytes c) c c'"
proof (cases "scanline_ptr c \<in> {Scanline_perspective, Scanline_perspective_single}")
  case True
  then show ?thesis using perspective_draws [OF sp] perspective_single_draws [OF sp] fit r
    by (auto simp: active_span_def call_scanline_def)
next
  case False
  then show ?thesis using run_span_draws [OF sp _ ] fit r
    by (simp add: active_span_def call_scanline_def split: scanline_proc.splits)
qed

subsection \<open>Rows\<close>

lemma step_unit_quiet: "quiet c (step_unit i c)"
  by (simp add: step_unit_def quiet_upd)

lemma step_units_quiet: "quiet c (step_units c)"
  unfolding step_units_def by (rule quiet_trans [OF step_unit_quiet step_unit_quiet])

lemma upd_iterators_frame: "target (upd_iterators f c) = target c" "memory (upd_iterators f c) = memory c" "iterators (upd_iterators f c) = f (iterators c)"
  by (simp_all add: upd_iterators_def target_def)

lemma step_iterators_y: "it_y (step_colors sh ci) = it_y ci" "it_y (step_row ci) = s32 (it_y ci + 1)" "it_y (step_z sh ci) = it_y ci"
  "it_y (step_w sh ci) = it_y ci" "it_y (step_f sh ci) = it_y ci"
  by (simp_all add: step_colors_def step_row_def step_z_def step_w_def step_f_def)

lemma call_step_frame:
  assumes "call_step_y c = Some c'"
  shows "target c' = target c" "memory c' = memory c" "row_of c' = s32 (row_of c + 1)"
proof -
  note su = step_units_quiet [unfolded quiet_def]
  have "target c' = target c \<and> memory c' = memory c \<and> row_of c' = s32 (row_of c + 1)"
    using assms unfolding call_step_y_def
    by (cases "step_y_ptr c") (auto simp: step_y_generic_def step_y_nop_def step_y_smooth_def step_y_w_def step_y_tmu_def
        upd_iterators_frame step_iterators_y Let_def su)
  then show "target c' = target c" "memory c' = memory c" "row_of c' = s32 (row_of c + 1)" by blast+
qed

lemma init_unit_quiet: "init_y_unit ys i c = Some c' \<Longrightarrow> quiet c c'"
  by (auto simp: init_y_unit_def bind_eq_Some_conv Let_def quiet_unit split: if_splits)

lemma init_units_quiet: "init_y_units ys c = Some c' \<Longrightarrow> quiet c c'"
  by (auto simp: init_y_units_def bind_eq_Some_conv split: if_splits dest!: init_unit_quiet intro: quiet_trans)

lemma choose_rect_quiet: "quiet c (choose_rect (c\<lparr>step_y_ptr := s\<rparr>))"
  by (simp add: choose_rect_def quiet_def target_def)

lemma init_noop_frame:
  "target (init_y_noop c y) = target c" "memory (init_y_noop c y) = memory c" "row_of (init_y_noop c y) = y"
  using choose_rect_quiet [of "upd_iterators (\<lambda>ci. ci\<lparr>it_y := y\<rparr>) c" Step_y_nop]
  by (simp_all add: init_y_noop_def quiet_def upd_iterators_frame)

lemma init_color_frame:
  "init_y_color ys c = Some c' \<Longrightarrow> target c' = target c \<and> memory c' = memory c \<and> row_of c' = row_of c"
  by (auto simp: init_y_color_def Let_def bind_eq_Some_conv target_def upd_iterators_def split: if_splits)

lemma init_depth_frame:
  "target (init_y_depth ys c) = target c \<and> memory (init_y_depth ys c) = memory c \<and> row_of (init_y_depth ys c) = row_of c"
  by (simp add: init_y_depth_def Let_def upd_iterators_frame)

lemma call_init_frame:
  assumes "call_init_y c y = Some c'"
  shows "target c' = target c" "memory c' = memory c" "row_of c' = y"
proof -
  have n: "target (init_y_noop c1 y) = target c \<and> memory (init_y_noop c1 y) = memory c \<and> row_of (init_y_noop c1 y) = y"
    if "target c1 = target c" "memory c1 = memory c" for c1 using that by (simp add: init_noop_frame)
  have "target c' = target c \<and> memory c' = memory c \<and> row_of c' = y"
  proof (cases "init_y_ptr c")
    case Init_y
    then obtain c1 c2 where c1: "init_y_color y (init_y_depth y (upd_iterators (\<lambda>ci. ci\<lparr>it_y := y\<rparr>) c)) = Some c1"
      and c2: "init_y_units y (init_y_generated c1) = Some c2" and c': "c' = choose_rect (c2\<lparr>step_y_ptr := choose_step_y (enables (state c2))\<rparr>)"
      using assms by (auto simp: call_init_y_def init_y_def Let_def bind_eq_Some_conv)
    have "quiet c1 c'"
      using quiet_trans [OF quiet_trans [OF quiet_upd(3) init_units_quiet] choose_rect_quiet] c2 c' unfolding init_y_generated_def Let_def by blast
    then show ?thesis using init_color_frame [OF c1] init_depth_frame [of y "upd_iterators (\<lambda>ci. ci\<lparr>it_y := y\<rparr>) c"]
      by (simp add: quiet_def upd_iterators_frame)
  next
    case Init_y_packed
    then obtain p q where "c' = init_y_noop (c\<lparr>packed := p, packed8888 := q\<rparr>) y"
      using assms by (auto simp: call_init_y_def init_y_packed_def Let_def bind_eq_Some_conv)
    then show ?thesis using n [of "c\<lparr>packed := p, packed8888 := q\<rparr>"] by (simp add: target_def)
  qed (use assms n [of c] in \<open>simp_all add: call_init_y_def init_y_error_def\<close>)
  then show "target c' = target c" "memory c' = memory c" "row_of c' = y" by blast+
qed

end
