(* ===== verification/GGLSweep.thy ===== *)
theory GGLSweep
  imports GGLTarget
begin

text \<open>
  The primitives stay inside the scissor. A rasterizer relies on the pipelines through three laws, the
  interface \<open>row_drawer\<close>: a span changes only its own bytes, a step changes no memory and moves to the next
  row, and neither changes the target. Rows of spans inside a rectangle then change only bytes of its
  pixels. The edges of a big triangle are set up so that its rows and spans lie in the scissor, and the
  third edge is never used when only two were set up.
\<close>

subsection \<open>The interface of the pipelines\<close>

fun span_rows :: "(int \<Rightarrow> int \<Rightarrow> 'c \<Rightarrow> 'c option) \<Rightarrow> ('c \<Rightarrow> 'c option) \<Rightarrow> (int \<times> int) list \<Rightarrow> 'c \<Rightarrow> 'c option" where
  "span_rows scan step [] c = Some c"
| "span_rows scan step ((xl, xr) # ss) c =
     Option.bind (if xl < xr then scan xl xr c else Some c) (\<lambda>c. Option.bind (step c) (span_rows scan step ss))"

locale row_drawer =
  fixes scan :: "int \<Rightarrow> int \<Rightarrow> 'c \<Rightarrow> 'c option" and step :: "'c \<Rightarrow> 'c option"
    and tgt :: "'c \<Rightarrow> 't" and mem :: "'c \<Rightarrow> int \<Rightarrow> 'b" and row :: "'c \<Rightarrow> int"
    and fits :: "'c \<Rightarrow> int \<Rightarrow> int \<Rightarrow> int \<Rightarrow> bool" and bytes :: "'c \<Rightarrow> int \<Rightarrow> int \<Rightarrow> int \<Rightarrow> int set"
  assumes scan_law: "fits c (row c) xl xr \<Longrightarrow> scan xl xr c = Some c' \<Longrightarrow>
      tgt c' = tgt c \<and> row c' = row c \<and> (\<forall>b. b \<notin> bytes c (row c) xl xr \<longrightarrow> mem c' b = mem c b)"
    and step_law: "step c = Some c' \<Longrightarrow> 0 \<le> row c \<Longrightarrow> row c < 2147483647 \<Longrightarrow> tgt c' = tgt c \<and> row c' = row c + 1 \<and> mem c' = mem c"
    and target_law: "tgt c' = tgt c \<Longrightarrow> fits c' = fits c \<and> bytes c' = bytes c"
begin

text \<open>The spans of consecutive rows from row \<open>y\<close> fit.\<close>

definition rows_fit :: "'c \<Rightarrow> int \<Rightarrow> (int \<times> int) list \<Rightarrow> bool" where
  "rows_fit c y ss \<longleftrightarrow> 0 \<le> y \<and> y + int (length ss) \<le> 2147483647 \<and>
     (\<forall>k < length ss. fst (ss ! k) < snd (ss ! k) \<longrightarrow> fits c (y + int k) (fst (ss ! k)) (snd (ss ! k)))"

definition rows_bytes :: "'c \<Rightarrow> int \<Rightarrow> (int \<times> int) list \<Rightarrow> int set" where
  "rows_bytes c y ss = (\<Union>k < length ss. bytes c (y + int k) (fst (ss ! k)) (snd (ss ! k)))"

lemma rows_fit_Cons:
  "rows_fit c y (s # ss) \<Longrightarrow> (fst s < snd s \<longrightarrow> fits c y (fst s) (snd s)) \<and> rows_fit c (y + 1) ss"
  unfolding rows_fit_def
proof (intro conjI allI impI; elim conjE)
  assume f: "\<forall>k < length (s # ss). fst ((s # ss) ! k) < snd ((s # ss) ! k) \<longrightarrow> fits c (y + int k) (fst ((s # ss) ! k)) (snd ((s # ss) ! k))"
  show "fits c y (fst s) (snd s)" if "fst s < snd s" using f [rule_format, of 0] that by simp
  show "fits c (y + 1 + int k) (fst (ss ! k)) (snd (ss ! k))" if "k < length ss" "fst (ss ! k) < snd (ss ! k)" for k
    using f [rule_format, of "Suc k"] that by (simp add: add.assoc)
qed auto

lemma rows_bytes_Cons: "rows_bytes c y (s # ss) = bytes c y (fst s) (snd s) \<union> rows_bytes c (y + 1) ss"
  unfolding rows_bytes_def by (simp add: lessThan_Suc_eq_insert_0 image_UN add.assoc)

lemma rows_safe:
  assumes "span_rows scan step ss c = Some c'" "rows_fit c (row c) ss"
  shows "tgt c' = tgt c \<and> row c' = row c + int (length ss) \<and> (\<forall>b. b \<notin> rows_bytes c (row c) ss \<longrightarrow> mem c' b = mem c b)"
  using assms
proof (induction ss arbitrary: c)
  case Nil
  then show ?case by simp
next
  case (Cons s ss)
  obtain xl xr where s: "s = (xl, xr)" by (cases s)
  note f = rows_fit_Cons [OF Cons.prems(2), unfolded s fst_conv snd_conv]
  have y: "0 \<le> row c" "row c < 2147483647" using Cons.prems(2) by (auto simp: rows_fit_def)
  obtain c1 c2 where c1: "(if xl < xr then scan xl xr c else Some c) = Some c1" and c2: "step c1 = Some c2"
    and r: "span_rows scan step ss c2 = Some c'"
    using Cons.prems(1) by (auto simp: s bind_eq_Some_conv)
  have d: "tgt c1 = tgt c" "row c1 = row c" "\<forall>b. b \<notin> bytes c (row c) xl xr \<longrightarrow> mem c1 b = mem c b"
    using c1 scan_law [of c xl xr c1] f by (auto split: if_splits)
  have e: "tgt c2 = tgt c" "row c2 = row c + 1" "mem c2 = mem c1" using step_law [OF c2] y d by auto
  have t: "fits c2 = fits c" "bytes c2 = bytes c" using target_law [OF e(1)] by auto
  have "rows_fit c2 (row c2) ss" using f by (simp add: rows_fit_def t e(2))
  from Cons.IH [OF r this] have "tgt c' = tgt c2" "row c' = row c2 + int (length ss)"
    "\<forall>b. b \<notin> rows_bytes c (row c + 1) ss \<longrightarrow> mem c' b = mem c2 b" by (auto simp: rows_bytes_def t e(2))
  then show ?case using d e unfolding rows_bytes_Cons s by auto
qed

lemma rows_append:
  "span_rows scan step (ss @ ss') c = Option.bind (span_rows scan step ss c) (span_rows scan step ss')"
proof (induction ss arbitrary: c)
  case (Cons s ss)
  then show ?case by (cases s) (simp split: bind_split)
qed simp

end

subsection \<open>The model's pipelines\<close>

definition span_scan :: "int \<Rightarrow> int \<Rightarrow> context_t \<Rightarrow> context_t option" where
  "span_scan xl xr c = call_scanline (set_span xl xr c)"

definition span_fit :: "context_t \<Rightarrow> int \<Rightarrow> int \<Rightarrow> int \<Rightarrow> bool" where
  "span_fit c y xl xr \<longleftrightarrow> cb_ok c \<and> in_cb c y xl xr \<and> (\<exists>t. span_fits (active_span c) (sf_format (color_surface c)) t)"

lemma set_span_frame:
  "target (set_span xl xr c) = target c" "memory (set_span xl xr c) = memory c" "row_of (set_span xl xr c) = row_of c"
  "it_xl (iterators (set_span xl xr c)) = xl" "it_xr (iterators (set_span xl xr c)) = xr"
  by (simp_all add: set_span_def upd_iterators_def target_def)

lemma span_scan_draws:
  assumes "span_fit c (row_of c) xl xr" "span_scan xl xr c = Some c'"
  shows "draws_in (row_bytes c (row_of c) xl xr) c c'"
proof -
  note t = target_fields [OF set_span_frame(1) [of xl xr c]] target_bytes [OF set_span_frame(1) [of xl xr c]]
  obtain tf where "span_fits (active_span c) (sf_format (color_surface c)) tf" "cb_ok c" "in_cb c (row_of c) xl xr"
    using assms(1) by (auto simp: span_fit_def)
  moreover have "active_span (set_span xl xr c) = active_span c" by (simp add: active_span_def t)
  ultimately have "draws_in (row_bytes c (row_of c) xl xr) (set_span xl xr c) c'"
    using call_scanline_draws [of "set_span xl xr c" tf c'] assms(2) by (simp add: span_scan_def span_in_cb_def t set_span_frame)
  then show ?thesis by (simp add: draws_in_def set_span_frame)
qed

interpretation ggl: row_drawer span_scan call_step_y target memory row_of span_fit row_bytes
proof
  show "target c' = target c \<and> row_of c' = row_of c \<and> (\<forall>b. b \<notin> row_bytes c (row_of c) xl xr \<longrightarrow> memory c' b = memory c b)"
    if "span_fit c (row_of c) xl xr" "span_scan xl xr c = Some c'" for c xl xr c'
    using span_scan_draws [OF that] by (simp add: draws_in_def)
  show "target c' = target c \<and> row_of c' = row_of c + 1 \<and> memory c' = memory c"
    if "call_step_y c = Some c'" "0 \<le> row_of c" "row_of c < 2147483647" for c c'
    using call_step_frame [OF that(1)] that(2,3) by (simp add: s32_id')
  show "span_fit c' = span_fit c \<and> row_bytes c' = row_bytes c" if "target c' = target c" for c c'
    using target_fields [OF that] target_bytes [OF that] by (simp add: span_fit_def fun_eq_iff active_span_def)
qed

lemma draw_rows_eq: "draw_rows ss c = span_rows span_scan call_step_y ss c"
  by (induction ss arbitrary: c rule: list.induct)
    (auto simp: span_scan_def split: bind_split)

subsection \<open>Scanlines of a vertex\<close>

text \<open>Vertices within 4095 pixels of the origin: the differences stay below \<open>2 ^ 17\<close>, where
  \<^verbatim>\<open>gglDivQ16\<close> returns.\<close>

definition big_vertex :: "point \<Rightarrow> bool" where
  "big_vertex v \<longleftrightarrow> - 65535 \<le> fst v \<and> fst v \<le> 65535 \<and> - 65535 \<le> snd v \<and> snd v \<le> 65535"

text \<open>The last scanline whose centre is above the vertex.\<close>

definition row_above :: "point \<Rightarrow> int" where
  "row_above v = ((snd v OR 1) - 9) div 16"

lemma or_one: "(y :: int) OR 1 = y + (if even y then 1 else 0)"
  by (simp add: or_one_eq)

lemma snap_prev: "- 70000 \<le> y \<Longrightarrow> y \<le> 70000 \<Longrightarrow> odd y \<Longrightarrow> TRI_SNAP_PREV_HALF y = 16 * ((y - 9) div 16) + 8"
proof -
  assume y: "- 70000 \<le> y" "y \<le> 70000" "odd y"
  have s: "s32 (y - 8) = y - 8" "s32 (y + 7) = y + 7" "y - 8 + 15 = y + 7" using y by (simp_all add: s32_id')
  have f: "TRI_FLOOR (y + 7) = 16 * ((y + 7) div 16)" by (simp add: TRI_FLOOR_def minus_mod_eq_mult_div)
  have b: "- 5000 \<le> (y + 7) div 16" "(y + 7) div 16 \<le> 5000" using y by linarith+
  have "s32 (16 * ((y + 7) div 16) - 8) = 16 * ((y + 7) div 16) - 8" using b by (intro s32_id') linarith+
  moreover have "16 * ((y + 7) div 16) - 8 = 16 * ((y - 9) div 16) + 8" by presburger
  ultimately show ?thesis by (simp only: TRI_SNAP_PREV_HALF_def TRI_CEIL_def s f)
qed

lemma snap_next: "- 70000 \<le> y \<Longrightarrow> y \<le> 70000 \<Longrightarrow> odd y \<Longrightarrow> TRI_SNAP_NEXT_HALF y = 16 * ((y - 9) div 16 + 1) + 8"
proof -
  assume y: "- 70000 \<le> y" "y \<le> 70000" "odd y"
  have s: "s32 (y + 8) = y + 8" "s32 (y + 23) = y + 23" using y by (simp_all add: s32_id')
  have f: "TRI_FLOOR (y + 23) = 16 * ((y + 23) div 16)" by (simp add: TRI_FLOOR_def minus_mod_eq_mult_div)
  have b: "- 5000 \<le> (y + 23) div 16" "(y + 23) div 16 \<le> 5000" using y by linarith+
  have "s32 (16 * ((y + 23) div 16) - 8) = 16 * ((y + 23) div 16) - 8" using b by (intro s32_id') linarith+
  moreover have "(y + 23) div 16 = (y - 9) div 16 + 2" by presburger
  ultimately show ?thesis by (simp add: TRI_SNAP_NEXT_HALF_def TRI_CEIL_def s f add.assoc)
qed

lemma vertex_row:
  assumes "big_vertex v"
  shows "odd (snd v OR 1)" "- 65535 \<le> (snd v OR 1)" "(snd v OR 1) \<le> 65535"
    "16 * row_above v + 8 < (snd v OR 1)" "(snd v OR 1) < 16 * (row_above v + 1) + 8"
    "- 5000 \<le> row_above v" "row_above v \<le> 5000"
proof -
  have o: "odd (snd v OR 1)" by (simp add: or_one)
  show "odd (snd v OR 1)" by (rule o)
  show "- 65535 \<le> (snd v OR 1)" "(snd v OR 1) \<le> 65535" using assms by (auto simp: or_one big_vertex_def even_iff_mod_2_eq_zero)
  then show "- 5000 \<le> row_above v" "row_above v \<le> 5000" unfolding row_above_def by linarith+
  show "16 * row_above v + 8 < (snd v OR 1)" unfolding row_above_def by linarith
  have "(snd v OR 1) \<noteq> 16 * (((snd v OR 1) - 9) div 16 + 1) + 8" using o by (metis dvd_add dvd_mult2 even_numeral)
  moreover have "(y :: int) \<le> 16 * ((y - 9) div 16 + 1) + 8" for y by presburger
  ultimately show "(snd v OR 1) < 16 * (row_above v + 1) + 8" unfolding row_above_def by (simp add: less_le)
qed

lemma or_one_mono: "(x :: int) \<le> y \<Longrightarrow> x OR 1 \<le> y OR 1"
  unfolding or_one by (cases "x = y") auto

lemma row_above_mono: "snd v \<le> snd w \<Longrightarrow> row_above v \<le> row_above w"
  unfolding row_above_def by (rule zdiv_mono1) (auto dest: or_one_mono)

lemma gglDivQ16_returns:
  assumes "\<bar>n\<bar> < 131072" "0 < d" "d < 131072" "n \<noteq> 0"
  shows "gglDivQ16 n d = Some (s32 ((n * 65536) sdiv d))"
proof -
  obtain k where k: "gglClz \<bar>n\<bar> = 31 - int k" using gglClz_pos [of "\<bar>n\<bar>"] assms by auto
  obtain j where j: "gglClz \<bar>d\<bar> = 31 - int j" "2 ^ j \<le> \<bar>d\<bar>" using gglClz_pos [of "\<bar>d\<bar>"] assms by auto
  have "(2 :: int) ^ j < 2 ^ 17" using j(2) assms by simp
  then have "j < 17" by (rule power_less_imp_less_exp [rotated]) simp
  then show ?thesis using gglDivQ_value [of n d 16] assms k j by (simp add: gglDivQ16_def)
qed

subsection \<open>Edges of a big triangle\<close>

text \<open>The scanlines of the edge between two vertices inside the range \<open>t\<close> to \<open>b\<close>.\<close>

definition edge_first :: "int \<Rightarrow> point \<Rightarrow> point \<Rightarrow> int" where
  "edge_first t p q = max t (min (row_above p) (row_above q) + 1)"

definition edge_last :: "int \<Rightarrow> point \<Rightarrow> point \<Rightarrow> int" where
  "edge_last b p q = min b (max (row_above p) (row_above q))"

lemma edge_setup_rows:
  assumes v: "big_vertex p" "big_vertex q" and m: "0 \<le> t" "t < 100000000" "- 1 \<le> b" "b < 100000000"
  shows "\<exists>e. edge_setup es p q (16 * t + 8) (16 * b + 8) = Some (if edge_first t p q \<le> edge_last b p q then es @ [e] else es) \<and>
    ed_y_top e = 16 * edge_first t p q + 8 \<and> ed_y_bot e = 16 * edge_last b p q + 8"
proof -
  obtain tp bt where tb: "(if snd p > snd q then (q, p) else (p, q)) = (tp, bt)" by fastforce
  have vt: "big_vertex tp" "big_vertex bt" "snd tp \<le> snd bt" using tb v by (auto split: if_splits)
  note r1 = vertex_row [OF vt(1)] and r2 = vertex_row [OF vt(2)]
  have fl: "edge_first t p q = max t (row_above tp + 1)" "edge_last b p q = min b (row_above bt)"
    using tb row_above_mono [of p q] row_above_mono [of q p] by (auto simp: edge_first_def edge_last_def split: if_splits)
  define y1 y2 where y: "y1 = (snd tp OR 1)" "y2 = (snd bt OR 1)"
  have dy: "s32 (y2 - y1) = y2 - y1" using r1 r2 by (simp add: y s32_id')
  have nx: "TRI_SNAP_NEXT_HALF y1 = 16 * (row_above tp + 1) + 8" and pv: "TRI_SNAP_PREV_HALF y2 = 16 * row_above bt + 8"
    using snap_next [of y1] snap_prev [of y2] r1 r2 by (simp_all add: y row_above_def)
  define lo hi where l: "lo = (if y1 > 16 * t + 8 then TRI_SNAP_NEXT_HALF y1 else 16 * t + 8)"
    "hi = (if y2 < 16 * b + 8 then TRI_SNAP_PREV_HALF y2 else 16 * b + 8)"
  have lo: "lo = 16 * edge_first t p q + 8" using r1 unfolding l nx fl y [symmetric] by (simp add: max_def)
  have hi: "hi = 16 * edge_last b p q + 8" using r2 unfolding l pv fl y [symmetric] by (simp add: min_def)
  have y12: "y1 \<le> y2" using or_one_mono [OF vt(3)] by (simp add: y)
  have gone: "edge_last b p q < edge_first t p q" if "y2 - y1 = 0 \<or> y1 > 16 * b + 8 \<or> y2 < 16 * t + 8"
    using that r1(4,5) r2(4,5) unfolding fl y [symmetric] by (auto simp: min_def max_def)
  define dx where "dx = s32 (fst bt - fst tp)"
  have dx: "\<bar>dx\<bar> < 131072" using vt unfolding big_vertex_def dx_def by (simp add: s32_id', linarith)
  show ?thesis
  proof (cases "y2 - y1 = 0 \<or> y1 > 16 * b + 8 \<or> y2 < 16 * t + 8")
    case True
    then show ?thesis using gone
      by (intro exI [of _ "\<lparr>ed_x = 0, ed_x_incr = 0, ed_y_top = 16 * edge_first t p q + 8, ed_y_bot = 16 * edge_last b p q + 8\<rparr>"])
        (simp add: edge_setup_def tb Let_def y [symmetric] dy)
  next
    case False
    have d: "0 < y2 - y1" "y2 - y1 < 131072" using False y12 r1 r2 by (auto simp: y)
    have "\<exists>k. (if dx \<noteq> 0 then gglDivQ16 dx (y2 - y1) else Some 0) = Some k" using gglDivQ16_returns [OF dx d] by simp
    then obtain k where k: "(if dx \<noteq> 0 then gglDivQ16 dx (y2 - y1) else Some 0) = Some k" ..
    define x where "x = s32 (s32 (fst tp * 2 ^ 12) + 2 ^ 15)"
    have "edge_setup es p q (16 * t + 8) (16 * b + 8) = (if lo > hi then Some es else
      Some (es @ [\<lparr>ed_x = (if y1 < lo then s32 (x + s32 (k * s32 (lo - y1)) div 2 ^ 4) else x), ed_x_incr = k, ed_y_top = lo, ed_y_bot = hi\<rparr>]))"
      using False unfolding edge_setup_def tb Let_def prod.case y [symmetric] dy l [symmetric] dx_def [symmetric] x_def [symmetric] k by simp
    then show ?thesis
      by (intro exI [of _ "\<lparr>ed_x = (if y1 < lo then s32 (x + s32 (k * s32 (lo - y1)) div 2 ^ 4) else x), ed_x_incr = k, ed_y_top = lo, ed_y_bot = hi\<rparr>"])
        (simp add: lo hi)
  qed
qed


text \<open>When one of the three edges crosses no scanline of the range, the two others end on the same one.\<close>

lemma two_edges_end:
  assumes "edge_last b p q < edge_first t p q" "edge_first t p r \<le> edge_last b p r" "edge_first t q r \<le> edge_last b q r"
  shows "edge_last b p r = edge_last b q r"
  using assms unfolding edge_first_def edge_last_def by (simp add: min_def max_def split: if_splits)

lemma edge_rows_swap: "edge_first t p q = edge_first t q p" "edge_last b p q = edge_last b q p"
  by (simp_all add: edge_first_def edge_last_def min.commute max.commute)

subsection \<open>Sweeps\<close>

lemma sweep_rows_draw:
  "\<exists>ss. length ss = n \<and> (\<forall>s \<in> set ss. xmin \<le> fst s \<and> snd s \<le> xmax) \<and> sweep_rows xmin xmax n x xi = draw_rows ss"
proof (induction n arbitrary: x)
  case 0
  then show ?case by (intro exI [of _ "[]"]) (simp add: fun_eq_iff)
next
  case (Suc n)
  obtain ss where ss: "length ss = n" "\<forall>s \<in> set ss. xmin \<le> fst s \<and> snd s \<le> xmax"
    "sweep_rows xmin xmax n (s32 (fst x + fst xi), s32 (snd x + snd xi)) xi = draw_rows ss"
    using Suc.IH by blast
  have "sweep_rows xmin xmax (Suc n) x xi = draw_rows ((max (fst x div 2 ^ 16) xmin, min (snd x div 2 ^ 16) xmax) # ss)"
    by (rule ext) (simp add: Let_def ss(3))
  then show ?case using ss(1,2)
    by (intro exI [of _ "(max (fst x div 2 ^ 16) xmin, min (snd x div 2 ^ 16) xmax) # ss"]) simp
qed

lemma sweep_edges_draw:
  assumes "0 \<le> a" "a \<le> b" "b < 100000000"
  shows "\<exists>ss. int (length ss) = b - a + 1 \<and> (\<forall>s \<in> set ss. clip_left c \<le> fst s \<and> snd s \<le> clip_right c) \<and>
    (\<exists>l' r'. triangle_sweep_edges l r (16 * a + 8) (16 * b + 8) c = map_option (\<lambda>c. ((l', r'), c)) (draw_rows ss c) \<and>
       ed_y_top l' = ed_y_top l \<and> ed_y_bot l' = ed_y_bot l \<and> ed_y_top r' = ed_y_top r \<and> ed_y_bot r' = ed_y_bot r)"
proof -
  have "s32 (16 * b + 8 - (16 * a + 8)) = 16 * (b - a)" using assms by (simp add: s32_id' algebra_simps)
  then have count: "s32 (s32 (16 * b + 8 - (16 * a + 8)) div 16 + 1) = b - a + 1" using assms by (simp add: s32_id')
  obtain el er where lr: "(if ed_x l > ed_x r \<or> ed_x l = ed_x r \<and> ed_x_incr l > ed_x_incr r then (r, l) else (l, r)) = (el, er)" by fastforce
  obtain ss where ss: "length ss = nat (b - a + 1)" "\<forall>s \<in> set ss. clip_left c \<le> fst s \<and> snd s \<le> clip_right c"
    "sweep_rows (clip_left c) (clip_right c) (nat (b - a + 1)) (ed_x el, ed_x er) (ed_x_incr el, ed_x_incr er) = draw_rows ss"
    using sweep_rows_draw by blast
  have "triangle_sweep_edges l r (16 * a + 8) (16 * b + 8) c =
    map_option (\<lambda>c'. ((edge_advance (b - a + 1) l, edge_advance (b - a + 1) r), c')) (draw_rows ss c)"
    using assms unfolding triangle_sweep_edges_def Let_def count lr by (simp add: ss map_option_case split: option.split bind_split)
  then show ?thesis using ss(1,2) assms
    by (intro exI [of _ ss] conjI exI [of _ "edge_advance (b - a + 1) l"] exI [of _ "edge_advance (b - a + 1) r"])
      (simp_all add: edge_advance_def)
qed

definition edge_in :: "int \<Rightarrow> int \<Rightarrow> Edge \<Rightarrow> bool" where
  "edge_in t b e \<longleftrightarrow> (\<exists>i j. ed_y_top e = 16 * i + 8 \<and> ed_y_bot e = 16 * j + 8 \<and> t \<le> i \<and> i \<le> j \<and> j \<le> b)"

lemma choose_edges_rows:
  assumes es: "length es = 2 \<or> length es = 3" "\<forall>e \<in> set es. edge_in t b e"
    and two: "length es = 2 \<Longrightarrow> ed_y_bot (es ! 0) = ed_y_bot (es ! 1)"
  shows "\<exists>l r other f g i j. choose_edges es = ((l, r, other), 16 * f + 8, 16 * g + 8) \<and>
    ed_y_bot l = 16 * i + 8 \<and> ed_y_bot r = 16 * j + 8 \<and> t \<le> f \<and> f \<le> i \<and> f \<le> j \<and> i \<le> g \<and> j \<le> g \<and> g \<le> b \<and>
    (other = None \<longrightarrow> min i j = g)"
proof -
  have mm: "min (16 * x + 8) (16 * y + 8) = 16 * min x y + (8 :: int)" "max (16 * x + 8) (16 * y + 8) = 16 * max x y + (8 :: int)" for x y
    by (simp_all add: min_def max_def)
  have e: "edge_in t b (es ! 0)" "edge_in t b (es ! 1)" using es by auto
  obtain a0 b0 where 0: "ed_y_top (es ! 0) = 16 * a0 + 8" "ed_y_bot (es ! 0) = 16 * b0 + 8" "t \<le> a0" "a0 \<le> b0" "b0 \<le> b"
    using e(1) unfolding edge_in_def by blast
  obtain a1 b1 where 1: "ed_y_top (es ! 1) = 16 * a1 + 8" "ed_y_bot (es ! 1) = 16 * b1 + 8" "t \<le> a1" "a1 \<le> b1" "b1 \<le> b"
    using e(2) unfolding edge_in_def by blast
  show ?thesis
  proof (cases "length es = 3")
    case True
    obtain a2 b2 where 2: "ed_y_top (es ! 2) = 16 * a2 + 8" "ed_y_bot (es ! 2) = 16 * b2 + 8" "t \<le> a2" "a2 \<le> b2" "b2 \<le> b"
      using es(2) True unfolding edge_in_def by (metis lessI nth_mem numeral_3_eq_3 numeral_2_eq_2)
    define f g where fg: "f = min (min a0 a1) a2" "g = max (max b0 b1) b2"
    have c: "choose_edges es = (if a0 > f then ((es ! 2, es ! 1, Some (es ! 0)), 16 * f + 8, 16 * g + 8)
        else if a1 > f then ((es ! 0, es ! 2, Some (es ! 1)), 16 * f + 8, 16 * g + 8)
        else ((es ! 0, es ! 1, Some (es ! 2)), 16 * f + 8, 16 * g + 8))"
      using True unfolding choose_edges_def Let_def 0 1 2 mm fg by simp
    have b: "t \<le> f" "f \<le> b0" "f \<le> b1" "f \<le> b2" "b0 \<le> g" "b1 \<le> g" "b2 \<le> g" "g \<le> b" using 0 1 2 unfolding fg by auto
    consider "a0 > f" | "\<not> a0 > f" "a1 > f" | "\<not> a0 > f" "\<not> a1 > f" by blast
    then show ?thesis
    proof cases
      case 1
      then show ?thesis using c b \<open>ed_y_bot (es ! 1) = 16 * b1 + 8\<close> 2(2) by auto
    next
      case 2
      then show ?thesis using c b \<open>ed_y_bot (es ! 2) = 16 * b2 + 8\<close> 0(2) by auto
    next
      case 3
      then show ?thesis using c b 0(2) 1(2) by auto
    qed
  next
    case False
    then have "b0 = b1" using es(1) two 0(2) 1(2) by simp
    define f where "f = min a0 a1"
    have c: "choose_edges es = ((es ! 0, es ! 1, None), 16 * f + 8, 16 * b0 + 8)"
      using False \<open>b0 = b1\<close> unfolding choose_edges_def Let_def 0 1 mm f_def by simp
    have "t \<le> f" "f \<le> b0" "b0 \<le> b" using 0 1 unfolding f_def by auto
    then show ?thesis using c 0(2) 1(2) \<open>b0 = b1\<close> by auto
  qed
qed

subsection \<open>Big triangles\<close>

lemma big_edges:
  assumes v: "big_vertex v0" "big_vertex v1" "big_vertex v2" and m: "0 \<le> t" "t < 100000000" "- 1 \<le> b" "b < 100000000"
  shows "\<exists>es es1 es2. edge_setup [] v0 v1 (16 * t + 8) (16 * b + 8) = Some es1 \<and> edge_setup es1 v0 v2 (16 * t + 8) (16 * b + 8) = Some es2 \<and>
    edge_setup es2 v1 v2 (16 * t + 8) (16 * b + 8) = Some es \<and> length es \<le> 3 \<and> (\<forall>e \<in> set es. edge_in t b e) \<and>
    (length es = 2 \<longrightarrow> ed_y_bot (es ! 0) = ed_y_bot (es ! 1))"
proof -
  define P where "P = (\<lambda>p q. edge_first t p q \<le> edge_last b p q)"
  define M where "M = (\<lambda>p q (e :: Edge). ed_y_top e = 16 * edge_first t p q + 8 \<and> ed_y_bot e = 16 * edge_last b p q + 8)"
  obtain e1 where e1: "edge_setup [] v0 v1 (16 * t + 8) (16 * b + 8) = Some (if P v0 v1 then [e1] else [])" "M v0 v1 e1"
    using edge_setup_rows [OF v(1,2) m, of "[]"] unfolding P_def M_def append_Nil by blast
  obtain e2 where e2: "edge_setup (if P v0 v1 then [e1] else []) v0 v2 (16 * t + 8) (16 * b + 8) =
      Some (if P v0 v2 then (if P v0 v1 then [e1] else []) @ [e2] else if P v0 v1 then [e1] else [])" "M v0 v2 e2"
    using edge_setup_rows [OF v(1,3) m] unfolding P_def M_def by blast
  define es2 where "es2 = (if P v0 v2 then (if P v0 v1 then [e1] else []) @ [e2] else if P v0 v1 then [e1] else [])"
  obtain e3 where e3: "edge_setup es2 v1 v2 (16 * t + 8) (16 * b + 8) = Some (if P v1 v2 then es2 @ [e3] else es2)" "M v1 v2 e3"
    using edge_setup_rows [OF v(2,3) m] unfolding P_def M_def by blast
  define es where "es = (if P v1 v2 then es2 @ [e3] else es2)"
  have i: "P p q \<Longrightarrow> M p q e \<Longrightarrow> edge_in t b e" for p q e
    by (auto simp: P_def M_def edge_in_def edge_first_def edge_last_def)
  have l: "length es \<le> 3" by (simp add: es_def es2_def)
  have a: "\<forall>e \<in> set es. edge_in t b e" using i e1(2) e2(2) e3(2) by (auto simp: es_def es2_def split: if_splits)
  have two: "ed_y_bot (es ! 0) = ed_y_bot (es ! 1)" if "length es = 2"
  proof -
    have x: "P v0 v1 \<Longrightarrow> P v0 v2 \<Longrightarrow> \<not> P v1 v2 \<Longrightarrow> edge_last b v0 v1 = edge_last b v0 v2"
      using two_edges_end [of b v1 v2 t v0] edge_rows_swap(1) [of t v0 v1] edge_rows_swap(2) [of b v0 v1] edge_rows_swap(1) [of t v0 v2] edge_rows_swap(2) [of b v0 v2] by (simp add: P_def)
    have y: "P v0 v1 \<Longrightarrow> \<not> P v0 v2 \<Longrightarrow> P v1 v2 \<Longrightarrow> edge_last b v0 v1 = edge_last b v1 v2"
      using two_edges_end [of b v0 v2 t v1] edge_rows_swap(1) [of t v2 v1] edge_rows_swap(2) [of b v2 v1] by (simp add: P_def)
    have z: "\<not> P v0 v1 \<Longrightarrow> P v0 v2 \<Longrightarrow> P v1 v2 \<Longrightarrow> edge_last b v0 v2 = edge_last b v1 v2"
      using two_edges_end [of b v0 v1 t v2] by (simp add: P_def)
    show ?thesis using that e1(2) e2(2) e3(2) x y z by (auto simp: es_def es2_def M_def split: if_splits)
  qed
  show ?thesis using e1(1) e2(1) e3(1) l a two unfolding es2_def [symmetric] es_def [symmetric] by blast
qed

text \<open>A context that can draw: the colour buffer is described truthfully, the selected pipeline fits it,
  and the scissor lies in it.\<close>

definition drawable :: "context_t \<Rightarrow> bool" where
  "drawable c \<longleftrightarrow> cb_ok c \<and> (\<exists>t. span_fits (active_span c) (sf_format (color_surface c)) t) \<and>
     0 \<le> clip_left c \<and> clip_right c \<le> uint (sf_width (color_surface c)) \<and>
     0 \<le> clip_top c \<and> clip_bottom c \<le> uint (sf_height (color_surface c)) \<and> clip_top c < 100000000 \<and> 0 \<le> clip_bottom c \<and> clip_bottom c < 100000000"

definition scissor_bytes :: "context_t \<Rightarrow> int set" where
  "scissor_bytes c = (\<Union>y \<in> {clip_top c ..< clip_bottom c}. row_bytes c y (clip_left c) (clip_right c))"

lemma target_clip:
  assumes "target c' = target c"
  shows "clip_left c' = clip_left c" "clip_right c' = clip_right c" "clip_top c' = clip_top c" "clip_bottom c' = clip_bottom c"
    "drawable c' = drawable c" "scissor_bytes c' = scissor_bytes c"
  using target_fields [OF assms] target_bytes [OF assms]
  by (simp_all add: clip_left_def clip_right_def clip_top_def clip_bottom_def drawable_def scissor_bytes_def active_span_def)

text \<open>Rows of spans inside the scissor.\<close>

definition rows_in_scissor :: "context_t \<Rightarrow> int \<Rightarrow> (int \<times> int) list \<Rightarrow> bool" where
  "rows_in_scissor c y ss \<longleftrightarrow> clip_top c \<le> y \<and> y + int (length ss) \<le> clip_bottom c \<and>
     (\<forall>s \<in> set ss. clip_left c \<le> fst s \<and> snd s \<le> clip_right c)"

lemma rows_in_scissor_safe:
  assumes d: "drawable c" and r: "rows_in_scissor c (row_of c) ss" and s: "draw_rows ss c = Some c'"
  shows "target c' = target c" "row_of c' = row_of c + int (length ss)" "\<And>b. b \<notin> scissor_bytes c \<Longrightarrow> memory c' b = memory c b"
proof -
  have k: "clip_left c \<le> fst (ss ! k)" "snd (ss ! k) \<le> clip_right c" if "k < length ss" for k
    using r nth_mem [OF that] by (auto simp: rows_in_scissor_def)
  have "ggl.rows_fit c (row_of c) ss"
    unfolding ggl.rows_fit_def span_fit_def in_cb_def
  proof (intro conjI allI impI)
    fix i assume i: "i < length ss" "fst (ss ! i) < snd (ss ! i)"
    show "cb_ok c" "\<exists>t. span_fits (active_span c) (sf_format (color_surface c)) t" using d by (auto simp: drawable_def)
    show "0 \<le> fst (ss ! i)" "fst (ss ! i) \<le> snd (ss ! i)" "snd (ss ! i) \<le> uint (sf_width (color_surface c))"
      using k [OF i(1)] i(2) d by (auto simp: drawable_def)
    show "0 \<le> row_of c + int i" "row_of c + int i < uint (sf_height (color_surface c))"
      using i(1) d r by (auto simp: drawable_def rows_in_scissor_def)
  qed (use d r in \<open>auto simp: drawable_def rows_in_scissor_def\<close>)
  note safe = ggl.rows_safe [OF _ this, of c'] s [unfolded draw_rows_eq]
  show "target c' = target c" "row_of c' = row_of c + int (length ss)" using safe by auto
  fix b assume b: "b \<notin> scissor_bytes c"
  have "ggl.rows_bytes c (row_of c) ss \<subseteq> scissor_bytes c"
  proof
    fix x assume "x \<in> ggl.rows_bytes c (row_of c) ss"
    then obtain i where i: "i < length ss" "x \<in> row_bytes c (row_of c + int i) (fst (ss ! i)) (snd (ss ! i))"
      by (auto simp: ggl.rows_bytes_def)
    then have "x \<in> row_bytes c (row_of c + int i) (clip_left c) (clip_right c)"
      using row_bytes_mono [OF k [OF i(1)]] by blast
    then show "x \<in> scissor_bytes c" using i(1) r by (auto simp: scissor_bytes_def rows_in_scissor_def intro!: bexI [of _ "row_of c + int i"])
  qed
  then show "memory c' b = memory c b" using safe b by blast
qed

end
