(* ===== verification/GGLPrimitives.thy ===== *)
theory GGLPrimitives
  imports GGLSweep
begin

text \<open>
  Big triangles and lines, end to end: each is a sequence of rows of spans inside the scissor
  (\<open>draws_clipped\<close>), and so leaves every byte outside the pixels of the scissor as it was
  (\<open>safe_draw\<close>).
\<close>


subsection \<open>Primitives as rows of spans\<close>

text \<open>What a primitive does: nothing, or it starts on a row and draws the spans of consecutive rows, all inside the scissor.\<close>

definition draws_clipped :: "context_t \<Rightarrow> context_t option \<Rightarrow> bool" where
  "draws_clipped c r \<longleftrightarrow> r = Some c \<or>
     (\<exists>y ss. rows_in_scissor c y ss \<and> r = Option.bind (call_init_y c y) (draw_rows ss))"

lemma draws_clippedI:
  "rows_in_scissor c y ss \<Longrightarrow> r = Option.bind (call_init_y c y) (draw_rows ss) \<Longrightarrow> draws_clipped c r"
  by (auto simp: draws_clipped_def)

text \<open>Such a primitive leaves everything outside the pixels of the scissor as it was.\<close>

definition safe_draw :: "context_t \<Rightarrow> context_t \<Rightarrow> bool" where
  "safe_draw c c' \<longleftrightarrow> target c' = target c \<and> (\<forall>b. b \<notin> scissor_bytes c \<longrightarrow> memory c' b = memory c b)"

lemma safe_draw_refl [simp]: "safe_draw c c"
  by (simp add: safe_draw_def)

lemma safe_draw_trans: "safe_draw c c1 \<Longrightarrow> safe_draw c1 c2 \<Longrightarrow> safe_draw c c2"
  by (simp add: safe_draw_def target_clip(6) [of c1 c])

lemma draws_clipped_safe:
  assumes d: "drawable c" and r: "draws_clipped c (Some c')"
  shows "safe_draw c c'"
proof (cases "c' = c")
  case False
  then obtain y ss c1 where s: "rows_in_scissor c y ss" "call_init_y c y = Some c1" "draw_rows ss c1 = Some c'"
    using r by (auto simp: draws_clipped_def dest!: sym [of "Some c'"] elim!: bind_SomeE)
  note i = call_init_frame [OF s(2)]
  have r1: "rows_in_scissor c1 (row_of c1) ss" using s(1) by (simp add: rows_in_scissor_def target_clip [OF i(1)] i(3))
  have d1: "drawable c1" using d by (simp add: target_clip [OF i(1)])
  show ?thesis using rows_in_scissor_safe [OF d1 r1 s(3)] by (simp add: safe_draw_def target_clip [OF i(1)] i)
qed simp

lemma draw_rows_append: "draw_rows (ss @ ss') c = Option.bind (draw_rows ss c) (draw_rows ss')"
proof -
  have e: "draw_rows ss = span_rows span_scan call_step_y ss" for ss by (rule ext) (rule draw_rows_eq)
  show ?thesis unfolding e by (rule ggl.rows_append)
qed

subsection \<open>Big triangles\<close>

text \<open>The sweeps of the two parts of the triangle are one sequence of rows.\<close>

lemma sweep_twice:
  assumes r: "rows_in_scissor c y ss" "c1 = Option.bind (call_init_y c y) (draw_rows ss)"
    and d: "drawable c"
    and k: "\<And>c2. c1 = Some c2 \<Longrightarrow> target c2 = target c \<Longrightarrow>
        k c2 = Some c2 \<or> (\<exists>ss'. rows_in_scissor c y (ss @ ss') \<and> k c2 = draw_rows ss' c2)"
  shows "draws_clipped c (Option.bind c1 k)"
proof (cases c1)
  case None
  then show ?thesis using draws_clippedI [OF r(1), of None] r(2) by simp
next
  case (Some c2)
  have "target c2 = target c" using draws_clipped_safe [OF d, of c2] draws_clippedI [OF r] Some by (simp add: safe_draw_def)
  from k [OF Some this] show ?thesis
  proof (elim disjE exE conjE)
    fix ss' assume s: "rows_in_scissor c y (ss @ ss')" "k c2 = draw_rows ss' c2"
    have "Option.bind c1 k = Option.bind (call_init_y c y) (draw_rows (ss @ ss'))"
      using s(2) Some r(2) by (auto simp: draw_rows_append split: bind_splits)
    then show ?thesis by (rule draws_clippedI [OF s(1)])
  qed (use draws_clippedI [OF r] Some in simp)
qed


text \<open>The part of the triangle below the row \<open>h\<close> where the first of the two edges ends.\<close>

definition lower_part :: "Edge option \<Rightarrow> int \<Rightarrow> int \<Rightarrow> Edge \<times> Edge \<Rightarrow> context_t \<Rightarrow> context_t option" where
  "lower_part other h g = (\<lambda>(l, r) c. if 16 * (h + 1) + 8 \<le> 16 * g + 8 then do {
     other \<leftarrow> other;
     let other = (if ed_y_top other < 16 * (h + 1) + 8 then other\<lparr>ed_x := s32 (ed_x other + ed_x_incr other)\<rparr> else other);
     let (left, right) = (if ed_y_bot l = 16 * g + 8 then (l, other) else (other, r));
     (es, c) \<leftarrow> triangle_sweep_edges left right (16 * (h + 1) + 8) (16 * g + 8) c;
     Some c
   } else Some c)"

lemma bind_snd: "Option.bind m (\<lambda>(e, c). Some c) = map_option snd m"
  by (cases m) auto

lemma lower_part_draw:
  assumes "other = None \<longrightarrow> h = g" "h \<le> g" "0 \<le> h" "g < 100000000"
  shows "lower_part other h g e c = Some c \<or>
    (\<exists>ss. int (length ss) = g - h \<and> (\<forall>s \<in> set ss. clip_left c \<le> fst s \<and> snd s \<le> clip_right c) \<and> lower_part other h g e c = draw_rows ss c)"
proof (cases "h < g")
  case True
  then obtain o' where "other = Some o'" using assms(1) by (cases other) auto
  then have "\<exists>l2 r2. lower_part other h g e c = map_option snd (triangle_sweep_edges l2 r2 (16 * (h + 1) + 8) (16 * g + 8) c)"
    using True by (simp add: lower_part_def Let_def case_prod_beta bind_snd) blast
  then obtain l2 r2 where e: "lower_part other h g e c = map_option snd (triangle_sweep_edges l2 r2 (16 * (h + 1) + 8) (16 * g + 8) c)" by blast
  obtain ss l3 r3 where "int (length ss) = g - (h + 1) + 1" "\<forall>s \<in> set ss. clip_left c \<le> fst s \<and> snd s \<le> clip_right c"
    "triangle_sweep_edges l2 r2 (16 * (h + 1) + 8) (16 * g + 8) c = map_option (\<lambda>c. ((l3, r3), c)) (draw_rows ss c)"
    using sweep_edges_draw [of "h + 1" g c l2 r2] assms True by auto
  then show ?thesis using e by (intro disjI2 exI [of _ ss]) (simp add: option.map_comp comp_def option.map_ident)
qed (use assms in \<open>simp add: lower_part_def case_prod_beta\<close>)

lemma both_parts_clipped:
  assumes d: "drawable c" and r: "clip_top c \<le> f" "f \<le> h" "h \<le> g" "g < clip_bottom c" "other = None \<longrightarrow> h = g"
  shows "draws_clipped c (do { c1 \<leftarrow> call_init_y c f; (e, c2) \<leftarrow> triangle_sweep_edges l r (16 * f + 8) (16 * h + 8) c1; lower_part other h g e c2 })"
    (is "draws_clipped c ?r")
proof (cases "call_init_y c f")
  case None
  have "rows_in_scissor c f []" using r by (simp add: rows_in_scissor_def)
  from draws_clippedI [OF this, of None] show ?thesis by (simp add: None)
next
  case (Some c1)
  note i1 = call_init_frame [OF Some]
  have m: "0 \<le> f" "g < 100000000" using d r by (auto simp: drawable_def)
  obtain ss l' r' where ss: "int (length ss) = h - f + 1" "\<forall>s \<in> set ss. clip_left c \<le> fst s \<and> snd s \<le> clip_right c"
    "triangle_sweep_edges l r (16 * f + 8) (16 * h + 8) c1 = map_option (\<lambda>c. ((l', r'), c)) (draw_rows ss c1)"
    using sweep_edges_draw [of f h c1 l r] r m unfolding target_clip [OF i1(1)] by auto
  have in1: "rows_in_scissor c f ss" using ss r by (auto simp: rows_in_scissor_def)
  have "draws_clipped c (Option.bind (Option.bind (call_init_y c f) (draw_rows ss)) (lower_part other h g (l', r')))"
  proof (rule sweep_twice [OF in1 refl d])
    fix c2 assume t2: "target c2 = target c"
    have in2: "rows_in_scissor c f (ss @ ss')" if "int (length ss') = g - h" "\<forall>s \<in> set ss'. clip_left c \<le> fst s \<and> snd s \<le> clip_right c" for ss'
      using that ss(1,2) r by (auto simp: rows_in_scissor_def)
    show "lower_part other h g (l', r') c2 = Some c2 \<or>
      (\<exists>ss'. rows_in_scissor c f (ss @ ss') \<and> lower_part other h g (l', r') c2 = draw_rows ss' c2)"
      using lower_part_draw [of other h g "(l', r')" c2] r m in2 unfolding target_clip [OF t2] by fastforce
  qed
  moreover have "?r = Option.bind (Option.bind (call_init_y c f) (draw_rows ss)) (lower_part other h g (l', r'))"
    by (simp add: Some ss(3) map_option_case split: option.split)
  ultimately show ?thesis by simp
qed

lemma big_triangle_clipped:
  assumes d: "drawable c" and v: "big_vertex v0" "big_vertex v1" "big_vertex v2"
  shows "draws_clipped c (trianglex_big c v0 v1 v2)"
proof -
  define t b where tb: "t = clip_top c" "b = clip_bottom c - 1"
  have m: "0 \<le> t" "t < 100000000" "- 1 \<le> b" "b < 100000000" using d by (auto simp: tb drawable_def)
  have lim: "s32 (TRI_FROM_INT (clip_top c) + 8) = 16 * t + 8" "s32 (TRI_FROM_INT (clip_bottom c) - 8) = 16 * b + 8"
    using m by (simp_all add: TRI_FROM_INT_def tb s32_id' algebra_simps)
  obtain es es1 es2 where es: "edge_setup [] v0 v1 (16 * t + 8) (16 * b + 8) = Some es1"
    "edge_setup es1 v0 v2 (16 * t + 8) (16 * b + 8) = Some es2" "edge_setup es2 v1 v2 (16 * t + 8) (16 * b + 8) = Some es"
    "length es \<le> 3" "\<forall>e \<in> set es. edge_in t b e" "length es = 2 \<Longrightarrow> ed_y_bot (es ! 0) = ed_y_bot (es ! 1)"
    using big_edges [OF v m] by blast
  show ?thesis
  proof (cases "length es < 2")
    case True
    then show ?thesis using es by (simp add: trianglex_big_def lim draws_clipped_def)
  next
    case False
    then have "length es = 2 \<or> length es = 3" using es(4) by linarith
    from choose_edges_rows [OF this es(5,6)] obtain l r other f g i j where
      ce: "choose_edges es = ((l, r, other), 16 * f + 8, 16 * g + 8)" and
      ij: "ed_y_bot l = 16 * i + 8" "ed_y_bot r = 16 * j + 8" "t \<le> f" "f \<le> i" "f \<le> j" "i \<le> g" "j \<le> g" "g \<le> b" "other = None \<longrightarrow> min i j = g"
      by blast
    define h where "h = min i j"
    have h: "f \<le> h" "h \<le> g" using ij by (auto simp: h_def)
    have mid: "min (ed_y_bot l) (ed_y_bot r) = 16 * h + 8" "s32 (16 * h + 8 + 16) = 16 * (h + 1) + 8"
      using ij h m by (auto simp: h_def min_def s32_id' algebra_simps)
    have mid': "s32 (24 + 16 * h) = 24 + 16 * h" using ij h m by (simp add: s32_id')
    have run: "trianglex_big c v0 v1 v2 = do { c1 \<leftarrow> call_init_y c f;
        (e, c2) \<leftarrow> triangle_sweep_edges l r (16 * f + 8) (16 * h + 8) c1; lower_part other h g e c2 }"
      using False by (simp add: trianglex_big_def lim es(1-3) ce mid mid' lower_part_def Let_def case_prod_beta cong: bind_option_cong if_cong)
    show ?thesis unfolding run
      by (rule both_parts_clipped [OF d]) (use ij h in \<open>auto simp: tb h_def\<close>)
  qed
qed

text \<open>An 8 by 8 buffer of 565 pixels at address 64, drawn by the generic pipeline.\<close>

definition small_target :: context_t where
  "small_target = (let c = ggl_init_context (\<lambda>_. 0); s = state c; b = buffers s in
     c\<lparr>scanline_ptr := Scanline, state := s\<lparr>
       buffers := b\<lparr>fb_color := (fb_color b)\<lparr>sf_width := 8, sf_height := 8, sf_stride := 8, sf_data := 64, sf_format := 4\<rparr>\<rparr>,
       scissor := (scissor s)\<lparr>sc_left := 1, sc_right := 7, sc_top := 1, sc_bottom := 6\<rparr>\<rparr>\<rparr>)"

lemma small_target_drawable: "drawable small_target"
proof -
  have "fm_size (the_format 4) = 2" by (simp add: fits_size_565 mk_format_def)
  then show ?thesis
    by (simp add: small_target_def Let_def drawable_def cb_ok_def cb_size_def active_span_def span_fits_def clip_left_def clip_right_def
      clip_top_def clip_bottom_def)
qed

subsection \<open>Triangles and lines as properties\<close>

text \<open>C30. A big triangle is drawn as one sequence of rows inside the scissor. For vertices within 4095
  pixels of the origin the division of an edge's slope returns, the third edge is read only when it was set
  up, and the two sweeps give the spans of consecutive rows: from \<^verbatim>\<open>init_y\<close> on the first row each row is
  drawn when its span is not empty and stepped over, the rows lie between the top and the bottom of the
  scissor and the spans between its left and right. So when the call returns, no byte of memory outside the
  colour and depth pixels of the scissor has changed, and the target of drawing is the same.\<close>

theorem big_triangle_in_scissor:
  assumes "drawable c" "big_vertex v0" "big_vertex v1" "big_vertex v2"
  shows "draws_clipped c (trianglex_big c v0 v1 v2) \<and>
    pred_option (safe_draw c) (trianglex_big c v0 v1 v2)"
  using big_triangle_clipped [OF assms] draws_clipped_safe [OF assms(1)] by (cases "trianglex_big c v0 v1 v2") auto

theorem big_triangle_in_scissor_witness:
  "draws_clipped small_target (trianglex_big small_target (-320, 16) (1000, 40) (16, 2000)) \<and>
   pred_option (safe_draw small_target) (trianglex_big small_target (-320, 16) (1000, 40) (16, 2000))"
  using big_triangle_in_scissor [OF small_target_drawable, of "(-320, 16)" "(1000, 40)" "(16, 2000)"]
  by (simp add: big_vertex_def)

text \<open>The corners of a line.\<close>

lemma TRI_ROUND_range: "0 \<le> w \<Longrightarrow> w < 65520 \<Longrightarrow> 0 \<le> TRI_ROUND w div 2 \<and> TRI_ROUND w div 2 \<le> 32760"
  by (simp add: TRI_ROUND_def TRI_FLOOR_def s32_id' minus_mod_eq_mult_div)

text \<open>C31. A line keeps to the scissor: its ends within 2047 pixels of the origin and its width below 4095
  pixels, the two big triangles it is made of have vertices whose differences do not wrap, and when the call
  returns only bytes of pixels of the scissor have changed.\<close>

theorem line_in_scissor:
  assumes d: "drawable c" and w: "0 \<le> width" "width < 65520"
    and v: "\<bar>fst v0\<bar> \<le> 32767" "\<bar>snd v0\<bar> \<le> 32767" "\<bar>fst v1\<bar> \<le> 32767" "\<bar>snd v1\<bar> \<le> 32767"
  shows "pred_option (safe_draw c) (linex c v0 v1 width)"
  unfolding option.pred_set
proof (intro ballI)
  fix c' assume "c' \<in> set_option (linex c v0 v1 width)"
  then have r: "linex c v0 v1 width = Some c'" by (simp add: elem_set)
  define h where "h = (if TRI_ROUND width div 2 = 0 then 8 else TRI_ROUND width div 2)"
  have h: "0 < h" "h \<le> 32760" using TRI_ROUND_range [OF w] by (auto simp: h_def)
  define n where "n = (if s32 \<bar>s32 (fst v0 - fst v1)\<bar> > s32 \<bar>s32 (snd v0 - snd v1)\<bar> then (0, h) else (h, 0))"
  define q where "q = line_quad v0 v1 n"
  have n': "0 \<le> fst n" "fst n \<le> 32760" "0 \<le> snd n" "snd n \<le> 32760" using h by (auto simp: n_def)
  have big: "big_vertex (q ! 0)" "big_vertex (q ! 1)" "big_vertex (q ! 2)" "big_vertex (q ! 3)"
    using n' v by (auto simp: q_def line_quad_def big_vertex_def s32_id' abs_le_iff)
  have l: "Option.bind (trianglex_big c (q ! 0) (q ! 1) (q ! 2)) (\<lambda>c. trianglex_big c (q ! 0) (q ! 2) (q ! 3)) = Some c'"
    using r unfolding linex_def Let_def h_def [symmetric] n_def [symmetric] q_def [symmetric] .
  obtain c1 where c1: "trianglex_big c (q ! 0) (q ! 1) (q ! 2) = Some c1" "trianglex_big c1 (q ! 0) (q ! 2) (q ! 3) = Some c'"
    using l by (rule bind_SomeE)
  have s1: "safe_draw c c1" using big_triangle_clipped [OF d big(1,2,3)] unfolding c1(1) by (rule draws_clipped_safe [OF d])
  then have d1: "drawable c1" using d target_clip(5) [of c1 c] by (simp add: safe_draw_def)
  have "safe_draw c1 c'" using big_triangle_clipped [OF d1 big(1,3,4)] unfolding c1(2) by (rule draws_clipped_safe [OF d1])
  with s1 show "safe_draw c c'" by (rule safe_draw_trans)
qed

theorem line_in_scissor_witness:
  "pred_option (safe_draw small_target) (linex small_target (-100, 20) (300, 90) 24)"
  using line_in_scissor [OF small_target_drawable, of 24 "(-100, 20)" "(300, 90)"] by simp

end
