(* ===== verification/GGLDraw.thy ===== *)
theory GGLDraw
  imports GGLPrimitives
begin

text \<open>
  From the state calls to the pixels: the composition of the state machine of the rasterizer (validation
  selects a pipeline that fits the buffers) with the rasterization of triangles (spans stay in the scissor).
\<close>

subsection \<open>What a validation keeps\<close>

text \<open>The part of the context that decides which bytes are pixels of the scissor.\<close>

definition geometry :: "context_t \<Rightarrow> (u32 \<times> u32 \<times> int \<times> int \<times> nat) \<times> surface_t \<times> scissor_t \<times> u32 \<times> mask_state_t" where
  "geometry c = (let s = color_surface c in ((sf_width s, sf_height s, sf_stride s, sf_data s, sf_format s),
     fb_depth (buffers (state c)), scissor (state c), enables (state c), mask_state (state c)))"

definition scissor_ok :: "context_t \<Rightarrow> bool" where
  "scissor_ok c \<longleftrightarrow> 0 \<le> clip_left c \<and> clip_right c \<le> uint (sf_width (color_surface c)) \<and>
     0 \<le> clip_top c \<and> clip_bottom c \<le> uint (sf_height (color_surface c)) \<and> clip_top c < 100000000 \<and> 0 \<le> clip_bottom c \<and> clip_bottom c < 100000000"

lemma geometry_fields:
  assumes "geometry c' = geometry c"
  shows "sf_width (color_surface c') = sf_width (color_surface c)" "sf_height (color_surface c') = sf_height (color_surface c)"
    "sf_stride (color_surface c') = sf_stride (color_surface c)" "sf_data (color_surface c') = sf_data (color_surface c)"
    "sf_format (color_surface c') = sf_format (color_surface c)" "fb_depth (buffers (state c')) = fb_depth (buffers (state c))"
    "scissor (state c') = scissor (state c)" "enables (state c') = enables (state c)" "mask_state (state c') = mask_state (state c)"
  using assms by (simp_all add: geometry_def Let_def)

lemma geometry_clip:
  assumes "geometry c' = geometry c"
  shows "cb_ok c' = cb_ok c" "scissor_ok c' = scissor_ok c" "scissor_bytes c' = scissor_bytes c"
proof -
  note g = geometry_fields [OF assms]
  have s: "cb_size c' = cb_size c" by (simp add: cb_size_def g)
  then show "cb_ok c' = cb_ok c" by (simp add: cb_ok_def g Let_def)
  have cl: "clip_left c' = clip_left c" "clip_right c' = clip_right c" "clip_top c' = clip_top c" "clip_bottom c' = clip_bottom c"
    by (simp_all add: clip_left_def clip_right_def clip_top_def clip_bottom_def g)
  then show "scissor_ok c' = scissor_ok c" by (simp add: scissor_ok_def g)
  have "depth_bytes c' = depth_bytes c" by (simp add: depth_bytes_def g fun_eq_iff Let_def)
  then have "pixel_bytes c' = pixel_bytes c" by (simp add: pixel_bytes_def cb_index_def g s fun_eq_iff)
  then have "row_bytes c' = row_bytes c" by (simp add: row_bytes_def fun_eq_iff)
  then show "scissor_bytes c' = scissor_bytes c" by (simp add: scissor_bytes_def cl)
qed

lemma pick_frame: "geometry (ggl_pick c) = geometry c" "memory (ggl_pick c) = memory c"
proof -
  have sl: "geometry (ggl_pick_scanline c) = geometry c" "memory (ggl_pick_scanline c) = memory c" for c
    by (simp_all add: ggl_pick_scanline_def pick_scanline_def Let_def case_prod_beta geometry_def)
  have cb: "geometry (ggl_pick_cb c) = geometry c" "memory (ggl_pick_cb c) = memory c" for c
    by (simp_all add: ggl_pick_cb_def Let_def geometry_def upd_state_def pick_read_write_def)
  have tx: "geometry (pick_texture_unit c i) = geometry c" "memory (pick_texture_unit c i) = memory c" for c i
    by (simp_all add: pick_texture_unit_def Let_def geometry_def upd_state_def upd_tmu_def)
  have nd: "geometry (upd_state (\<lambda>s. s\<lparr>needs := n\<rparr>) c) = geometry c" "memory (upd_state (\<lambda>s. s\<lparr>needs := n\<rparr>) c) = memory c" for n
    by (simp_all add: geometry_def upd_state_def)
  have dt: "geometry (c\<lparr>dirty := d\<rparr>) = geometry c" for c d by (simp add: geometry_def)
  show "geometry (ggl_pick c) = geometry c" "memory (ggl_pick c) = memory c"
    by (simp_all add: ggl_pick_def Let_def ggl_pick_texture_def sl cb tx nd dt)
qed

lemma validate_frame: "geometry (trianglex_validate c) = geometry c" "memory (trianglex_validate c) = memory c"
  using pick_frame [of c] by (simp_all add: trianglex_validate_def Let_def geometry_def)

lemma pick_texture0:
  assumes "ggl_reachable al c"
  shows "tx_enable (texture (state (ggl_pick c)) ! 0) = tx_enable (texture (state c) ! 0)"
    "sf_format (tx_surface (texture (state (ggl_pick c)) ! 0)) = sf_format (tx_surface (texture (state c) ! 0))"
proof -
  have l: "length (texture (state c)) = 2" using reachable_inv [OF assms] by (simp add: ggl_inv_def ctx_ok_def)
  have tx: "tx_enable (texture (state (pick_texture_unit c i)) ! 0) = tx_enable (texture (state c) ! 0)"
    "sf_format (tx_surface (texture (state (pick_texture_unit c i)) ! 0)) = sf_format (tx_surface (texture (state c) ! 0))"
    "length (texture (state (pick_texture_unit c i))) = length (texture (state c))" if "length (texture (state c)) = 2" for c i
    using that by (cases i; simp add: pick_texture_unit_def Let_def upd_state_def upd_tmu_def pick_read_write_def)+
  have st: "texture (state (ggl_pick_scanline c)) = texture (state c)" "texture (state (ggl_pick_cb c)) = texture (state c)" for c
    by (simp_all add: ggl_pick_scanline_def pick_scanline_def ggl_pick_cb_def Let_def case_prod_beta upd_state_def)
  have nd: "texture (state (upd_state (\<lambda>s. s\<lparr>needs := n\<rparr>) c)) = texture (state c)" for n by (simp add: upd_state_def)
  show "tx_enable (texture (state (ggl_pick c)) ! 0) = tx_enable (texture (state c) ! 0)"
    "sf_format (tx_surface (texture (state (ggl_pick c)) ! 0)) = sf_format (tx_surface (texture (state c) ! 0))"
    using l by (simp_all add: ggl_pick_def Let_def ggl_pick_texture_def st tx nd)
qed

lemma drawable_parts:
  "drawable c \<longleftrightarrow> cb_ok c \<and> (\<exists>t. span_fits (active_span c) (sf_format (color_surface c)) t) \<and> scissor_ok c"
  by (simp add: drawable_def scissor_ok_def)

text \<open>A context that the calls of the table reach, after validation, can draw.\<close>

lemma validated_drawable:
  assumes r: "ggl_reachable al c" and d: "dirty c = 0" and f: "cb_format (state c) < 64"
    and t: "tx_enable (texture (state c) ! 0) \<Longrightarrow> sf_format (tx_surface (texture (state c) ! 0)) < 64"
    and ok: "cb_ok c" "scissor_ok c"
  shows "drawable c"
  using reachable_fits [OF r d f t] ok by (auto simp: drawable_parts)

subsection \<open>Drawing after any calls\<close>

definition keeps_outside :: "int set \<Rightarrow> context_t \<Rightarrow> context_t \<Rightarrow> bool" where
  "keeps_outside A c c' \<longleftrightarrow> (\<forall>b. b \<notin> A \<longrightarrow> memory c' b = memory c b)"



end
