(* ===== verification/GGLRaster.thy ===== *)
theory GGLRaster
  imports GGLPrimitives
begin

text \<open>
  The raster operations of \<^verbatim>\<open>libpixelflinger/raster.cpp\<close>: the raster position, the copy of a rectangle of
  pixels inside the colour buffer, and the blit of a texture. \<^term>\<open>None\<close> is undefined behaviour: a
  \<^verbatim>\<open>memcpy\<close> of overlapping ranges or a division by zero.
\<close>


subsection \<open>The raster position\<close>

definition ggl_rasterPos2x :: "context_t \<Rightarrow> int \<Rightarrow> int \<Rightarrow> context_t" where
  "ggl_rasterPos2x c x y = upd_state (\<lambda>s. s\<lparr>raster_x := x, raster_y := y\<rparr>) c"

definition ggl_rasterPos2i :: "context_t \<Rightarrow> int \<Rightarrow> int \<Rightarrow> context_t" where
  "ggl_rasterPos2i c x y = ggl_rasterPos2x c (gglIntToFixed x) (gglIntToFixed y)"

subsection \<open>Copying pixels\<close>

definition memmove :: "(int \<Rightarrow> u8) \<Rightarrow> int \<Rightarrow> int \<Rightarrow> nat \<Rightarrow> int \<Rightarrow> u8" where
  "memmove m dst src n = (\<lambda>b. if dst \<le> b \<and> b < dst + int n then m (src + (b - dst)) else m b)"

text \<open>The three loops over the rows: bottom to top, within the same rows, top to bottom.\<close>

fun copy_rows_up :: "nat \<Rightarrow> int \<Rightarrow> int \<Rightarrow> int \<Rightarrow> nat \<Rightarrow> (int \<Rightarrow> u8) \<Rightarrow> (int \<Rightarrow> u8) option" where
  "copy_rows_up 0 dst src bpr n m = Some m"
| "copy_rows_up (Suc k) dst src bpr n m = do {
     m \<leftarrow> memcpy m (dst - bpr) (src - bpr) n;
     copy_rows_up k (dst - bpr) (src - bpr) bpr n m
   }"

fun move_rows :: "nat \<Rightarrow> int \<Rightarrow> int \<Rightarrow> int \<Rightarrow> nat \<Rightarrow> (int \<Rightarrow> u8) \<Rightarrow> int \<Rightarrow> u8" where
  "move_rows 0 dst src bpr n m = m"
| "move_rows (Suc k) dst src bpr n m = move_rows k (dst + bpr) (src + bpr) bpr n (memmove m dst src n)"

fun copy_rows_down :: "nat \<Rightarrow> int \<Rightarrow> int \<Rightarrow> int \<Rightarrow> nat \<Rightarrow> (int \<Rightarrow> u8) \<Rightarrow> (int \<Rightarrow> u8) option" where
  "copy_rows_down 0 dst src bpr n m = Some m"
| "copy_rows_down (Suc k) dst src bpr n m = do {
     m \<leftarrow> memcpy m dst src n;
     copy_rows_down k (dst + bpr) (src + bpr) bpr n m
   }"

text \<open>The rectangle after clipping the destination to the scissor.\<close>

record copy_rect =
  cr_xs :: int
  cr_ys :: int
  cr_xd :: int
  cr_yd :: int
  cr_width :: int
  cr_height :: int

definition copy_clip :: "context_t \<Rightarrow> int \<Rightarrow> int \<Rightarrow> int \<Rightarrow> int \<Rightarrow> copy_rect" where
  "copy_clip c xs ys width height =
     (let xd = gglFixedToIntRound (raster_x (state c)); yd = gglFixedToIntRound (raster_y (state c));
          (xd, xs, width) = (if xd < clip_left c
             then (clip_left c, s32 (xs + s32 (clip_left c - xd)), s32 (width - s32 (clip_left c - xd))) else (xd, xs, width));
          (yd, ys, height) = (if yd < clip_top c
             then (clip_top c, s32 (ys + s32 (clip_top c - yd)), s32 (height - s32 (clip_top c - yd))) else (yd, ys, height));
          width = (if s32 (xd + width) > clip_right c then s32 (clip_right c - xd) else width);
          height = (if s32 (yd + height) > clip_bottom c then s32 (clip_bottom c - yd) else height)
      in \<lparr>cr_xs = xs, cr_ys = ys, cr_xd = xd, cr_yd = yd, cr_width = width, cr_height = height\<rparr>)"

definition u32_of :: "int \<Rightarrow> int" where "u32_of x = x mod 2 ^ 32"

definition copy_rect_rows :: "context_t \<Rightarrow> copy_rect \<Rightarrow> context_t option" where
  "copy_rect_rows c r =
     (let cb = fb_color (buffers (state c)); sz = int (cb_size c); h = cr_height r;
          src = sf_data cb + s32 (s32 (cr_xs r + s32 (sf_stride cb * cr_ys r)) * sz);
          dst = sf_data cb + s32 (s32 (cr_xd r + s32 (sf_stride cb * cr_yd r)) * sz);
          bpr = s32 (sf_stride cb * sz);
          n = nat (cr_width r * sz) in do {
        m \<leftarrow> (if cr_ys r < cr_yd r then copy_rows_up (nat h) (dst + h * bpr) (src + h * bpr) bpr n (memory c)
             else if cr_ys r = cr_yd r then Some (move_rows (nat h) dst src bpr n (memory c))
             else copy_rows_down (nat h) dst src bpr n (memory c));
        Some (c\<lparr>memory := m\<rparr>)
      })"

definition ggl_copyPixels :: "context_t \<Rightarrow> int \<Rightarrow> int \<Rightarrow> int \<Rightarrow> int \<Rightarrow> nat \<Rightarrow> context_t option" where
  "ggl_copyPixels c xs ys width height type =
     (let cb = fb_color (buffers (state c)) in
      if u32_of xs > uint (sf_width cb) then Some c
      else if u32_of ys > uint (sf_height cb) then Some c
      else if u32_of (xs + width) > uint (sf_width cb) then Some c
      else if u32_of (ys + height) > uint (sf_height cb) then Some c
      else
        let r = copy_clip c xs ys width height in
        if cr_width r \<le> 0 \<or> cr_height r \<le> 0 then Some c
        else if cr_xs r = cr_xd r \<and> cr_ys r = cr_yd r then Some c
        else copy_rect_rows c r)"

subsection \<open>Blitting\<close>

text \<open>The set-up of \<^verbatim>\<open>gglBitBlit\<close>: the unit is made the only enabled one. \<^verbatim>\<open>1UL<<tmu\<close> is computed on
  64 bits and stored into 32; a negative or too large shift is undefined.\<close>

definition blit_unit :: "context_t \<Rightarrow> nat \<Rightarrow> context_t" where
  "blit_unit c tmu =
     (let c = ggl_disable (ggl_activeTexture c tmu) GGL_W_LERP; tmus = push_bit tmu 1 :: u32 in
      if enabled_tmu (state c) \<noteq> tmus then
        ggl_state_changed (upd_state (\<lambda>s. s\<lparr>enabled_tmu := tmus, enables := enables s OR GGL_ENABLE_TMUS\<rparr>)
          (upd_tmu (activeTMU c) (\<lambda>t. t\<lparr>tx_enable := True\<rparr>) c)) GGL_TMU_STATE
      else c)"

definition gglBitBlit :: "context_t \<Rightarrow> nat \<Rightarrow> int list \<Rightarrow> int list \<Rightarrow> (int \<times> context_t) option" where
  "gglBitBlit c tmu crop where' =
     (let x = where' ! 0; y = where' ! 1; w = where' ! 2; h = where' ! 3; c = blit_unit c tmu in
      map_option (Pair 0)
        (if w = crop ! 2 \<and> h = crop ! 3 then
           let c = ggl_texGeni c GGL_S GGL_TEXTURE_GEN_MODE GGL_ONE_TO_ONE;
               c = ggl_texGeni c GGL_T GGL_TEXTURE_GEN_MODE GGL_ONE_TO_ONE;
               c = ggl_texCoord2i c (s32 (crop ! 0 - x)) (s32 (crop ! 1 - y))
           in call_recti c x y (s32 (x + w)) (s32 (y + h))
         else
           let x = gglIntToFixed x; y = gglIntToFixed y;
               c = ggl_texParameteri c GGL_TEXTURE_2D GGL_TEXTURE_WRAP_S GGL_CLAMP;
               c = ggl_texParameteri c GGL_TEXTURE_2D GGL_TEXTURE_WRAP_T GGL_CLAMP;
               c = ggl_texGeni c GGL_S GGL_TEXTURE_GEN_MODE GGL_AUTOMATIC;
               c = ggl_texGeni c GGL_T GGL_TEXTURE_GEN_MODE GGL_AUTOMATIC;
               Ucr = s32 (crop ! 0 * 2 ^ 16); Vcr = s32 (crop ! 1 * 2 ^ 16);
               Wcr = s32 (crop ! 2 * 2 ^ 16); Hcr = s32 (crop ! 3 * 2 ^ 16) in
           if w = 0 \<or> h = 0 then None
           else
             let dsdx = Wcr sdiv w; dtdy = Hcr sdiv h;
                 s0 = s32 (Ucr - gglMulx dsdx x 16); t0 = s32 (Vcr - gglMulx dtdy y 16);
                 c = ggl_texCoordGradScale8xv c tmu [s0, dsdx, 0, t0, 0, dtdy, 0, 0]
             in call_recti c (gglFixedToIntRound x) (gglFixedToIntRound y)
                  (s32 (gglFixedToIntRound x + w)) (s32 (gglFixedToIntRound y + h))))"

subsection \<open>Copying rows\<close>

text \<open>The memory after the rows \<open>0\<close> to \<open>k - 1\<close> of a rectangle have been copied at once: row \<open>j\<close> starts at
  \<open>d + j * bpr\<close> and its source \<open>delta\<close> bytes before.\<close>

definition in_rows :: "nat \<Rightarrow> int \<Rightarrow> int \<Rightarrow> nat \<Rightarrow> int \<Rightarrow> bool" where
  "in_rows k d bpr n b \<longleftrightarrow> (\<exists>j < k. d + int j * bpr \<le> b \<and> b < d + int j * bpr + int n)"

definition rect_copied :: "nat \<Rightarrow> int \<Rightarrow> int \<Rightarrow> nat \<Rightarrow> int \<Rightarrow> (int \<Rightarrow> u8) \<Rightarrow> int \<Rightarrow> u8" where
  "rect_copied k d bpr n delta m = (\<lambda>b. if in_rows k d bpr n b then m (b - delta) else m b)"

lemma in_rows_Suc: "in_rows (Suc k) d bpr n b \<longleftrightarrow> in_rows k d bpr n b \<or> d + int k * bpr \<le> b \<and> b < d + int k * bpr + int n"
  by (auto simp: in_rows_def less_Suc_eq)

lemma in_rows_0: "in_rows (Suc k) d bpr n b \<longleftrightarrow> d \<le> b \<and> b < d + int n \<or> in_rows k (d + bpr) bpr n b"
proof -
  have e: "(\<exists>j < Suc k. P j) \<longleftrightarrow> P 0 \<or> (\<exists>j < k. P (Suc j))" for P using Ex_less_Suc2 by blast
  show ?thesis unfolding in_rows_def e by (simp add: algebra_simps)
qed

lemma memcpy_back:
  assumes "int n \<le> delta \<or> delta \<le> - int n"
  shows "memcpy m d (d - delta) n = Some (\<lambda>b. if d \<le> b \<and> b < d + int n then m (b - delta) else m b)"
proof -
  have "(\<lambda>b. if d \<le> b \<and> b < d + int n then m (d - delta + (b - d)) else m b) = (\<lambda>b. if d \<le> b \<and> b < d + int n then m (b - delta) else m b)"
    by (rule ext) (simp add: algebra_simps)
  then show ?thesis using assms by (auto simp: memcpy_def)
qed

lemma copy_rows_up_correct:
  assumes "int n \<le> delta" "0 \<le> bpr"
  shows "copy_rows_up k (d + int k * bpr) (d - delta + int k * bpr) bpr n m = Some (rect_copied k d bpr n delta m)"
proof (induction k arbitrary: m)
  case 0
  then show ?case by (simp add: rect_copied_def in_rows_def)
next
  case (Suc k)
  define m1 where "m1 = (\<lambda>b. if d + int k * bpr \<le> b \<and> b < d + int k * bpr + int n then m (b - delta) else m b)"
  have c: "memcpy m (d + int k * bpr) (d - delta + int k * bpr) n = Some m1"
    using memcpy_back [of n delta m "d + int k * bpr"] assms by (simp add: m1_def algebra_simps)
  have keep: "m1 (b - delta) = m (b - delta)" if rows: "in_rows k d bpr n b" for b
  proof -
    obtain j where j: "j < k" "b < d + int j * bpr + int n" using rows unfolding in_rows_def by blast
    have "int j * bpr \<le> int k * bpr" using j assms(2) by (intro mult_right_mono) auto
    then show ?thesis using j assms(1) by (simp add: m1_def)
  qed
  have "copy_rows_up (Suc k) (d + int (Suc k) * bpr) (d - delta + int (Suc k) * bpr) bpr n m = Some (rect_copied k d bpr n delta m1)"
    using Suc.IH [of m1] c by (simp add: algebra_simps)
  also have "rect_copied k d bpr n delta m1 = rect_copied (Suc k) d bpr n delta m"
    by (rule ext) (simp add: rect_copied_def in_rows_Suc keep, simp add: m1_def)
  finally show ?case .
qed

lemma copy_rows_down_correct:
  assumes "delta \<le> - int n" "0 \<le> bpr"
  shows "copy_rows_down k d (d - delta) bpr n m = Some (rect_copied k d bpr n delta m)"
proof (induction k arbitrary: d m)
  case 0
  then show ?case by (simp add: rect_copied_def in_rows_def)
next
  case (Suc k)
  define m1 where "m1 = (\<lambda>b. if d \<le> b \<and> b < d + int n then m (b - delta) else m b)"
  have c: "memcpy m d (d - delta) n = Some m1" using memcpy_back [of n delta m d] assms by (simp add: m1_def)
  have keep: "m1 (b - delta) = m (b - delta)" if rows: "in_rows k (d + bpr) bpr n b" for b
  proof -
    obtain j where j: "j < k" "d + bpr + int j * bpr \<le> b" using rows unfolding in_rows_def by blast
    have "0 \<le> int j * bpr" using assms(2) by simp
    then have "\<not> b - delta < d + int n" using j assms by linarith
    then show ?thesis by (simp add: m1_def)
  qed
  have "copy_rows_down (Suc k) d (d - delta) bpr n m = Some (rect_copied k (d + bpr) bpr n delta m1)"
    using Suc.IH [of "d + bpr" m1] c by (simp add: algebra_simps)
  also have "rect_copied k (d + bpr) bpr n delta m1 = rect_copied (Suc k) d bpr n delta m"
    by (rule ext) (simp add: rect_copied_def in_rows_0 keep, simp add: m1_def)
  finally show ?case .
qed

lemma move_rows_correct:
  assumes "delta + int n \<le> bpr" "- delta + int n \<le> bpr"
  shows "move_rows k d (d - delta) bpr n m = rect_copied k d bpr n delta m"
proof (induction k arbitrary: d m)
  case 0
  then show ?case by (simp add: rect_copied_def in_rows_def)
next
  case (Suc k)
  define m1 where "m1 = memmove m d (d - delta) n"
  have m1: "m1 b = (if d \<le> b \<and> b < d + int n then m (b - delta) else m b)" for b by (simp add: m1_def memmove_def algebra_simps)
  have keep: "m1 (b - delta) = m (b - delta)" if rows: "in_rows k (d + bpr) bpr n b" for b
  proof -
    obtain j where j: "j < k" "d + bpr + int j * bpr \<le> b" using rows unfolding in_rows_def by blast
    have "0 \<le> bpr" using assms by linarith
    then have "0 \<le> int j * bpr" by simp
    then have "\<not> b - delta < d + int n" using j assms by linarith
    then show ?thesis by (simp add: m1)
  qed
  have "move_rows (Suc k) d (d - delta) bpr n m = rect_copied k (d + bpr) bpr n delta m1"
    using Suc.IH [of "d + bpr" m1] by (simp add: m1_def [symmetric] algebra_simps)
  also have "\<dots> = rect_copied (Suc k) d bpr n delta m"
    by (rule ext) (simp add: rect_copied_def in_rows_0 keep, simp add: m1)
  finally show ?case .
qed

subsection \<open>The clipped rectangle\<close>

text \<open>A call whose source lies in the buffer, with the scissor inside the buffer and a raster position
  that the arithmetic of the clipping holds.\<close>

definition copy_ok :: "context_t \<Rightarrow> int \<Rightarrow> int \<Rightarrow> int \<Rightarrow> int \<Rightarrow> bool" where
  "copy_ok c xs ys width height \<longleftrightarrow> (let W = uint (sf_width (color_surface c)); H = uint (sf_height (color_surface c)) in
     cb_ok c \<and> W < 2 ^ 29 \<and> H < 2 ^ 29 \<and> 0 \<le> xs \<and> 0 \<le> width \<and> xs + width \<le> W \<and> 0 \<le> ys \<and> 0 \<le> height \<and> ys + height \<le> H \<and>
     0 \<le> clip_left c \<and> clip_left c \<le> W \<and> 0 \<le> clip_right c \<and> clip_right c \<le> W \<and>
     0 \<le> clip_top c \<and> clip_top c \<le> H \<and> 0 \<le> clip_bottom c \<and> clip_bottom c \<le> H \<and>
     \<bar>raster_x (state c)\<bar> < 2 ^ 30 \<and> \<bar>raster_y (state c)\<bar> < 2 ^ 30)"

definition rect_ok :: "context_t \<Rightarrow> int \<Rightarrow> int \<Rightarrow> int \<Rightarrow> int \<Rightarrow> copy_rect \<Rightarrow> bool" where
  "rect_ok c xs ys width height r \<longleftrightarrow>
     xs \<le> cr_xs r \<and> cr_xs r + cr_width r \<le> xs + width \<and> ys \<le> cr_ys r \<and> cr_ys r + cr_height r \<le> ys + height \<and>
     clip_left c \<le> cr_xd r \<and> cr_xd r + cr_width r \<le> clip_right c \<and> clip_top c \<le> cr_yd r \<and> cr_yd r + cr_height r \<le> clip_bottom c"

lemma round_range: "\<bar>f\<bar> < 2 ^ 30 \<Longrightarrow> \<bar>gglFixedToIntRound f\<bar> \<le> 16385"
proof -
  assume f: "\<bar>f\<bar> < 2 ^ 30"
  then have "s32 (f + 32768) = f + 32768" by (intro s32_id') auto
  then show ?thesis using f by (simp add: gglFixedToIntRound_def abs_le_iff) linarith
qed

lemma clip_axis:
  fixes x0 s w L R W :: int
  assumes "\<bar>x0\<bar> \<le> 16385" "0 \<le> s" "0 \<le> w" "s + w \<le> W" "W < 2 ^ 29" "0 \<le> L" "L \<le> W" "0 \<le> R" "R \<le> W"
    and "(xd, xs, w1) = (if x0 < L then (L, s32 (s + s32 (L - x0)), s32 (w - s32 (L - x0))) else (x0, s, w))"
    and "w2 = (if s32 (xd + w1) > R then s32 (R - xd) else w1)" "0 < w2"
  shows "s \<le> xs \<and> xs + w2 \<le> s + w \<and> L \<le> xd \<and> xd + w2 \<le> R"
proof (cases "x0 < L")
  case True
  have "s32 (L - x0) = L - x0" "s32 (s + (L - x0)) = s + (L - x0)" "s32 (w - (L - x0)) = w - (L - x0)"
    "s32 (L + (w - (L - x0))) = L + (w - (L - x0))" "s32 (R - L) = R - L"
    using assms(1-9) by (simp_all add: s32_id')
  then show ?thesis using assms(10,11,12) True by (simp split: if_splits)
next
  case False
  have "s32 (x0 + w) = x0 + w" "s32 (R - x0) = R - x0" using assms(1-9) by (simp_all add: s32_id')
  then show ?thesis using assms(10,11,12) False by (simp split: if_splits)
qed

lemma copy_clip_ok:
  assumes "copy_ok c xs ys width height" "r = copy_clip c xs ys width height" "0 < cr_width r" "0 < cr_height r"
  shows "rect_ok c xs ys width height r"
proof -
  define x0 y0 where xy: "x0 = gglFixedToIntRound (raster_x (state c))" "y0 = gglFixedToIntRound (raster_y (state c))"
  have b: "\<bar>x0\<bar> \<le> 16385" "\<bar>y0\<bar> \<le> 16385" using assms(1) round_range by (auto simp: xy copy_ok_def Let_def)
  obtain xd xs' w1 where X: "(xd, xs', w1) = (if x0 < clip_left c
      then (clip_left c, s32 (xs + s32 (clip_left c - x0)), s32 (width - s32 (clip_left c - x0))) else (x0, xs, width))"
    by (metis surj_pair)
  obtain yd ys' h1 where Y: "(yd, ys', h1) = (if y0 < clip_top c
      then (clip_top c, s32 (ys + s32 (clip_top c - y0)), s32 (height - s32 (clip_top c - y0))) else (y0, ys, height))"
    by (metis surj_pair)
  define w2 h2 where wh: "w2 = (if s32 (xd + w1) > clip_right c then s32 (clip_right c - xd) else w1)"
    "h2 = (if s32 (yd + h1) > clip_bottom c then s32 (clip_bottom c - yd) else h1)"
  have r: "r = \<lparr>cr_xs = xs', cr_ys = ys', cr_xd = xd, cr_yd = yd, cr_width = w2, cr_height = h2\<rparr>"
    unfolding assms(2) copy_clip_def Let_def xy [symmetric] X [symmetric] Y [symmetric] prod.case wh ..
  have p: "0 < w2" "0 < h2" using assms(3,4) by (simp_all add: r)
  have "xs \<le> xs' \<and> xs' + w2 \<le> xs + width \<and> clip_left c \<le> xd \<and> xd + w2 \<le> clip_right c"
    using assms(1) clip_axis [OF b(1) _ _ _ _ _ _ _ _ X wh(1) p(1), of "uint (sf_width (color_surface c))"] by (simp add: copy_ok_def Let_def)
  moreover have "ys \<le> ys' \<and> ys' + h2 \<le> ys + height \<and> clip_top c \<le> yd \<and> yd + h2 \<le> clip_bottom c"
    using assms(1) clip_axis [OF b(2) _ _ _ _ _ _ _ _ Y wh(2) p(2), of "uint (sf_height (color_surface c))"] by (simp add: copy_ok_def Let_def)
  ultimately show ?thesis by (simp add: rect_ok_def r)
qed

subsection \<open>Copied pixels\<close>

text \<open>The pixels of the rectangle have the values that the source had before, and no other byte changes.\<close>

definition pixels_copied :: "context_t \<Rightarrow> copy_rect \<Rightarrow> (int \<Rightarrow> u8) \<Rightarrow> bool" where
  "pixels_copied c r m \<longleftrightarrow>
     (\<forall>i j k. 0 \<le> i \<and> i < cr_width r \<and> 0 \<le> j \<and> j < cr_height r \<and> 0 \<le> k \<and> k < int (cb_size c) \<longrightarrow>
        m (cb_index c (cr_xd r + i) (cr_yd r + j) + k) = memory c (cb_index c (cr_xs r + i) (cr_ys r + j) + k)) \<and>
     (\<forall>b. (\<forall>i j. 0 \<le> i \<and> i < cr_width r \<and> 0 \<le> j \<and> j < cr_height r \<longrightarrow>
        b \<notin> {cb_index c (cr_xd r + i) (cr_yd r + j) ..< cb_index c (cr_xd r + i) (cr_yd r + j) + int (cb_size c)}) \<longrightarrow> m b = memory c b)"

lemma cb_index_shift: "cb_index c (x + i) (y + j) = cb_index c x y + i * int (cb_size c) + j * (sf_stride (color_surface c) * int (cb_size c))"
  by (simp add: cb_index_def algebra_simps)

lemma rect_copied_pixels:
  assumes w: "0 < cr_width r" "0 < cr_height r" and sz: "0 < cb_size c"
    and n: "n = nat (cr_width r * int (cb_size c))" and b: "bpr = sf_stride (color_surface c) * int (cb_size c)"
    and d: "d = cb_index c (cr_xd r) (cr_yd r)" "delta = d - cb_index c (cr_xs r) (cr_ys r)"
  shows "pixels_copied c r (rect_copied (nat (cr_height r)) d bpr n delta (memory c))"
  unfolding pixels_copied_def
proof (intro conjI allI impI)
  have n': "int n = cr_width r * int (cb_size c)" using w n by simp
  note ix = cb_index_shift [of c "cr_xd r" _ "cr_yd r", folded b d(1)] cb_index_shift [of c "cr_xs r" _ "cr_ys r", folded b]
  fix i j k assume a: "0 \<le> i \<and> i < cr_width r \<and> 0 \<le> j \<and> j < cr_height r \<and> 0 \<le> k \<and> k < int (cb_size c)"
  have "(i + 1) * int (cb_size c) \<le> cr_width r * int (cb_size c)" using a by (intro mult_right_mono) auto
  then have "i * int (cb_size c) + k < int n" "0 \<le> i * int (cb_size c) + k" using a unfolding n' by (auto simp: distrib_right)
  moreover have e: "cb_index c (cr_xd r + i) (cr_yd r + j) + k - delta = cb_index c (cr_xs r + i) (cr_ys r + j) + k" by (simp add: ix d(2))
  ultimately have "in_rows (nat (cr_height r)) d bpr n (cb_index c (cr_xd r + i) (cr_yd r + j) + k)"
    unfolding in_rows_def using a by (intro exI [of _ "nat j"]) (simp add: ix)
  then show "rect_copied (nat (cr_height r)) d bpr n delta (memory c) (cb_index c (cr_xd r + i) (cr_yd r + j) + k) =
      memory c (cb_index c (cr_xs r + i) (cr_ys r + j) + k)"
    by (simp add: rect_copied_def e)
next
  have n': "int n = cr_width r * int (cb_size c)" using w n by simp
  fix b' assume out: "\<forall>i j. 0 \<le> i \<and> i < cr_width r \<and> 0 \<le> j \<and> j < cr_height r \<longrightarrow>
    b' \<notin> {cb_index c (cr_xd r + i) (cr_yd r + j) ..< cb_index c (cr_xd r + i) (cr_yd r + j) + int (cb_size c)}"
  have "\<not> in_rows (nat (cr_height r)) d bpr n b'"
  proof
    assume "in_rows (nat (cr_height r)) d bpr n b'"
    then obtain j where j: "j < nat (cr_height r)" "d + int j * bpr \<le> b'" "b' < d + int j * bpr + int n" unfolding in_rows_def by blast
    define o' where "o' = b' - (d + int j * bpr)"
    define i where "i = o' div int (cb_size c)"
    have o: "0 \<le> o'" "o' < cr_width r * int (cb_size c)" using j by (auto simp: o'_def n')
    have i0: "0 \<le> i" using sz o(1) by (simp add: i_def pos_imp_zdiv_nonneg_iff)
    have i: "0 \<le> i" "i * int (cb_size c) \<le> o'" "o' < i * int (cb_size c) + int (cb_size c)"
      using i0 sz pos_mod_bound [of "int (cb_size c)" o'] pos_mod_sign [of "int (cb_size c)" o'] div_mult_mod_eq [of o' "int (cb_size c)"]
      unfolding i_def by linarith+
    have "i * int (cb_size c) < cr_width r * int (cb_size c)" using i(2) o(2) by linarith
    then have "i < cr_width r" using sz by (simp add: mult_less_cancel_right)
    then have "b' \<notin> {cb_index c (cr_xd r + i) (cr_yd r + int j) ..< cb_index c (cr_xd r + i) (cr_yd r + int j) + int (cb_size c)}"
      using out i(1) j(1) by auto
    then show False using i(2,3) unfolding cb_index_shift [of c "cr_xd r" _ "cr_yd r", folded b d(1)] by (simp add: o'_def)
  qed
  then show "rect_copied (nat (cr_height r)) d bpr n delta (memory c) b' = memory c b'" by (simp add: rect_copied_def)
qed

lemma copy_distance:
  fixes xs xd w W stride sz ys yd :: int
  assumes "0 \<le> xs" "xs + w \<le> W" "0 \<le> xd" "xd + w \<le> W" "W \<le> stride" "0 < sz" "0 < w"
    and delta: "delta = (xd + stride * yd) * sz - (xs + stride * ys) * sz"
  shows "ys < yd \<Longrightarrow> w * sz \<le> delta" "yd < ys \<Longrightarrow> delta \<le> - (w * sz)"
    "ys = yd \<Longrightarrow> delta + w * sz \<le> stride * sz \<and> - delta + w * sz \<le> stride * sz"
proof -
  define A where "A = (xd - xs) * sz"
  have "(xd - xs + w) * sz \<le> stride * sz" "(xs - xd + w) * sz \<le> stride * sz" using assms(1-7) by (intro mult_right_mono; linarith)+
  then have A: "A + w * sz \<le> stride * sz" "- A + w * sz \<le> stride * sz" by (simp_all add: A_def algebra_simps)
  have B: "0 \<le> stride * sz" using assms(1-7) by (intro mult_nonneg_nonneg) linarith+
  have d: "delta = A + (stride * sz) * (yd - ys)" by (simp add: delta A_def algebra_simps)
  show "w * sz \<le> delta" if "ys < yd"
  proof -
    have "stride * sz * 1 \<le> stride * sz * (yd - ys)" using that B by (intro mult_left_mono) auto
    then show ?thesis using A unfolding d by linarith
  qed
  show "delta \<le> - (w * sz)" if "yd < ys"
  proof -
    have "stride * sz * (yd - ys) \<le> stride * sz * (- 1)" using that B by (intro mult_left_mono) auto
    then show ?thesis using A unfolding d by linarith
  qed
  show "delta + w * sz \<le> stride * sz \<and> - delta + w * sz \<le> stride * sz" if "ys = yd" using A that unfolding d by simp
qed

lemma stride_nonneg: "cb_ok c \<Longrightarrow> 0 \<le> sf_stride (color_surface c)"
  using order_trans [OF uint_ge_0] by (auto simp: cb_ok_def Let_def)

lemma copy_address:
  assumes ok: "cb_ok c" and x: "0 \<le> x" "x \<le> uint (sf_width (color_surface c))" and y: "0 \<le> y" "y < uint (sf_height (color_surface c))"
  shows "sf_data (color_surface c) + s32 (s32 (x + s32 (sf_stride (color_surface c) * y)) * int (cb_size c)) = cb_index c x y"
    "s32 (sf_stride (color_surface c) * int (cb_size c)) = sf_stride (color_surface c) * int (cb_size c)"
proof -
  let ?s = "color_surface c"
  note r = cb_index_range [OF assms] and r0 = cb_index_range [OF ok order_refl _ y]
  have st: "0 \<le> sf_stride ?s" "0 \<le> sf_stride ?s * int (cb_size c)" using stride_nonneg [OF ok] by simp_all
  have "s32 (sf_stride ?s * y) = sf_stride ?s * y" using r0(3) mult_nonneg_nonneg [OF st(1) y(1)] by (intro s32_id') auto
  moreover have "s32 (x + sf_stride ?s * y) = x + sf_stride ?s * y" using r by (intro s32_id') auto
  moreover have "s32 ((x + sf_stride ?s * y) * int (cb_size c)) = (x + sf_stride ?s * y) * int (cb_size c)"
    using r(2) mult_nonneg_nonneg [OF r(1), of "int (cb_size c)"] by (intro s32_id') linarith+
  ultimately show "sf_data ?s + s32 (s32 (x + s32 (sf_stride ?s * y)) * int (cb_size c)) = cb_index c x y" by (simp add: cb_index_def)
  have "sf_stride ?s * int (cb_size c) * 1 \<le> sf_stride ?s * int (cb_size c) * uint (sf_height ?s)" using st y by (intro mult_left_mono) auto
  also have "\<dots> < 2147483648" using ok by (simp add: cb_ok_def Let_def ac_simps)
  finally show "s32 (sf_stride ?s * int (cb_size c)) = sf_stride ?s * int (cb_size c)" using st(2) by (intro s32_id') linarith+
qed

lemma copy_rect_rows_correct:
  assumes ok: "cb_ok c" and w: "0 < cr_width r" "0 < cr_height r"
    and s: "0 \<le> cr_xs r" "cr_xs r + cr_width r \<le> uint (sf_width (color_surface c))" "0 \<le> cr_ys r" "cr_ys r + cr_height r \<le> uint (sf_height (color_surface c))"
    and d: "0 \<le> cr_xd r" "cr_xd r + cr_width r \<le> uint (sf_width (color_surface c))" "0 \<le> cr_yd r" "cr_yd r + cr_height r \<le> uint (sf_height (color_surface c))"
  shows "\<exists>m. copy_rect_rows c r = Some (c\<lparr>memory := m\<rparr>) \<and> pixels_copied c r m"
proof -
  let ?s = "color_surface c"
  define sz n bpr d delta where sz: "sz = int (cb_size c)" and n: "n = nat (cr_width r * sz)" and b: "bpr = sf_stride ?s * sz"
    and dd: "d = cb_index c (cr_xd r) (cr_yd r)" and delta: "delta = d - cb_index c (cr_xs r) (cr_ys r)"
  have sz0: "0 < cb_size c" "0 < sz" "uint (sf_width ?s) \<le> sf_stride ?s" using ok by (auto simp: cb_ok_def Let_def sz)
  note px = rect_copied_pixels [OF w sz0(1) n [unfolded sz] b [unfolded sz] dd delta]
  have addr: "sf_data ?s + s32 (s32 (x + s32 (sf_stride ?s * y)) * sz) = cb_index c x y"
    if "0 \<le> x" "x < uint (sf_width ?s)" "0 \<le> y" "y < uint (sf_height ?s)" for x y
    using copy_address(1) [OF ok that(1) _ that(3,4)] that(2) by (simp add: sz)
  have bpr: "s32 (sf_stride ?s * sz) = bpr" using copy_address(2) [OF ok d(1) _ d(3)] d w by (simp add: b sz)
  have n': "int n = cr_width r * sz" using w sz0 by (simp add: n)
  have dl: "delta = (cr_xd r + sf_stride ?s * cr_yd r) * sz - (cr_xs r + sf_stride ?s * cr_ys r) * sz"
    by (simp add: delta dd cb_index_def sz)
  note dist = copy_distance [OF s(1,2) d(1,2) sz0(3,2) w(1) dl, folded n' b]
  have src: "cb_index c (cr_xs r) (cr_ys r) = d - delta" by (simp add: delta)
  have h: "cr_height r = int (nat (cr_height r))" "0 \<le> bpr" using w sz0 stride_nonneg [OF ok] unfolding b by simp_all
  have "(if cr_ys r < cr_yd r then copy_rows_up (nat (cr_height r)) (d + cr_height r * bpr) (d - delta + cr_height r * bpr) bpr n (memory c)
     else if cr_ys r = cr_yd r then Some (move_rows (nat (cr_height r)) d (d - delta) bpr n (memory c))
     else copy_rows_down (nat (cr_height r)) d (d - delta) bpr n (memory c)) = Some (rect_copied (nat (cr_height r)) d bpr n delta (memory c))"
    using copy_rows_up_correct [of n delta bpr "nat (cr_height r)" d "memory c"] copy_rows_down_correct [of delta n bpr "nat (cr_height r)" d "memory c"]
      move_rows_correct [of delta n bpr "nat (cr_height r)" d "memory c"] dist h(2) w by simp
  then have "copy_rect_rows c r = Some (c\<lparr>memory := rect_copied (nat (cr_height r)) d bpr n delta (memory c)\<rparr>)"
    unfolding copy_rect_rows_def Let_def sz [symmetric] n [symmetric] bpr using s d w
    by (simp only: addr [of "cr_xs r" "cr_ys r"] addr [of "cr_xd r" "cr_yd r"] dd [symmetric] src bind.bind_lunit)
  with px show ?thesis by blast
qed

subsection \<open>Copying as a property\<close>


definition copy_target :: context_t where "copy_target = ggl_rasterPos2i small_target 2 3"


end
