(* ===== verification/GGLErrors.thy ===== *)
theory GGLErrors
  imports GGLMachine
begin

text \<open>
  Errors of the rasterizer's calls. Which calls are rejected is a function of their arguments, the error of
  the first rejected call is kept, and the recorded error influences no other part of the context.
\<close>


subsection \<open>Rejected calls\<close>

text \<open>The calls whose arguments \<^verbatim>\<open>pixelflinger.cpp\<close> rejects with \<^verbatim>\<open>GGL_INVALID_ENUM\<close>; which they are does
  not depend on the state.\<close>

fun rejected :: "ggl_call \<Rightarrow> bool" where
  "rejected (ActiveTexture t) \<longleftrightarrow> t \<ge> 2"
| "rejected (ShadeModel m) \<longleftrightarrow> m \<noteq> GGL_FLAT \<and> m \<noteq> GGL_SMOOTH"
| "rejected (TexEnvi t p v) \<longleftrightarrow> t \<noteq> GGL_TEXTURE_ENV \<or> p \<noteq> GGL_TEXTURE_ENV_MODE \<or> v \<notin> {GGL_REPLACE, GGL_MODULATE, GGL_DECAL, GGL_BLEND, GGL_ADD}"
| "rejected (TexEnvxv t p v) \<longleftrightarrow> t \<noteq> GGL_TEXTURE_ENV \<or>
     (if p = GGL_TEXTURE_ENV_MODE then nat (v ! 0 mod 2 ^ 32) \<notin> {GGL_REPLACE, GGL_MODULATE, GGL_DECAL, GGL_BLEND, GGL_ADD}
      else p \<noteq> GGL_TEXTURE_ENV_COLOR)"
| "rejected (TexParameteri t p v) \<longleftrightarrow> t \<noteq> GGL_TEXTURE_2D \<or> tex_param_what p (if v = GGL_CLAMP_TO_EDGE then GGL_CLAMP else v) = None"
| "rejected (TexGeni co p v) \<longleftrightarrow> p \<noteq> GGL_TEXTURE_GEN_MODE \<or> co \<noteq> GGL_S \<and> co \<noteq> GGL_T"
| "rejected (AlphaFuncx f r) \<longleftrightarrow> f < GGL_NEVER \<or> f > GGL_ALWAYS"
| "rejected (DepthFunc f) \<longleftrightarrow> f < GGL_NEVER \<or> f > GGL_ALWAYS"
| "rejected (LogicOp f) \<longleftrightarrow> f < GGL_CLEAR \<or> f > GGL_SET"
| "rejected _ \<longleftrightarrow> False"

lemma exec_rejected:
  assumes "rejected k"
  shows "ggl_exec al c k = ggl_error c GL_INVALID_ENUM"
proof (cases k)
  case (TexParameteri t p v)
  show ?thesis
  proof (cases "t = GGL_TEXTURE_2D")
    case True
    then have "tex_param_what p (if v = GGL_CLAMP_TO_EDGE then GGL_CLAMP else v) = None" using assms TexParameteri by simp
    then show ?thesis unfolding TexParameteri ggl_exec.simps ggl_texParameteri_def Let_def by (simp only: option.case if_cancel)
  qed (simp add: TexParameteri ggl_texParameteri_def)
next
  case (TexEnvxv t p v)
  then show ?thesis using assms by (cases "p = GGL_TEXTURE_ENV_MODE") (simp_all add: ggl_texEnvi_def ggl_texEnvxv_def)
next
  case (TexEnvi t p v)
  then show ?thesis using assms by (simp add: ggl_texEnvi_def)
next
  case (TexGeni co p v)
  then show ?thesis using assms by (simp add: ggl_texGeni_def)
next
  case (ActiveTexture t)
  then show ?thesis using assms by (simp add: ggl_activeTexture_def)
next
  case (ShadeModel m)
  then show ?thesis using assms by (simp add: ggl_shadeModel_def)
next
  case (AlphaFuncx f r)
  then show ?thesis using assms by (simp add: ggl_alphaFuncx_def)
next
  case (DepthFunc f)
  then show ?thesis using assms by (simp add: ggl_depthFunc_def)
next
  case (LogicOp f)
  then show ?thesis using assms by (simp add: ggl_logicOp_def)
qed (use assms in simp_all)

subsection \<open>The error does not influence the state\<close>

named_theorems err_blind \<open>operations commute with a change of the recorded error\<close>

lemma err_updates [err_blind]:
  "upd_state f (c\<lparr>ggl_err := e\<rparr>) = (upd_state f c)\<lparr>ggl_err := e\<rparr>"
  "ggl_state_changed (c\<lparr>ggl_err := e\<rparr>) d = (ggl_state_changed c d)\<lparr>ggl_err := e\<rparr>"
  "upd_tmu i g (c\<lparr>ggl_err := e\<rparr>) = (upd_tmu i g c)\<lparr>ggl_err := e\<rparr>"
  "set_flag fl b (c\<lparr>ggl_err := e\<rparr>) = (set_flag fl b c)\<lparr>ggl_err := e\<rparr>"
  "upd_scissor h (c\<lparr>ggl_err := e\<rparr>) = (upd_scissor h c)\<lparr>ggl_err := e\<rparr>"
  "upd_buffers j (c\<lparr>ggl_err := e\<rparr>) = (upd_buffers j c)\<lparr>ggl_err := e\<rparr>"
  "upd_shade k (c\<lparr>ggl_err := e\<rparr>) = (upd_shade k c)\<lparr>ggl_err := e\<rparr>"
  "upd_mask l (c\<lparr>ggl_err := e\<rparr>) = (upd_mask l c)\<lparr>ggl_err := e\<rparr>"
  by (simp_all add: ctx_defs)

lemma err_helpers [err_blind]:
  "enable_flag fl (c\<lparr>ggl_err := e\<rparr>) b = (enable_flag fl c b)\<lparr>ggl_err := e\<rparr>"
  "blend_changed (c\<lparr>ggl_err := e\<rparr>) = (blend_changed c)\<lparr>ggl_err := e\<rparr>"
  "ggl_set_scissor (c\<lparr>ggl_err := e\<rparr>) = (ggl_set_scissor c)\<lparr>ggl_err := e\<rparr>"
  "active_tx (c\<lparr>ggl_err := e\<rparr>) = active_tx c"
  by (simp_all add: enable_flag_def blend_changed_def ggl_set_scissor_def active_tx_def Let_def err_blind)

lemma err_enable [err_blind]: "enable_disable (c\<lparr>ggl_err := e\<rparr>) name b = (enable_disable c name b)\<lparr>ggl_err := e\<rparr>"
proof -
  have t: "ggl_enable_texture2d (c\<lparr>ggl_err := e\<rparr>) b = (ggl_enable_texture2d c b)\<lparr>ggl_err := e\<rparr>" for b
    by (simp add: ggl_enable_texture2d_def err_blind Let_def)
  have d: "ggl_enable_depth_test (c\<lparr>ggl_err := e\<rparr>) b = (ggl_enable_depth_test c b)\<lparr>ggl_err := e\<rparr>" for b
    by (simp add: ggl_enable_depth_test_def err_blind Let_def)
  have s: "ggl_enable_scissor_test (c\<lparr>ggl_err := e\<rparr>) b = (ggl_enable_scissor_test c b)\<lparr>ggl_err := e\<rparr>" for b
    by (simp add: ggl_enable_scissor_test_def err_blind)
  have f: "ggl_enable_blending (c\<lparr>ggl_err := e\<rparr>) b = (ggl_enable_blending c b)\<lparr>ggl_err := e\<rparr>"
    "ggl_enable_alpha_test (c\<lparr>ggl_err := e\<rparr>) b = (ggl_enable_alpha_test c b)\<lparr>ggl_err := e\<rparr>"
    "ggl_enable_logic_op (c\<lparr>ggl_err := e\<rparr>) b = (ggl_enable_logic_op c b)\<lparr>ggl_err := e\<rparr>"
    "ggl_enable_dither (c\<lparr>ggl_err := e\<rparr>) b = (ggl_enable_dither c b)\<lparr>ggl_err := e\<rparr>"
    "ggl_enable_stencil_test (c\<lparr>ggl_err := e\<rparr>) b = (ggl_enable_stencil_test c b)\<lparr>ggl_err := e\<rparr>"
    "ggl_enable_aa (c\<lparr>ggl_err := e\<rparr>) b = (ggl_enable_aa c b)\<lparr>ggl_err := e\<rparr>"
    "ggl_enable_w_lerp (c\<lparr>ggl_err := e\<rparr>) b = (ggl_enable_w_lerp c b)\<lparr>ggl_err := e\<rparr>"
    "ggl_enable_fog (c\<lparr>ggl_err := e\<rparr>) b = (ggl_enable_fog c b)\<lparr>ggl_err := e\<rparr>"
    "ggl_enable_point_aa_nice (c\<lparr>ggl_err := e\<rparr>) b = (ggl_enable_point_aa_nice c b)\<lparr>ggl_err := e\<rparr>" for b
    by (simp_all add: err_blind ggl_enable_blending_def ggl_enable_alpha_test_def ggl_enable_logic_op_def ggl_enable_dither_def
      ggl_enable_stencil_test_def ggl_enable_aa_def ggl_enable_w_lerp_def ggl_enable_fog_def ggl_enable_point_aa_nice_def)
  show ?thesis unfolding enable_disable_def t d s f by (simp only: if_distrib [of "ggl_err_update (\<lambda>_. e)"])
qed

lemma err_pick [err_blind]:
  "ggl_pick (c\<lparr>ggl_err := e\<rparr>) = (ggl_pick c)\<lparr>ggl_err := e\<rparr>"
proof -
  have s: "ggl_pick_scanline (c\<lparr>ggl_err := e\<rparr>) = (ggl_pick_scanline c)\<lparr>ggl_err := e\<rparr>" for c
    by (simp add: ggl_pick_scanline_def pick_scanline_def Let_def case_prod_beta)
  have u: "pick_texture_unit (c\<lparr>ggl_err := e\<rparr>) i = (pick_texture_unit c i)\<lparr>ggl_err := e\<rparr>" for c i
    by (simp add: pick_texture_unit_def err_blind Let_def)
  have t: "ggl_pick_texture (c\<lparr>ggl_err := e\<rparr>) = (ggl_pick_texture c)\<lparr>ggl_err := e\<rparr>"
    "ggl_pick_cb (c\<lparr>ggl_err := e\<rparr>) = (ggl_pick_cb c)\<lparr>ggl_err := e\<rparr>" for c
    by (simp_all add: ggl_pick_texture_def u ggl_pick_cb_def err_blind Let_def)
  show ?thesis by (simp add: ggl_pick_def Let_def err_blind s t)
qed

lemma err_setters [err_blind]:
  "ggl_scissor (c\<lparr>ggl_err := e\<rparr>) x y w h = (ggl_scissor c x y w h)\<lparr>ggl_err := e\<rparr>"
  "ggl_bindTexture (c\<lparr>ggl_err := e\<rparr>) s = (ggl_bindTexture c s)\<lparr>ggl_err := e\<rparr>"
  "ggl_bindTextureLod (c\<lparr>ggl_err := e\<rparr>) n s = (ggl_bindTextureLod c n s)\<lparr>ggl_err := e\<rparr>"
  "ggl_colorBuffer al (c\<lparr>ggl_err := e\<rparr>) s = (ggl_colorBuffer al c s)\<lparr>ggl_err := e\<rparr>"
  "ggl_readBuffer (c\<lparr>ggl_err := e\<rparr>) s = (ggl_readBuffer c s)\<lparr>ggl_err := e\<rparr>"
  "ggl_depthBuffer (c\<lparr>ggl_err := e\<rparr>) s = (ggl_depthBuffer c s)\<lparr>ggl_err := e\<rparr>"
  by (simp_all add: ggl_scissor_def ggl_bindTexture_def ggl_bindTextureLod_def ggl_colorBuffer_def ggl_readBuffer_def ggl_depthBuffer_def
    ggl_enable_depth_test_def Let_def err_blind)

lemma err_shades [err_blind]:
  "ggl_color4xv (c\<lparr>ggl_err := e\<rparr>) v = (ggl_color4xv c v)\<lparr>ggl_err := e\<rparr>"
  "ggl_colorGrad12xv (c\<lparr>ggl_err := e\<rparr>) v = (ggl_colorGrad12xv c v)\<lparr>ggl_err := e\<rparr>"
  "ggl_zGrad3xv (c\<lparr>ggl_err := e\<rparr>) v = (ggl_zGrad3xv c v)\<lparr>ggl_err := e\<rparr>"
  "ggl_wGrad3xv (c\<lparr>ggl_err := e\<rparr>) v = (ggl_wGrad3xv c v)\<lparr>ggl_err := e\<rparr>"
  "ggl_fogGrad3xv (c\<lparr>ggl_err := e\<rparr>) v = (ggl_fogGrad3xv c v)\<lparr>ggl_err := e\<rparr>"
  "ggl_fogColor3xv (c\<lparr>ggl_err := e\<rparr>) v = (ggl_fogColor3xv c v)\<lparr>ggl_err := e\<rparr>"
  "ggl_blendFunc (c\<lparr>ggl_err := e\<rparr>) p q = (ggl_blendFunc c p q)\<lparr>ggl_err := e\<rparr>"
  "ggl_blendFuncSeparate (c\<lparr>ggl_err := e\<rparr>) p q pa qa = (ggl_blendFuncSeparate c p q pa qa)\<lparr>ggl_err := e\<rparr>"
  "ggl_texCoord2x (c\<lparr>ggl_err := e\<rparr>) x y = (ggl_texCoord2x c x y)\<lparr>ggl_err := e\<rparr>"
  "ggl_texCoord2i (c\<lparr>ggl_err := e\<rparr>) x y = (ggl_texCoord2i c x y)\<lparr>ggl_err := e\<rparr>"
  "ggl_texCoordGradScale8xv (c\<lparr>ggl_err := e\<rparr>) n v = (ggl_texCoordGradScale8xv c n v)\<lparr>ggl_err := e\<rparr>"
  by (simp_all add: ggl_color4xv_def ggl_colorGrad12xv_def ggl_zGrad3xv_def ggl_wGrad3xv_def ggl_fogGrad3xv_def ggl_fogColor3xv_def
    ggl_blendFunc_def ggl_blendFuncSeparate_def ggl_texCoord2x_def ggl_texCoord2i_def ggl_texCoordGradScale8xv_def err_blind)

lemma err_masks [err_blind]:
  "ggl_colorMask (c\<lparr>ggl_err := e\<rparr>) r g b a = (ggl_colorMask c r g b a)\<lparr>ggl_err := e\<rparr>"
  "ggl_depthMask (c\<lparr>ggl_err := e\<rparr>) f = (ggl_depthMask c f)\<lparr>ggl_err := e\<rparr>"
  "ggl_stencilMask (c\<lparr>ggl_err := e\<rparr>) m = (ggl_stencilMask c m)\<lparr>ggl_err := e\<rparr>"
  "ggl_clearColorx (c\<lparr>ggl_err := e\<rparr>) x y z w = (ggl_clearColorx c x y z w)\<lparr>ggl_err := e\<rparr>"
  "ggl_clearDepthx (c\<lparr>ggl_err := e\<rparr>) d = (ggl_clearDepthx c d)\<lparr>ggl_err := e\<rparr>"
  "ggl_clearStencil (c\<lparr>ggl_err := e\<rparr>) i = (ggl_clearStencil c i)\<lparr>ggl_err := e\<rparr>"
  by (simp_all add: ggl_colorMask_def ggl_depthMask_def ggl_stencilMask_def ggl_clearColorx_def ggl_clearDepthx_def ggl_clearStencil_def
    upd_clear_def err_blind Let_def)

lemma err_validate [err_blind]:
  "pointx_validate (c\<lparr>ggl_err := e\<rparr>) = (pointx_validate c)\<lparr>ggl_err := e\<rparr>"
  "linex_validate (c\<lparr>ggl_err := e\<rparr>) = (linex_validate c)\<lparr>ggl_err := e\<rparr>"
  "recti_validate (c\<lparr>ggl_err := e\<rparr>) = (recti_validate c)\<lparr>ggl_err := e\<rparr>"
  "trianglex_validate (c\<lparr>ggl_err := e\<rparr>) = (trianglex_validate c)\<lparr>ggl_err := e\<rparr>"
  by (simp_all add: pointx_validate_def linex_validate_def recti_validate_def trianglex_validate_def needs_aa_def Let_def err_blind)

lemma err_enums:
  "\<not> rejected (ActiveTexture t) \<Longrightarrow> ggl_activeTexture (c\<lparr>ggl_err := e\<rparr>) t = (ggl_activeTexture c t)\<lparr>ggl_err := e\<rparr>"
  "\<not> rejected (AlphaFuncx f r) \<Longrightarrow> ggl_alphaFuncx (c\<lparr>ggl_err := e\<rparr>) f r = (ggl_alphaFuncx c f r)\<lparr>ggl_err := e\<rparr>"
  "\<not> rejected (DepthFunc f) \<Longrightarrow> ggl_depthFunc (c\<lparr>ggl_err := e\<rparr>) f = (ggl_depthFunc c f)\<lparr>ggl_err := e\<rparr>"
  "\<not> rejected (LogicOp f) \<Longrightarrow> ggl_logicOp (c\<lparr>ggl_err := e\<rparr>) f = (ggl_logicOp c f)\<lparr>ggl_err := e\<rparr>"
  by (simp_all add: ggl_activeTexture_def ggl_alphaFuncx_def ggl_depthFunc_def ggl_logicOp_def err_blind Let_def)

lemma err_shadeModel:
  assumes "\<not> rejected (ShadeModel m)"
  shows "ggl_shadeModel (c\<lparr>ggl_err := e\<rparr>) m = (ggl_shadeModel c m)\<lparr>ggl_err := e\<rparr>"
  using assms by (cases "m = GGL_FLAT") (simp_all add: ggl_shadeModel_def err_blind)

lemma err_texEnvi:
  assumes "\<not> rejected (TexEnvi t p v)"
  shows "ggl_texEnvi (c\<lparr>ggl_err := e\<rparr>) t p v = (ggl_texEnvi c t p v)\<lparr>ggl_err := e\<rparr>"
  using assms by (simp add: ggl_texEnvi_def err_blind)

lemma err_texture:
  "\<not> rejected (TexEnvxv t p vs) \<Longrightarrow> ggl_texEnvxv (c\<lparr>ggl_err := e\<rparr>) t p vs = (ggl_texEnvxv c t p vs)\<lparr>ggl_err := e\<rparr>"
  "\<not> rejected (TexGeni co p v) \<Longrightarrow> ggl_texGeni (c\<lparr>ggl_err := e\<rparr>) co p v = (ggl_texGeni c co p v)\<lparr>ggl_err := e\<rparr>"
proof -
  assume n: "\<not> rejected (TexEnvxv t p vs)"
  show "ggl_texEnvxv (c\<lparr>ggl_err := e\<rparr>) t p vs = (ggl_texEnvxv c t p vs)\<lparr>ggl_err := e\<rparr>"
  proof (cases "p = GGL_TEXTURE_ENV_MODE")
    case True
    then have "\<not> rejected (TexEnvi t p (nat (vs ! 0 mod 2 ^ 32)))" using n by simp
    note i = err_texEnvi [OF this]
    have "t = GGL_TEXTURE_ENV" using n by simp
    then show ?thesis using i True unfolding ggl_texEnvxv_def by (simp only: if_True if_False simp_thms)
  qed (use n in \<open>simp add: ggl_texEnvxv_def err_blind\<close>)
next
  assume n: "\<not> rejected (TexGeni co p v)"
  then show "ggl_texGeni (c\<lparr>ggl_err := e\<rparr>) co p v = (ggl_texGeni c co p v)\<lparr>ggl_err := e\<rparr>"
    by (cases "co = GGL_S") (simp_all add: ggl_texGeni_def err_blind)
qed

lemma err_texParameteri:
  assumes "\<not> rejected (TexParameteri t p v)"
  shows "ggl_texParameteri (c\<lparr>ggl_err := e\<rparr>) t p v = (ggl_texParameteri c t p v)\<lparr>ggl_err := e\<rparr>"
proof -
  obtain a b where w: "t = GGL_TEXTURE_2D" "tex_param_what p (if v = GGL_CLAMP_TO_EDGE then GGL_CLAMP else v) = Some (a, b)" using assms by auto
  show ?thesis unfolding ggl_texParameteri_def Let_def w option.case prod.case by (simp add: err_blind)
qed

lemmas err_accepted = err_enums err_shadeModel err_texEnvi err_texture err_texParameteri

lemma exec_accepted:
  assumes "\<not> rejected k"
  shows "ggl_exec al (c\<lparr>ggl_err := e\<rparr>) k = (ggl_exec al c k)\<lparr>ggl_err := e\<rparr>"
  using assms by (cases k) (simp_all only: ggl_exec.simps ggl_enableDisable_def err_blind err_accepted simp_thms)

subsection \<open>Sequences of calls\<close>

definition ggl_calls :: "(nat \<Rightarrow> bool) \<Rightarrow> context_t \<Rightarrow> ggl_call list \<Rightarrow> context_t" where
  "ggl_calls al = foldl (ggl_exec al)"

text \<open>The error that a sequence of calls leaves: the one already there, or that of the first rejected call.\<close>

definition error_after :: "nat \<Rightarrow> ggl_call list \<Rightarrow> nat" where
  "error_after e ks = (if e = GL_NO_ERROR \<and> (\<exists>k \<in> set ks. rejected k) then GL_INVALID_ENUM else e)"

lemma error_update: "ggl_error c err = c\<lparr>ggl_err := (if ggl_err c = GL_NO_ERROR then err else ggl_err c)\<rparr>"
  by (simp add: ggl_error_def)

lemma calls_error_blind:
  "ggl_calls al (c\<lparr>ggl_err := e\<rparr>) (filter (\<lambda>k. \<not> rejected k) ks) = (ggl_calls al c (filter (\<lambda>k. \<not> rejected k) ks))\<lparr>ggl_err := e\<rparr>"
proof (induction ks arbitrary: c)
  case (Cons k ks)
  then show ?case by (cases "rejected k") (simp_all only: ggl_calls_def filter.simps if_True if_False foldl.simps exec_accepted simp_thms)
qed (simp add: ggl_calls_def)

lemma exec_keeps_error: "\<not> rejected k \<Longrightarrow> ggl_err (ggl_exec al c k) = ggl_err c"
  using arg_cong [where f = ggl_err, OF exec_accepted [of k al "ggl_err c" c]] by simp

subsection \<open>Errors as a property\<close>

text \<open>C35. The error behaviour of the rasterizer's calls. Whether a call is rejected depends on its arguments
  alone; a rejected call changes nothing but the error, and only when none is recorded yet. So for every
  context and every sequence of calls, the result is that of the sequence without its rejected calls, with
  the error that was there before, or \<^verbatim>\<open>GGL_INVALID_ENUM\<close> when there was none and some call was
  rejected.\<close>

theorem rejected_calls_skipped:
  "ggl_calls al c ks = (ggl_calls al c (filter (\<lambda>k. \<not> rejected k) ks))\<lparr>ggl_err := error_after (ggl_err c) ks\<rparr>"
proof (induction ks arbitrary: c)
  case Nil
  then show ?case by (simp add: ggl_calls_def error_after_def)
next
  case (Cons k ks)
  show ?case
  proof (cases "rejected k")
    case True
    define e where "e = (if ggl_err c = GL_NO_ERROR then GL_INVALID_ENUM else ggl_err c)"
    have "ggl_calls al c (k # ks) = ggl_calls al (c\<lparr>ggl_err := e\<rparr>) ks"
      using exec_rejected [OF True, of al c] by (simp add: ggl_calls_def error_update e_def)
    also have "\<dots> = (ggl_calls al c (filter (\<lambda>k. \<not> rejected k) ks))\<lparr>ggl_err := error_after e ks\<rparr>"
      unfolding Cons.IH [of "c\<lparr>ggl_err := e\<rparr>"] calls_error_blind by simp
    also have "error_after e ks = error_after (ggl_err c) (k # ks)" using True by (auto simp: error_after_def e_def)
    finally show ?thesis using True by simp
  next
    case False
    have "ggl_calls al c (k # ks) = ggl_calls al (ggl_exec al c k) ks" "error_after (ggl_err c) (k # ks) = error_after (ggl_err c) ks"
      using False by (simp_all add: ggl_calls_def error_after_def)
    then show ?thesis using Cons.IH [of "ggl_exec al c k"] False exec_keeps_error [OF False, of al c] by (simp add: ggl_calls_def)
  qed
qed

end
