(* ===== verification/GLState.thy ===== *)
theory GLState
  imports GGLErrors GGLTrap
begin

text \<open>
  The GL state calls of \<^verbatim>\<open>swrender/state.cpp\<close> over the rasterizer: enabling and disabling, modes, the calls
  that go through to the rasterizer, errors and queries. The calls with \<^verbatim>\<open>float\<close> arguments convert them and
  do what the fixed-point calls do; only the latter are modelled.
\<close>

subsection \<open>Enumerants\<close>

abbreviation (input) GL_KEEP :: nat where "GL_KEEP \<equiv> 0x1E00"
abbreviation (input) GL_ZERO :: nat where "GL_ZERO \<equiv> 0"
abbreviation (input) GL_REPLACE :: nat where "GL_REPLACE \<equiv> 0x1E01"
abbreviation (input) GL_INCR :: nat where "GL_INCR \<equiv> 0x1E02"
abbreviation (input) GL_DECR :: nat where "GL_DECR \<equiv> 0x1E03"
abbreviation (input) GL_INVERT :: nat where "GL_INVERT \<equiv> 0x150A"
abbreviation (input) GL_LIGHT0 :: nat where "GL_LIGHT0 \<equiv> 0x4000"
abbreviation (input) GL_POINT_SMOOTH :: nat where "GL_POINT_SMOOTH \<equiv> 0x0B10"
abbreviation (input) GL_LINE_SMOOTH :: nat where "GL_LINE_SMOOTH \<equiv> 0x0B20"
abbreviation (input) GL_POLYGON_OFFSET_FILL :: nat where "GL_POLYGON_OFFSET_FILL \<equiv> 0x8037"
abbreviation (input) GL_CULL_FACE :: nat where "GL_CULL_FACE \<equiv> 0x0B44"
abbreviation (input) GL_LIGHTING :: nat where "GL_LIGHTING \<equiv> 0x0B50"
abbreviation (input) GL_COLOR_MATERIAL :: nat where "GL_COLOR_MATERIAL \<equiv> 0x0B57"
abbreviation (input) GL_NORMALIZE :: nat where "GL_NORMALIZE \<equiv> 0x0BA1"
abbreviation (input) GL_RESCALE_NORMAL :: nat where "GL_RESCALE_NORMAL \<equiv> 0x803A"
abbreviation (input) GL_CLIP_PLANE0 :: nat where "GL_CLIP_PLANE0 \<equiv> 0x3000"
abbreviation (input) GL_FOG :: nat where "GL_FOG \<equiv> 0x0B60"
abbreviation (input) GL_DEPTH_TEST :: nat where "GL_DEPTH_TEST \<equiv> 0x0B71"
abbreviation (input) GL_BLEND :: nat where "GL_BLEND \<equiv> 0x0BE2"
abbreviation (input) GL_SCISSOR_TEST :: nat where "GL_SCISSOR_TEST \<equiv> 0x0C11"
abbreviation (input) GL_ALPHA_TEST :: nat where "GL_ALPHA_TEST \<equiv> 0x0BC0"
abbreviation (input) GL_COLOR_LOGIC_OP :: nat where "GL_COLOR_LOGIC_OP \<equiv> 0x0BF2"
abbreviation (input) GL_DITHER :: nat where "GL_DITHER \<equiv> 0x0BD0"
abbreviation (input) GL_STENCIL_TEST :: nat where "GL_STENCIL_TEST \<equiv> 0x0B90"
abbreviation (input) GL_TEXTURE_2D :: nat where "GL_TEXTURE_2D \<equiv> 0x0DE1"
abbreviation (input) GL_TEXTURE_EXTERNAL_OES :: nat where "GL_TEXTURE_EXTERNAL_OES \<equiv> 0x8D65"
abbreviation (input) GL_MULTISAMPLE :: nat where "GL_MULTISAMPLE \<equiv> 0x809D"
abbreviation (input) GL_SAMPLE_ALPHA_TO_COVERAGE :: nat where "GL_SAMPLE_ALPHA_TO_COVERAGE \<equiv> 0x809E"
abbreviation (input) GL_SAMPLE_ALPHA_TO_ONE :: nat where "GL_SAMPLE_ALPHA_TO_ONE \<equiv> 0x809F"
abbreviation (input) GL_SAMPLE_COVERAGE :: nat where "GL_SAMPLE_COVERAGE \<equiv> 0x80A0"
abbreviation (input) GL_FRONT :: nat where "GL_FRONT \<equiv> 0x0404"
abbreviation (input) GL_BACK :: nat where "GL_BACK \<equiv> 0x0405"
abbreviation (input) GL_FRONT_AND_BACK :: nat where "GL_FRONT_AND_BACK \<equiv> 0x0408"
abbreviation (input) GL_CW :: nat where "GL_CW \<equiv> 0x0900"
abbreviation (input) GL_CCW :: nat where "GL_CCW \<equiv> 0x0901"
abbreviation (input) GL_FOG_HINT :: nat where "GL_FOG_HINT \<equiv> 0x0C54"
abbreviation (input) GL_GENERATE_MIPMAP_HINT :: nat where "GL_GENERATE_MIPMAP_HINT \<equiv> 0x8192"
abbreviation (input) GL_LINE_SMOOTH_HINT :: nat where "GL_LINE_SMOOTH_HINT \<equiv> 0x0C52"
abbreviation (input) GL_POINT_SMOOTH_HINT :: nat where "GL_POINT_SMOOTH_HINT \<equiv> 0x0C51"
abbreviation (input) GL_PERSPECTIVE_CORRECTION_HINT :: nat where "GL_PERSPECTIVE_CORRECTION_HINT \<equiv> 0x0C50"
abbreviation (input) GL_NICEST :: nat where "GL_NICEST \<equiv> 0x1102"
abbreviation (input) GL_VENDOR :: nat where "GL_VENDOR \<equiv> 0x1F00"
abbreviation (input) GL_RENDERER :: nat where "GL_RENDERER \<equiv> 0x1F01"
abbreviation (input) GL_VERSION :: nat where "GL_VERSION \<equiv> 0x1F02"
abbreviation (input) GL_EXTENSIONS :: nat where "GL_EXTENSIONS \<equiv> 0x1F03"
abbreviation (input) GL_ALIASED_POINT_SIZE_RANGE :: nat where "GL_ALIASED_POINT_SIZE_RANGE \<equiv> 0x846D"
abbreviation (input) GL_ALIASED_LINE_WIDTH_RANGE :: nat where "GL_ALIASED_LINE_WIDTH_RANGE \<equiv> 0x846E"
abbreviation (input) GL_ALPHA_BITS :: nat where "GL_ALPHA_BITS \<equiv> 0x0D55"
abbreviation (input) GL_RED_BITS :: nat where "GL_RED_BITS \<equiv> 0x0D52"
abbreviation (input) GL_GREEN_BITS :: nat where "GL_GREEN_BITS \<equiv> 0x0D53"
abbreviation (input) GL_BLUE_BITS :: nat where "GL_BLUE_BITS \<equiv> 0x0D54"
abbreviation (input) GL_COMPRESSED_TEXTURE_FORMATS :: nat where "GL_COMPRESSED_TEXTURE_FORMATS \<equiv> 0x86A3"
abbreviation (input) GL_DEPTH_BITS :: nat where "GL_DEPTH_BITS \<equiv> 0x0D56"
abbreviation (input) GL_IMPLEMENTATION_COLOR_READ_FORMAT_OES :: nat where "GL_IMPLEMENTATION_COLOR_READ_FORMAT_OES \<equiv> 0x8B9B"
abbreviation (input) GL_IMPLEMENTATION_COLOR_READ_TYPE_OES :: nat where "GL_IMPLEMENTATION_COLOR_READ_TYPE_OES \<equiv> 0x8B9A"
abbreviation (input) GL_MAX_LIGHTS :: nat where "GL_MAX_LIGHTS \<equiv> 0x0D31"
abbreviation (input) GL_MAX_CLIP_PLANES :: nat where "GL_MAX_CLIP_PLANES \<equiv> 0x0D32"
abbreviation (input) GL_MAX_MODELVIEW_STACK_DEPTH :: nat where "GL_MAX_MODELVIEW_STACK_DEPTH \<equiv> 0x0D36"
abbreviation (input) GL_MAX_PROJECTION_STACK_DEPTH :: nat where "GL_MAX_PROJECTION_STACK_DEPTH \<equiv> 0x0D38"
abbreviation (input) GL_MAX_TEXTURE_STACK_DEPTH :: nat where "GL_MAX_TEXTURE_STACK_DEPTH \<equiv> 0x0D39"
abbreviation (input) GL_MAX_TEXTURE_SIZE :: nat where "GL_MAX_TEXTURE_SIZE \<equiv> 0x0D33"
abbreviation (input) GL_MAX_TEXTURE_UNITS :: nat where "GL_MAX_TEXTURE_UNITS \<equiv> 0x84E2"
abbreviation (input) GL_MAX_VIEWPORT_DIMS :: nat where "GL_MAX_VIEWPORT_DIMS \<equiv> 0x0D3A"
abbreviation (input) GL_NUM_COMPRESSED_TEXTURE_FORMATS :: nat where "GL_NUM_COMPRESSED_TEXTURE_FORMATS \<equiv> 0x86A2"
abbreviation (input) GL_SMOOTH_LINE_WIDTH_RANGE :: nat where "GL_SMOOTH_LINE_WIDTH_RANGE \<equiv> 0x0B22"
abbreviation (input) GL_SMOOTH_POINT_SIZE_RANGE :: nat where "GL_SMOOTH_POINT_SIZE_RANGE \<equiv> 0x0B12"
abbreviation (input) GL_STENCIL_BITS :: nat where "GL_STENCIL_BITS \<equiv> 0x0D57"
abbreviation (input) GL_SUBPIXEL_BITS :: nat where "GL_SUBPIXEL_BITS \<equiv> 0x0D50"
abbreviation (input) GL_MODELVIEW_MATRIX_FLOAT_AS_INT_BITS_OES :: nat where "GL_MODELVIEW_MATRIX_FLOAT_AS_INT_BITS_OES \<equiv> 0x898D"
abbreviation (input) GL_PROJECTION_MATRIX_FLOAT_AS_INT_BITS_OES :: nat where "GL_PROJECTION_MATRIX_FLOAT_AS_INT_BITS_OES \<equiv> 0x898E"
abbreviation (input) GL_TEXTURE_MATRIX_FLOAT_AS_INT_BITS_OES :: nat where "GL_TEXTURE_MATRIX_FLOAT_AS_INT_BITS_OES \<equiv> 0x898F"

subsection \<open>The GL context\<close>

text \<open>The part of \<^verbatim>\<open>ogles_context_t\<close> that \<^verbatim>\<open>state.cpp\<close> keeps. The flag \<open>gl_perspective_stale\<close> says that
  \<^verbatim>\<open>arrays.perspective\<close> points to the validating function; \<open>gl_matrix_bits\<close> are the bits of the floats on
  top of the modelview, the projection and the texture stacks.\<close>

record ogles_context_t =
  rasterizer :: context_t
  cull_enable :: bool
  cullFace :: nat
  frontFace :: nat
  lights_enable :: "bool list"
  enabledLights :: u32
  lighting_enable :: bool
  colorMaterial_enable :: bool
  rescaleNormals :: nat
  clipPlanes_enable :: u32
  gl_perspective_stale :: bool
  point_size :: int
  point_smooth :: bool
  line_width :: int
  line_smooth :: bool
  polygonOffset_enable :: bool
  gl_perspective :: bool
  gl_matrix_bits :: "int list list"
  textures_active :: nat
  gl_err :: nat

definition ogles_init :: "context_t \<Rightarrow> int list list \<Rightarrow> ogles_context_t" where
  "ogles_init r mats =
     \<lparr>rasterizer = ggl_enable (ggl_depthMask (ggl_shadeModel r GGL_SMOOTH) 1) GL_DITHER,
      cull_enable = False, cullFace = GL_BACK, frontFace = GL_CCW, lights_enable = replicate 8 False, enabledLights = 0,
      lighting_enable = False, colorMaterial_enable = False, rescaleNormals = 0, clipPlanes_enable = 0,
      gl_perspective_stale = False, point_size = 16, point_smooth = False, line_width = 16, line_smooth = False,
      polygonOffset_enable = False, gl_perspective = False, gl_matrix_bits = mats, textures_active = 0, gl_err = GL_NO_ERROR\<rparr>"

definition gl_ogles_error :: "ogles_context_t \<Rightarrow> nat \<Rightarrow> ogles_context_t" where
  "gl_ogles_error c error = (if gl_err c = GL_NO_ERROR then c\<lparr>gl_err := error\<rparr> else c)"

definition upd_rasterizer :: "(context_t \<Rightarrow> context_t) \<Rightarrow> ogles_context_t \<Rightarrow> ogles_context_t" where
  "upd_rasterizer f c = c\<lparr>rasterizer := f (rasterizer c)\<rparr>"

definition ogles_invalidate_perspective :: "ogles_context_t \<Rightarrow> ogles_context_t" where
  "ogles_invalidate_perspective c = c\<lparr>gl_perspective_stale := True\<rparr>"

subsection \<open>Enabling and disabling\<close>

text \<open>\<^verbatim>\<open>w &= ~(1<<k); w |= (enabled<<k)\<close>.\<close>

definition put_bit :: "nat \<Rightarrow> bool \<Rightarrow> u32 \<Rightarrow> u32" where
  "put_bit k en w = (w AND NOT (push_bit k 1)) OR push_bit k (of_bool en)"

definition gl_enable_disable :: "ogles_context_t \<Rightarrow> nat \<Rightarrow> bool \<Rightarrow> ogles_context_t" where
  "gl_enable_disable c cp en =
     (if cp \<ge> GL_LIGHT0 \<and> cp < GL_LIGHT0 + 8 then
        c\<lparr>lights_enable := (lights_enable c)[cp - GL_LIGHT0 := en], enabledLights := put_bit (cp - GL_LIGHT0) en (enabledLights c)\<rparr>
      else if cp = GL_POINT_SMOOTH then c\<lparr>point_smooth := en\<rparr>
      else if cp = GL_LINE_SMOOTH then c\<lparr>line_smooth := en\<rparr>
      else if cp = GL_POLYGON_OFFSET_FILL then c\<lparr>polygonOffset_enable := en\<rparr>
      else if cp = GL_CULL_FACE then c\<lparr>cull_enable := en\<rparr>
      else if cp = GL_LIGHTING then c\<lparr>lighting_enable := en\<rparr>
      else if cp = GL_COLOR_MATERIAL then c\<lparr>colorMaterial_enable := en\<rparr>
      else if cp = GL_NORMALIZE \<or> cp = GL_RESCALE_NORMAL then c\<lparr>rescaleNormals := (if en then cp else 0)\<rparr>
      else if cp \<ge> GL_CLIP_PLANE0 \<and> cp \<le> GL_CLIP_PLANE0 + 5 then
        ogles_invalidate_perspective (c\<lparr>clipPlanes_enable := put_bit (cp - GL_CLIP_PLANE0) en (clipPlanes_enable c)\<rparr>)
      else if cp = GL_FOG \<or> cp = GL_DEPTH_TEST then
        upd_rasterizer (\<lambda>r. ggl_enableDisable r cp (of_bool en)) (ogles_invalidate_perspective c)
      else if cp \<in> {GL_BLEND, GL_SCISSOR_TEST, GL_ALPHA_TEST, GL_COLOR_LOGIC_OP, GL_DITHER, GL_STENCIL_TEST, GL_TEXTURE_2D} then
        upd_rasterizer (\<lambda>r. ggl_enableDisable r cp (of_bool en)) c
      else if cp = GL_TEXTURE_EXTERNAL_OES then upd_rasterizer (\<lambda>r. ggl_enableDisable r GL_TEXTURE_2D (of_bool en)) c
      else if cp \<in> {GL_MULTISAMPLE, GL_SAMPLE_ALPHA_TO_COVERAGE, GL_SAMPLE_ALPHA_TO_ONE, GL_SAMPLE_COVERAGE} then c
      else gl_ogles_error c GL_INVALID_ENUM)"

definition glEnable :: "ogles_context_t \<Rightarrow> nat \<Rightarrow> ogles_context_t" where "glEnable c cp = gl_enable_disable c cp True"
definition glDisable :: "ogles_context_t \<Rightarrow> nat \<Rightarrow> ogles_context_t" where "glDisable c cp = gl_enable_disable c cp False"

subsection \<open>Modes\<close>

definition glStencilFunc :: "ogles_context_t \<Rightarrow> nat \<Rightarrow> int \<Rightarrow> u32 \<Rightarrow> ogles_context_t" where
  "glStencilFunc c func ref m = (if func < GGL_NEVER \<or> func > GGL_ALWAYS then gl_ogles_error c GL_INVALID_ENUM else c)"

definition stencilop_valid :: "nat \<Rightarrow> bool" where
  "stencilop_valid op \<longleftrightarrow> op \<in> {GL_KEEP, GL_ZERO, GL_REPLACE, GL_INCR, GL_DECR, GL_INVERT}"

definition glStencilOp :: "ogles_context_t \<Rightarrow> nat \<Rightarrow> nat \<Rightarrow> nat \<Rightarrow> ogles_context_t" where
  "glStencilOp c fail zfail zpass =
     (if \<not> (stencilop_valid fail \<and> stencilop_valid zfail \<and> stencilop_valid zpass) then gl_ogles_error c GL_INVALID_ENUM else c)"

text \<open>An invalid mode is reported and stored nevertheless: the source has no \<^verbatim>\<open>return\<close> there.\<close>

definition glCullFace :: "ogles_context_t \<Rightarrow> nat \<Rightarrow> ogles_context_t" where
  "glCullFace c mode =
     (let c = (if mode \<in> {GL_FRONT, GL_BACK, GL_FRONT_AND_BACK} then c else gl_ogles_error c GL_INVALID_ENUM)
      in c\<lparr>cullFace := mode\<rparr>)"

definition glFrontFace :: "ogles_context_t \<Rightarrow> nat \<Rightarrow> ogles_context_t" where
  "glFrontFace c mode = (if mode \<in> {GL_CW, GL_CCW} then c\<lparr>frontFace := mode\<rparr> else gl_ogles_error c GL_INVALID_ENUM)"

definition glHint :: "ogles_context_t \<Rightarrow> nat \<Rightarrow> nat \<Rightarrow> ogles_context_t" where
  "glHint c target mode =
     (if target \<in> {GL_FOG_HINT, GL_GENERATE_MIPMAP_HINT, GL_LINE_SMOOTH_HINT} then c
      else if target = GL_POINT_SMOOTH_HINT then
        upd_rasterizer (\<lambda>r. ggl_enableDisable r GGL_POINT_SMOOTH_NICE (of_bool (mode = GL_NICEST))) c
      else if target = GL_PERSPECTIVE_CORRECTION_HINT then c\<lparr>gl_perspective := (mode = GL_NICEST)\<rparr>
      else gl_ogles_error c GL_INVALID_ENUM)"

definition glPointSizex :: "ogles_context_t \<Rightarrow> int \<Rightarrow> ogles_context_t" where
  "glPointSizex c sz = (if sz \<le> 0 then gl_ogles_error c GL_INVALID_ENUM else c\<lparr>point_size := TRI_FROM_FIXED sz\<rparr>)"

definition glLineWidthx :: "ogles_context_t \<Rightarrow> int \<Rightarrow> ogles_context_t" where
  "glLineWidthx c width = (if width \<le> 0 then gl_ogles_error c GL_INVALID_ENUM else c\<lparr>line_width := TRI_FROM_FIXED width\<rparr>)"

subsection \<open>Calls that go to the rasterizer\<close>

definition glColorMask :: "ogles_context_t \<Rightarrow> bool \<Rightarrow> bool \<Rightarrow> bool \<Rightarrow> bool \<Rightarrow> ogles_context_t" where
  "glColorMask c r g b a = upd_rasterizer (\<lambda>x. ggl_colorMask x r g b a) c"
definition glDepthMask :: "ogles_context_t \<Rightarrow> nat \<Rightarrow> ogles_context_t" where
  "glDepthMask c flag = upd_rasterizer (\<lambda>x. ggl_depthMask x flag) c"
definition glStencilMask :: "ogles_context_t \<Rightarrow> u32 \<Rightarrow> ogles_context_t" where
  "glStencilMask c m = upd_rasterizer (\<lambda>x. ggl_stencilMask x m) c"
definition glDepthFunc :: "ogles_context_t \<Rightarrow> nat \<Rightarrow> ogles_context_t" where
  "glDepthFunc c func = upd_rasterizer (\<lambda>x. ggl_depthFunc x func) c"
definition glLogicOp :: "ogles_context_t \<Rightarrow> nat \<Rightarrow> ogles_context_t" where
  "glLogicOp c opcode = upd_rasterizer (\<lambda>x. ggl_logicOp x opcode) c"
definition glAlphaFuncx :: "ogles_context_t \<Rightarrow> nat \<Rightarrow> int \<Rightarrow> ogles_context_t" where
  "glAlphaFuncx c func ref = upd_rasterizer (\<lambda>x. ggl_alphaFuncx x func ref) c"
definition glBlendFunc :: "ogles_context_t \<Rightarrow> nat \<Rightarrow> nat \<Rightarrow> ogles_context_t" where
  "glBlendFunc c sfactor dfactor = upd_rasterizer (\<lambda>x. ggl_blendFunc x sfactor dfactor) c"
definition glClearColorx :: "ogles_context_t \<Rightarrow> int \<Rightarrow> int \<Rightarrow> int \<Rightarrow> int \<Rightarrow> ogles_context_t" where
  "glClearColorx c red green blue alpha = upd_rasterizer (\<lambda>x. ggl_clearColorx x red green blue alpha) c"
definition glClearDepthx :: "ogles_context_t \<Rightarrow> int \<Rightarrow> ogles_context_t" where
  "glClearDepthx c depth = upd_rasterizer (\<lambda>x. ggl_clearDepthx x depth) c"
definition glClearStencil :: "ogles_context_t \<Rightarrow> int \<Rightarrow> ogles_context_t" where
  "glClearStencil c s = upd_rasterizer (\<lambda>x. ggl_clearStencil x s) c"
definition glClear :: "ogles_context_t \<Rightarrow> u32 \<Rightarrow> ogles_context_t option" where
  "glClear c m = map_option (\<lambda>r. c\<lparr>rasterizer := r\<rparr>) (ggl_clear (rasterizer c) m)"

subsection \<open>Queries\<close>

definition glGetError :: "ogles_context_t \<Rightarrow> nat \<times> ogles_context_t" where
  "glGetError c =
     (if gl_err c \<noteq> 0 then (gl_err c, c\<lparr>gl_err := 0\<rparr>)
      else if ggl_err (rasterizer c) \<noteq> 0 then (ggl_err (rasterizer c), upd_rasterizer (\<lambda>r. r\<lparr>ggl_err := 0\<rparr>) c)
      else (GL_NO_ERROR, c))"

definition gExtensionsString :: string where
  "gExtensionsString = concat [''GL_OES_byte_coordinates '', ''GL_OES_fixed_point '', ''GL_OES_single_precision '', ''GL_OES_read_format '',
     ''GL_OES_compressed_paletted_texture '', ''GL_OES_draw_texture '', ''GL_OES_matrix_get '', ''GL_OES_query_matrix '', ''GL_OES_EGL_image '',
     ''GL_ARB_texture_compression '', ''GL_ARB_texture_non_power_of_two '', ''GL_ANDROID_user_clip_plane '', ''GL_ANDROID_vertex_buffer_object '',
     ''GL_ANDROID_generate_mipmap '']"

text \<open>The null pointer is \<^term>\<open>None\<close>.\<close>

definition glGetString :: "ogles_context_t \<Rightarrow> nat \<Rightarrow> string option \<times> ogles_context_t" where
  "glGetString c name =
     (if name = GL_VENDOR then (Some ''Android'', c)
      else if name = GL_RENDERER then (Some ''Android PixelFlinger 1.4'', c)
      else if name = GL_VERSION then (Some ''OpenGL ES-CM 1.0'', c)
      else if name = GL_EXTENSIONS then (Some gExtensionsString, c)
      else (None, gl_ogles_error c GL_INVALID_ENUM))"

definition component_bits :: "ogles_context_t \<Rightarrow> nat \<Rightarrow> int" where
  "component_bits c i = (let (h, l) = fm_c (the_format (sf_format (fb_color (buffers (state (rasterizer c)))))) ! i in int h - int l)"

text \<open>The values that \<^verbatim>\<open>glGetIntegerv\<close> stores through its pointer, in order.\<close>

definition glGetIntegerv :: "ogles_context_t \<Rightarrow> nat \<Rightarrow> int list \<times> ogles_context_t" where
  "glGetIntegerv c pname =
     (if pname = GL_ALIASED_POINT_SIZE_RANGE then ([0, 0x7FFFFFF], c)
      else if pname = GL_ALIASED_LINE_WIDTH_RANGE then ([0, 0x7FFFFFF], c)
      else if pname = GL_ALPHA_BITS then ([component_bits c 0], c)
      else if pname = GL_RED_BITS then ([component_bits c 1], c)
      else if pname = GL_GREEN_BITS then ([component_bits c 2], c)
      else if pname = GL_BLUE_BITS then ([component_bits c 3], c)
      else if pname = GL_COMPRESSED_TEXTURE_FORMATS then
        ([0x8B90, 0x8B91, 0x8B92, 0x8B93, 0x8B94, 0x8B95, 0x8B96, 0x8B97, 0x8B98, 0x8B99], c)
      else if pname = GL_DEPTH_BITS then ([if sf_format (fb_depth (buffers (state (rasterizer c)))) \<noteq> 0 then 0 else 16], c)
      else if pname = GL_IMPLEMENTATION_COLOR_READ_FORMAT_OES then ([0x1907], c)
      else if pname = GL_IMPLEMENTATION_COLOR_READ_TYPE_OES then ([0x8363], c)
      else if pname = GL_MAX_LIGHTS then ([8], c)
      else if pname = GL_MAX_CLIP_PLANES then ([6], c)
      else if pname = GL_MAX_MODELVIEW_STACK_DEPTH then ([16], c)
      else if pname = GL_MAX_PROJECTION_STACK_DEPTH then ([2], c)
      else if pname = GL_MAX_TEXTURE_STACK_DEPTH then ([2], c)
      else if pname = GL_MAX_TEXTURE_SIZE then ([4096], c)
      else if pname = GL_MAX_TEXTURE_UNITS then ([2], c)
      else if pname = GL_MAX_VIEWPORT_DIMS then ([4096, 4096], c)
      else if pname = GL_NUM_COMPRESSED_TEXTURE_FORMATS then ([10], c)
      else if pname = GL_SMOOTH_LINE_WIDTH_RANGE then ([0, 2048], c)
      else if pname = GL_SMOOTH_POINT_SIZE_RANGE then ([0, 2048], c)
      else if pname = GL_STENCIL_BITS then ([0], c)
      else if pname = GL_SUBPIXEL_BITS then ([4], c)
      else if pname = GL_MODELVIEW_MATRIX_FLOAT_AS_INT_BITS_OES then (take 16 (gl_matrix_bits c ! 0), c)
      else if pname = GL_PROJECTION_MATRIX_FLOAT_AS_INT_BITS_OES then (take 16 (gl_matrix_bits c ! 1), c)
      else if pname = GL_TEXTURE_MATRIX_FLOAT_AS_INT_BITS_OES then (take 16 (gl_matrix_bits c ! (2 + textures_active c)), c)
      else ([], gl_ogles_error c GL_INVALID_ENUM))"

subsection \<open>The machine of the GL state\<close>

datatype gl_call = GlEnable nat | GlDisable nat | GlStencilFunc nat int u32 | GlStencilOp nat nat nat | GlCullFace nat | GlFrontFace nat
  | GlHint nat nat | GlPointSizex int | GlLineWidthx int | GlColorMask bool bool bool bool | GlDepthMask nat | GlStencilMask u32
  | GlDepthFunc nat | GlLogicOp nat | GlAlphaFuncx nat int | GlBlendFunc nat nat | GlClearColorx int int int int | GlClearDepthx int
  | GlClearStencil int | GlGetError | GlGetString nat | GlGetIntegerv nat

fun gl_exec :: "ogles_context_t \<Rightarrow> gl_call \<Rightarrow> ogles_context_t" where
  "gl_exec c (GlEnable p) = glEnable c p"
| "gl_exec c (GlDisable p) = glDisable c p"
| "gl_exec c (GlStencilFunc f r m) = glStencilFunc c f r m"
| "gl_exec c (GlStencilOp f z p) = glStencilOp c f z p"
| "gl_exec c (GlCullFace m) = glCullFace c m"
| "gl_exec c (GlFrontFace m) = glFrontFace c m"
| "gl_exec c (GlHint t m) = glHint c t m"
| "gl_exec c (GlPointSizex x) = glPointSizex c x"
| "gl_exec c (GlLineWidthx x) = glLineWidthx c x"
| "gl_exec c (GlColorMask r g b a) = glColorMask c r g b a"
| "gl_exec c (GlDepthMask f) = glDepthMask c f"
| "gl_exec c (GlStencilMask m) = glStencilMask c m"
| "gl_exec c (GlDepthFunc f) = glDepthFunc c f"
| "gl_exec c (GlLogicOp p) = glLogicOp c p"
| "gl_exec c (GlAlphaFuncx f r) = glAlphaFuncx c f r"
| "gl_exec c (GlBlendFunc s d) = glBlendFunc c s d"
| "gl_exec c (GlClearColorx r g b a) = glClearColorx c r g b a"
| "gl_exec c (GlClearDepthx d) = glClearDepthx c d"
| "gl_exec c (GlClearStencil s) = glClearStencil c s"
| "gl_exec c GlGetError = snd (glGetError c)"
| "gl_exec c (GlGetString n) = snd (glGetString c n)"
| "gl_exec c (GlGetIntegerv n) = snd (glGetIntegerv c n)"

text \<open>The calls of the rasterizer that a GL call makes.\<close>

fun enable_calls :: "nat \<Rightarrow> bool \<Rightarrow> ggl_call list" where
  "enable_calls p en =
     (if p \<in> {GL_FOG, GL_DEPTH_TEST, GL_BLEND, GL_SCISSOR_TEST, GL_ALPHA_TEST, GL_COLOR_LOGIC_OP, GL_DITHER, GL_STENCIL_TEST, GL_TEXTURE_2D}
      then [EnableDisable p (of_bool en)]
      else if p = GL_TEXTURE_EXTERNAL_OES then [EnableDisable GL_TEXTURE_2D (of_bool en)] else [])"

fun rast_calls :: "gl_call \<Rightarrow> ggl_call list" where
  "rast_calls (GlEnable p) = enable_calls p True"
| "rast_calls (GlDisable p) = enable_calls p False"
| "rast_calls (GlHint t m) = (if t = GL_POINT_SMOOTH_HINT then [EnableDisable GGL_POINT_SMOOTH_NICE (of_bool (m = GL_NICEST))] else [])"
| "rast_calls (GlColorMask r g b a) = [ColorMask r g b a]"
| "rast_calls (GlDepthMask f) = [DepthMask f]"
| "rast_calls (GlStencilMask m) = [StencilMask m]"
| "rast_calls (GlDepthFunc f) = [DepthFunc f]"
| "rast_calls (GlLogicOp p) = [LogicOp p]"
| "rast_calls (GlAlphaFuncx f r) = [AlphaFuncx f r]"
| "rast_calls (GlBlendFunc s d) = [BlendFunc s d]"
| "rast_calls (GlClearColorx r g b a) = [ClearColorx r g b a]"
| "rast_calls (GlClearDepthx d) = [ClearDepthx d]"
| "rast_calls (GlClearStencil s) = [ClearStencil s]"
| "rast_calls _ = []"

inductive gl_reachable :: "(nat \<Rightarrow> bool) \<Rightarrow> ogles_context_t \<Rightarrow> bool" for al where
  init: "gl_reachable al (ogles_init (ggl_init_context m) mats)"
| call: "gl_reachable al c \<Longrightarrow> gl_reachable al (gl_exec c k)"

lemma error_rasterizer [simp]: "rasterizer (gl_ogles_error c e) = rasterizer c" "rasterizer (ogles_invalidate_perspective c) = rasterizer c"
  "rasterizer (upd_rasterizer f c) = f (rasterizer c)"
  by (simp_all add: gl_ogles_error_def ogles_invalidate_perspective_def upd_rasterizer_def)

lemma enable_simulates:
  "rasterizer (gl_enable_disable c p en) = ggl_calls al (rasterizer c) (enable_calls p en)"
proof (cases "p \<in> {GL_FOG, GL_DEPTH_TEST, GL_BLEND, GL_SCISSOR_TEST, GL_ALPHA_TEST, GL_COLOR_LOGIC_OP, GL_DITHER, GL_STENCIL_TEST, GL_TEXTURE_2D}")
  case True
  then show ?thesis
    by (elim insertE emptyE) (simp_all add: gl_enable_disable_def ggl_calls_def)
next
  case False
  then have f: "(p = GL_FOG \<or> p = GL_DEPTH_TEST) = False"
    "(p \<in> {GL_BLEND, GL_SCISSOR_TEST, GL_ALPHA_TEST, GL_COLOR_LOGIC_OP, GL_DITHER, GL_STENCIL_TEST, GL_TEXTURE_2D}) = False" by blast+
  show ?thesis
  proof (cases "p = GL_TEXTURE_EXTERNAL_OES")
    case True
    then show ?thesis by (simp add: gl_enable_disable_def ggl_calls_def)
  next
    case no: False
    have u: "rasterizer (c\<lparr>lights_enable := l, enabledLights := b\<rparr>) = rasterizer c" "rasterizer (c\<lparr>point_smooth := x\<rparr>) = rasterizer c"
      "rasterizer (c\<lparr>line_smooth := x\<rparr>) = rasterizer c" "rasterizer (c\<lparr>polygonOffset_enable := x\<rparr>) = rasterizer c"
      "rasterizer (c\<lparr>cull_enable := x\<rparr>) = rasterizer c" "rasterizer (c\<lparr>lighting_enable := x\<rparr>) = rasterizer c"
      "rasterizer (c\<lparr>colorMaterial_enable := x\<rparr>) = rasterizer c" "rasterizer (c\<lparr>rescaleNormals := n\<rparr>) = rasterizer c"
      "rasterizer (c\<lparr>clipPlanes_enable := b\<rparr>) = rasterizer c" for l b x n by simp_all
    have "rasterizer (gl_enable_disable c p en) = rasterizer c" unfolding gl_enable_disable_def f
      by (simp only: no if_False if_distrib [of rasterizer] error_rasterizer u if_cancel)
    moreover have "enable_calls p en = []" unfolding enable_calls.simps using False no by (simp only: if_False)
    ultimately show ?thesis by (simp add: ggl_calls_def)
  qed
qed

lemma call_simulates:
  assumes "k \<noteq> GlGetError"
  shows "rasterizer (gl_exec c k) = ggl_calls al (rasterizer c) (rast_calls k)"
proof (cases k)
  case (GlEnable p)
  then show ?thesis by (simp only: gl_exec.simps rast_calls.simps glEnable_def enable_simulates)
next
  case (GlDisable p)
  then show ?thesis by (simp only: gl_exec.simps rast_calls.simps glDisable_def enable_simulates)
next
  case (GlGetIntegerv n)
  have "rasterizer (snd (glGetIntegerv c n)) = rasterizer c" unfolding glGetIntegerv_def
    by (simp only: if_distrib [of snd] if_distrib [of rasterizer] snd_conv error_rasterizer if_cancel)
  then show ?thesis using GlGetIntegerv by (simp add: ggl_calls_def)
qed (use assms in \<open>simp_all add: ggl_calls_def glStencilFunc_def glStencilOp_def glCullFace_def glFrontFace_def glHint_def glPointSizex_def
   glLineWidthx_def glColorMask_def glDepthMask_def glStencilMask_def glDepthFunc_def glLogicOp_def glAlphaFuncx_def glBlendFunc_def
   glClearColorx_def glClearDepthx_def glClearStencil_def glGetString_def Let_def\<close>)

lemma reachable_forget_error: "ggl_reachable al r \<Longrightarrow> ggl_reachable al (r\<lparr>ggl_err := GL_NO_ERROR\<rparr>)"
proof (induction rule: ggl_reachable.induct)
  case (init m)
  have "ggl_err (ggl_init_context m) = GL_NO_ERROR"
    by (simp add: ggl_init_context_def ggl_init_texture_def ggl_init_scanline_def ggl_init_trap_def ggl_init_clear_def ctx_defs Let_def context_zero_def)
  then have "(ggl_init_context m)\<lparr>ggl_err := GL_NO_ERROR\<rparr> = ggl_init_context m" by simp
  then show ?case using ggl_reachable.init [of al m] by simp
next
  case (step c k)
  show ?case
  proof (cases "rejected k")
    case True
    then show ?thesis using step.IH by (simp add: exec_rejected error_update)
  next
    case False
    have "call_ok (c\<lparr>ggl_err := GL_NO_ERROR\<rparr>) k" using step.hyps(2) by (cases k) simp_all
    then show ?thesis using ggl_reachable.step [OF step.IH] exec_accepted [OF False] by metis
  qed
qed

lemma calls_reachable:
  "ggl_reachable al r \<Longrightarrow> \<forall>k \<in> set ks. \<forall>r. call_ok r k \<Longrightarrow> ggl_reachable al (ggl_calls al r ks)"
proof (induction ks arbitrary: r)
  case (Cons k ks)
  have "ggl_reachable al (ggl_exec al r k)" using Cons.prems ggl_reachable.step [OF Cons.prems(1)] by simp
  then show ?case using Cons.IH [of "ggl_exec al r k"] Cons.prems(2) by (simp add: ggl_calls_def)
qed (simp add: ggl_calls_def)

lemma rast_calls_ok: "k' \<in> set (rast_calls k) \<Longrightarrow> call_ok r k'"
  by (cases k) (auto split: if_splits)

subsection \<open>The invariant of the GL state\<close>

definition gl_inv :: "ogles_context_t \<Rightarrow> bool" where
  "gl_inv c \<longleftrightarrow> length (lights_enable c) = 8 \<and> (\<forall>k. bit (enabledLights c) k \<longleftrightarrow> k < 8 \<and> lights_enable c ! k) \<and>
     (\<forall>k. bit (clipPlanes_enable c) k \<longrightarrow> k < 6) \<and> frontFace c \<in> {GL_CW, GL_CCW}"

text \<open>The fields of the invariant.\<close>

definition inv_view :: "ogles_context_t \<Rightarrow> bool list \<times> u32 \<times> u32 \<times> nat" where
  "inv_view c = (lights_enable c, enabledLights c, clipPlanes_enable c, frontFace c)"

lemma inv_view_inv: "inv_view c' = inv_view c \<Longrightarrow> gl_inv c' = gl_inv c"
  by (simp add: inv_view_def gl_inv_def)

lemma bit_put_bit: "k < 32 \<Longrightarrow> bit (put_bit k en w) j \<longleftrightarrow> (if j = k then en else bit w j)"
  by (auto simp: put_bit_def bit_simps dest: bit_imp_le_length)

lemma inv_view_updates [simp]:
  "inv_view (gl_ogles_error c e) = inv_view c" "inv_view (ogles_invalidate_perspective c) = inv_view c" "inv_view (upd_rasterizer f c) = inv_view c"
  "inv_view (c\<lparr>point_smooth := x\<rparr>) = inv_view c" "inv_view (c\<lparr>line_smooth := x\<rparr>) = inv_view c" "inv_view (c\<lparr>polygonOffset_enable := x\<rparr>) = inv_view c"
  "inv_view (c\<lparr>cull_enable := x\<rparr>) = inv_view c" "inv_view (c\<lparr>lighting_enable := x\<rparr>) = inv_view c" "inv_view (c\<lparr>colorMaterial_enable := x\<rparr>) = inv_view c"
  "inv_view (c\<lparr>rescaleNormals := n\<rparr>) = inv_view c" "inv_view (c\<lparr>cullFace := n\<rparr>) = inv_view c" "inv_view (c\<lparr>gl_perspective := x\<rparr>) = inv_view c"
  "inv_view (c\<lparr>point_size := z\<rparr>) = inv_view c" "inv_view (c\<lparr>line_width := z\<rparr>) = inv_view c" "inv_view (c\<lparr>gl_err := n\<rparr>) = inv_view c"
  by (simp_all add: inv_view_def gl_ogles_error_def ogles_invalidate_perspective_def upd_rasterizer_def)

lemma lights_inv:
  assumes "gl_inv c" "GL_LIGHT0 \<le> p \<and> p < GL_LIGHT0 + 8"
  shows "gl_inv (c\<lparr>lights_enable := (lights_enable c)[p - GL_LIGHT0 := en], enabledLights := put_bit (p - GL_LIGHT0) en (enabledLights c)\<rparr>)"
proof -
  have k: "p - GL_LIGHT0 < 8" using assms(2) by linarith
  have "bit (put_bit (p - GL_LIGHT0) en (enabledLights c)) j \<longleftrightarrow> j < 8 \<and> (lights_enable c)[p - GL_LIGHT0 := en] ! j" for j
    using assms(1) k bit_put_bit [of "p - GL_LIGHT0" en "enabledLights c" j] by (auto simp: gl_inv_def nth_list_update)
  then show ?thesis using assms(1) by (simp add: gl_inv_def)
qed

lemma planes_inv:
  assumes "gl_inv c" "GL_CLIP_PLANE0 \<le> p \<and> p \<le> GL_CLIP_PLANE0 + 5"
  shows "gl_inv (ogles_invalidate_perspective (c\<lparr>clipPlanes_enable := put_bit (p - GL_CLIP_PLANE0) en (clipPlanes_enable c)\<rparr>))"
proof -
  have k: "p - GL_CLIP_PLANE0 < 6" using assms(2) by linarith
  have "bit (put_bit (p - GL_CLIP_PLANE0) en (clipPlanes_enable c)) j \<Longrightarrow> j < 6" for j
    using assms(1) k bit_put_bit [of "p - GL_CLIP_PLANE0" en "clipPlanes_enable c" j] by (auto simp: gl_inv_def split: if_splits)
  then show ?thesis using assms(1) by (simp add: gl_inv_def ogles_invalidate_perspective_def)
qed

lemma enable_inv:
  assumes "gl_inv c"
  shows "gl_inv (gl_enable_disable c p en)"
proof (cases "GL_LIGHT0 \<le> p \<and> p < GL_LIGHT0 + 8")
  case True
  have "gl_enable_disable c p en =
      c\<lparr>lights_enable := (lights_enable c)[p - GL_LIGHT0 := en], enabledLights := put_bit (p - GL_LIGHT0) en (enabledLights c)\<rparr>"
    unfolding gl_enable_disable_def if_P [OF True] ..
  then show ?thesis using lights_inv [OF assms True, of en] by (simp only:)
next
  case no: False
  show ?thesis
  proof (cases "GL_CLIP_PLANE0 \<le> p \<and> p \<le> GL_CLIP_PLANE0 + 5")
    case True
    then have "p \<noteq> GL_POINT_SMOOTH" "p \<noteq> GL_LINE_SMOOTH" "p \<noteq> GL_POLYGON_OFFSET_FILL" "p \<noteq> GL_CULL_FACE" "p \<noteq> GL_LIGHTING"
      "p \<noteq> GL_COLOR_MATERIAL" "\<not> (p = GL_NORMALIZE \<or> p = GL_RESCALE_NORMAL)" by auto
    then have "gl_enable_disable c p en =
        ogles_invalidate_perspective (c\<lparr>clipPlanes_enable := put_bit (p - GL_CLIP_PLANE0) en (clipPlanes_enable c)\<rparr>)"
      unfolding gl_enable_disable_def if_not_P [OF no] if_P [OF True] by (simp only: if_False)
    then show ?thesis using planes_inv [OF assms True, of en] by (simp only:)
  next
    case False
    have "inv_view (gl_enable_disable c p en) = inv_view c"
      unfolding gl_enable_disable_def if_not_P [OF no] if_not_P [OF False]
      by (simp only: if_distrib [of inv_view] inv_view_updates if_cancel)
    then show ?thesis using assms inv_view_inv by blast
  qed
qed

lemma gl_call_inv:
  assumes "gl_inv c"
  shows "gl_inv (gl_exec c k)"
proof (cases "\<exists>p. k = GlEnable p \<or> k = GlDisable p \<or> k = GlFrontFace p")
  case True
  have "gl_inv (glFrontFace c p)" for p using assms by (simp add: glFrontFace_def gl_inv_def gl_ogles_error_def)
  then show ?thesis using True enable_inv [OF assms] by (elim exE disjE) (simp_all only: gl_exec.simps glEnable_def glDisable_def)
next
  case False
  have "inv_view (gl_exec c k) = inv_view c"
  proof (cases k)
    case (GlGetIntegerv n)
    show ?thesis unfolding GlGetIntegerv gl_exec.simps glGetIntegerv_def
      by (simp only: if_distrib [of snd] if_distrib [of inv_view] snd_conv inv_view_updates if_cancel)
  qed (use False in \<open>simp_all add: glStencilFunc_def glStencilOp_def glCullFace_def glHint_def glPointSizex_def
   glLineWidthx_def glColorMask_def glDepthMask_def glStencilMask_def glDepthFunc_def glLogicOp_def glAlphaFuncx_def glBlendFunc_def
   glClearColorx_def glClearDepthx_def glClearStencil_def glGetString_def glGetError_def Let_def\<close>)
  then show ?thesis using assms inv_view_inv by blast
qed

lemma init_gl_inv: "gl_inv (ogles_init r mats)"
  by (auto simp: gl_inv_def ogles_init_def nth_replicate)

lemma init_gl_reachable: "ggl_reachable al (rasterizer (ogles_init (ggl_init_context m) mats))"
proof -
  have "rasterizer (ogles_init (ggl_init_context m) mats) =
      ggl_calls al (ggl_init_context m) [ShadeModel GGL_SMOOTH, DepthMask 1, EnableDisable GL_DITHER 1]"
    by (simp add: ogles_init_def ggl_calls_def ggl_enable_def ggl_enableDisable_def)
  then show ?thesis using calls_reachable [OF ggl_reachable.init [of al m]] by simp
qed

lemma exec_gl_reachable:
  assumes "ggl_reachable al (rasterizer c)"
  shows "ggl_reachable al (rasterizer (gl_exec c k))"
proof (cases "k = GlGetError")
  case True
  then show ?thesis using assms reachable_forget_error [OF assms] by (simp add: glGetError_def)
next
  case False
  show ?thesis unfolding call_simulates [OF False, of c al] by (rule calls_reachable [OF assms]) (simp add: rast_calls_ok)
qed

subsection \<open>GL state as properties\<close>

text \<open>C37. The GL state calls drive the rasterizer correctly. In every state reachable from \<^verbatim>\<open>ogles_init\<close>
  by the calls of \<^verbatim>\<open>state.cpp\<close> the embedded rasterizer context is one that the calls of the rasterizer reach,
  so that all its properties hold; each call except \<^verbatim>\<open>glGetError\<close> changes the rasterizer exactly as the
  sequence of rasterizer calls \<open>rast_calls\<close> does. On the GL side the bit mask of the enabled lights agrees
  with the flags of the eight lights, only the six clip planes can be enabled, and the front face is
  clockwise or counter-clockwise.\<close>

theorem gl_state_refines:
  assumes "gl_reachable al c"
  shows "ggl_reachable al (rasterizer c) \<and> gl_inv c \<and>
    (\<forall>k. k = GlGetError \<or> rasterizer (gl_exec c k) = ggl_calls al (rasterizer c) (rast_calls k))"
proof -
  have "ggl_reachable al (rasterizer c) \<and> gl_inv c" using assms
  proof (induction rule: gl_reachable.induct)
    case (init m mats)
    show ?case using init_gl_reachable init_gl_inv by blast
  next
    case (call c k)
    then show ?case using exec_gl_reachable gl_call_inv by blast
  qed
  then show ?thesis using call_simulates by blast
qed

text \<open>A state after some calls: a light and a clip plane enabled, an invalid front face rejected.\<close>

definition gl_sample :: ogles_context_t where
  "gl_sample = foldl gl_exec (ogles_init (ggl_init_context (\<lambda>_. 0)) []) [GlEnable 0x4003, GlEnable 0x3001, GlFrontFace 7]"

theorem gl_state_refines_witness:
  "ggl_reachable (\<lambda>_. True) (rasterizer gl_sample) \<and> gl_inv gl_sample \<and> lights_enable gl_sample ! 3 \<and> gl_err gl_sample = GL_INVALID_ENUM"
proof -
  have "gl_reachable (\<lambda>_. True) gl_sample"
    unfolding gl_sample_def foldl.simps by (intro gl_reachable.call gl_reachable.init)
  from gl_state_refines [OF this] have "ggl_reachable (\<lambda>_. True) (rasterizer gl_sample)" "gl_inv gl_sample" by blast+
  moreover have "lights_enable gl_sample ! 3" "gl_err gl_sample = GL_INVALID_ENUM"
    by (simp_all add: gl_sample_def glEnable_def gl_enable_disable_def glFrontFace_def gl_ogles_error_def ogles_init_def ogles_invalidate_perspective_def)
  ultimately show ?thesis by blast
qed

text \<open>C38. The error flags can be read out: whatever is recorded, the loop that the OpenGL ES specification
  prescribes for \<^verbatim>\<open>glGetError\<close> ends at the third call at the latest. The first calls return the error of the
  GL library and then that of the rasterizer, each exactly once, the third returns \<^verbatim>\<open>GL_NO_ERROR\<close>, and
  nothing but the two flags is changed.\<close>

theorem get_error_drains:
  "let (e1, c1) = glGetError c; (e2, c2) = glGetError c1; (e3, c3) = glGetError c2 in
     e3 = GL_NO_ERROR \<and> c3 = c2 \<and> c2 = (upd_rasterizer (\<lambda>r. r\<lparr>ggl_err := GL_NO_ERROR\<rparr>) c)\<lparr>gl_err := GL_NO_ERROR\<rparr> \<and>
     filter (\<lambda>e. e \<noteq> GL_NO_ERROR) [e1, e2] = filter (\<lambda>e. e \<noteq> GL_NO_ERROR) [gl_err c, ggl_err (rasterizer c)]"
proof -
  show ?thesis
    by (cases "gl_err c = 0"; cases "ggl_err (rasterizer c) = 0") (simp_all add: glGetError_def upd_rasterizer_def)
qed

text \<open>The names \<^verbatim>\<open>glGetIntegerv\<close> knows.\<close>

definition integer_queries :: "nat set" where
  "integer_queries = {GL_ALIASED_POINT_SIZE_RANGE, GL_ALIASED_LINE_WIDTH_RANGE, GL_ALPHA_BITS, GL_RED_BITS, GL_GREEN_BITS, GL_BLUE_BITS, GL_COMPRESSED_TEXTURE_FORMATS, GL_DEPTH_BITS, GL_IMPLEMENTATION_COLOR_READ_FORMAT_OES, GL_IMPLEMENTATION_COLOR_READ_TYPE_OES, GL_MAX_LIGHTS, GL_MAX_CLIP_PLANES, GL_MAX_MODELVIEW_STACK_DEPTH, GL_MAX_PROJECTION_STACK_DEPTH, GL_MAX_TEXTURE_STACK_DEPTH, GL_MAX_TEXTURE_SIZE, GL_MAX_TEXTURE_UNITS, GL_MAX_VIEWPORT_DIMS, GL_NUM_COMPRESSED_TEXTURE_FORMATS, GL_SMOOTH_LINE_WIDTH_RANGE, GL_SMOOTH_POINT_SIZE_RANGE, GL_STENCIL_BITS, GL_SUBPIXEL_BITS, GL_MODELVIEW_MATRIX_FLOAT_AS_INT_BITS_OES, GL_PROJECTION_MATRIX_FLOAT_AS_INT_BITS_OES, GL_TEXTURE_MATRIX_FLOAT_AS_INT_BITS_OES}"

lemma get_integerv_known: "pname \<in> integer_queries \<Longrightarrow> snd (glGetIntegerv c pname) = c"
  unfolding integer_queries_def by (elim insertE emptyE) (simp_all add: glGetIntegerv_def)

lemma get_integerv_unknown: "pname \<notin> integer_queries \<Longrightarrow> glGetIntegerv c pname = ([], gl_ogles_error c GL_INVALID_ENUM)"
  by (simp add: integer_queries_def glGetIntegerv_def)


end
