(* ===== verification/Spec2Isabelle.thy ===== *)
theory Spec2Isabelle
  imports Tokens Vectors Fixed BufferObjects TextureObjects GGLDraw GGLRaster GLState
begin

text \<open>
  A verification library for rabbitrender, a software implementation of OpenGL ES. The program has a
  rasterizer (\<^verbatim>\<open>src/libpixelflinger\<close>: a context of drawing state, a table of calls that change it, and the
  code that turns points, lines, triangles and rectangles into pixels of a memory buffer), and the GL library
  above it (\<^verbatim>\<open>src/swrender\<close>: names, buffer objects, texture objects, client arrays, GL state, geometry).
  Both rest on fixed-point arithmetic (\<^verbatim>\<open>fixed.cpp\<close>, \<^verbatim>\<open>ggl_fixed.h\<close>) and on containers
  (\<^verbatim>\<open>tinyutils\<close>).

  \<^bold>\<open>How the code is modelled.\<close> A struct is a record with the fields of the source, an enum or a function
  pointer that is only compared and called is a datatype, every function is one definition with the source's
  name (a clash with HOL gets a prefix or a suffix). Signed 32-bit values are \<^typ>\<open>int\<close> with the wrap-around
  written out by \<open>s32\<close> at each operation; bit patterns and unsigned values are words. Memory is a function
  from addresses to bytes, part of the rasterizer's context; pixels are read and written through it, so
  aliasing and out-of-range writes are visible. Undefined behaviour and calls that do not return are
  \<^term>\<open>None\<close>; errors that the source reports are values. An allocator is a parameter \<open>al\<close> that answers
  whether a request succeeds. Loops are recursive functions; the loop of the antialiased polygons runs on
  fuel, and property C32 shows that the fuel is enough.

  \<^bold>\<open>The theories.\<close>
  \<^item> \<open>RR_Prelude\<close>: the collections of rules, wrap-around of 32-bit values, list and word lemmas.
  \<^item> \<open>Tokens\<close>: \<^verbatim>\<open>Tokenizer.cpp\<close>, \<^verbatim>\<open>TokenManager.cpp\<close>. The allocator of names keeps sorted runs of
    tokens; it refines a finite set (C4), returns the least free token (C3) and fresh names (C1), and
    recycling undoes allocation (C2).
  \<^item> \<open>Vectors\<close>: \<^verbatim>\<open>VectorImpl.cpp\<close>, \<^verbatim>\<open>KeyedVector.h\<close>. Vectors with capacity and allocation failure refine
    lists (C5), keyed vectors refine maps (C6).
  \<^item> \<open>Fixed\<close>: \<^verbatim>\<open>fixed.cpp\<close>. Multiplication rounds (C7), the division routines are the exact quotients where
    they return, and where they do not is characterised (C8, C9).
  \<^item> \<open>BufferObjects\<close>: the buffer-object and pointer calls of \<^verbatim>\<open>array.cpp\<close> with \<^verbatim>\<open>BufferObjectManager.cpp\<close>.
    Every reachable state has only live bound buffers (C10); data round trips (C11); deletion is exact (C12).
  \<^item> \<open>TextureObjects\<close>: \<^verbatim>\<open>TextureObjectManager.cpp\<close>. Mipmap completeness (C13), ownership of the storage (C14),
    life time under reference counts (C15).
  \<^item> \<open>GGLContext\<close>: the structures of \<^verbatim>\<open>ggl_context.h\<close>, the format table, the needs words.
  \<^item> \<open>PixelBuffer\<close>: \<^verbatim>\<open>buffer.cpp\<close>. Packing (C16), the fast readers agree with the generic one (C17), writing
    and reading a pixel (C18).
  \<^item> \<open>GGLClear\<close>: \<^verbatim>\<open>clear.cpp\<close>. A clear fills exactly the scissor (C19).
  \<^item> \<open>GGLState\<close>: the setters of \<^verbatim>\<open>pixelflinger.cpp\<close>; \<open>GGLPicker\<close>: \<^verbatim>\<open>picker.cpp\<close> and the choice of the
    scanline function; \<open>GGLMachine\<close>: the state machine of all calls (\<open>ggl_call\<close>, \<open>ggl_exec\<close>, the reachable
    contexts \<open>ggl_reachable\<close>), the discipline of the dirty flags (C20) and the invariant of the context
    (C21); \<open>GGLErrors\<close>: rejected calls have no effect but the first error (C35).
  \<^item> \<open>GGLIter\<close>: initialisers and steppers of the iterators; stepping rows is the same as initialising
    below (C22).
  \<^item> \<open>GGLPipeline\<close>: the generic pixel pipeline of \<^verbatim>\<open>scanline.cpp\<close>, its memory footprint (C23) and blending
    (C24); \<open>GGLSpan565\<close>: the specialised pipelines for 565 buffers, the blender (C25) and the special case of
    horizontal scaling (C26); \<open>GGLScanline\<close>: fills, copies, perspective drivers, the calls through the
    function pointers, and that the selected pipeline fits the buffers (C27).
  \<^item> \<open>GGLTrap\<close>, \<open>GGLAAPoly\<close>: \<^verbatim>\<open>trap.cpp\<close>, points, lines, rectangles, triangles and antialiased polygons;
    the coverage of points (C33) and the end of the polygon sweep (C32). \<open>GGLTriangle\<close>: a small triangle is
    drawn exactly (C28), a shared edge is split (C29).
  \<^item> \<open>GGLTarget\<close>, \<open>GGLSweep\<close>, \<open>GGLPrimitives\<close>: what each pipeline and stepper may change, the interface
    \<open>row_drawer\<close> between rasterizer and pipelines with its interpretation on the model, and that big
    triangles (C30) and lines (C31) keep to the scissor. \<open>GGLDraw\<close>: the same after any sequence of state calls
    (C36).
  \<^item> \<open>GGLRaster\<close>: \<^verbatim>\<open>raster.cpp\<close>, copying of pixels with overlap (C34) and the texture blit.
  \<^item> \<open>GLState\<close>: \<^verbatim>\<open>state.cpp\<close>, the GL state over the embedded rasterizer. Every GL call is a sequence of
    rasterizer calls (C37), the recorded errors can be read out (C38), and the queries answer as specified
    except for the depth bits (C39).

  \<^bold>\<open>Bounds.\<close> Coordinates of big triangles are bounded by 4095 pixels, where the division of an edge's
  slope returns; small triangles by the range in which the edge functions do not wrap; scissors by
  \<open>100000000\<close>, far above any buffer that fits 32-bit byte offsets (\<open>cb_ok\<close>). The fuel of the polygon sweep is
  three times the number of scanlines of a 16-bit range in 28.4 format, one for the first pair of edges and
  one for each edge that can follow.

  \<^bold>\<open>Not modelled.\<close> The vertex pipeline (\<^verbatim>\<open>matrix.cpp\<close>, \<^verbatim>\<open>light.cpp\<close>, \<^verbatim>\<open>vertex.cpp\<close>,
  \<^verbatim>\<open>primitives.cpp\<close>) computes with IEEE floats, for which the library has no theory at hand; \<^verbatim>\<open>egl.cpp\<close> and the
  window glue are platform calls; the shader reader and executor (\<^verbatim>\<open>src/compiler/shader\<close>) call LLVM; the
  GLSL front end, \<^verbatim>\<open>src/base\<close> and \<^verbatim>\<open>src/third_party\<close> are vendored. Locks are left out: each call is one
  step. Assembly variants and the run-time code generator of the pixel pipeline are compiled out by the build.
\<close>

end
